(* ===== verification/Go_Prelude.thy ===== *)
theory Go_Prelude
  imports Main "HOL-Library.Char_ord" "HOL-Library.List_Lexorder" "HOL-Library.Multiset"
    "HOL-Library.Sublist"
begin

text \<open>
  Shared ground of the development: the pieces of the Go language and standard library that
  the modelled packages use (times and durations, 64-bit arithmetic, \<^verbatim>\<open>strings\<close>,
  \<^verbatim>\<open>sort.SliceStable\<close>, map reads with a zero value), tables of rows with
  SQL-style update and lookup, fallible statements of a database transaction, and the generic
  lemmas the component theories rely on.

  Times are integers counting nanoseconds from Go's zero time, so \<^verbatim>\<open>IsZero\<close>
  is equality with \<open>0\<close>; durations are nanoseconds. Strings are byte strings, ordered
  bytewise as Go orders them.
\<close>

section \<open>Collections of facts\<close>

named_theorems table_simps \<open>reading a table after an update\<close>
named_theorems go_defs \<open>definitions of small Go library functions\<close>

section \<open>Time, durations and 64-bit integers\<close>

type_synonym time = int
type_synonym duration = int
type_synonym ident = string

definition second :: duration where
  "second = 1000000000"

definition minute :: duration where
  "minute = 60 * second"

definition hour :: duration where
  "hour = 60 * minute"

definition is_zero_time :: "time \<Rightarrow> bool" where
  "is_zero_time t \<longleftrightarrow> t = 0"

text \<open>
  Two's complement wrap-around of \<^verbatim>\<open>int64\<close>, and division truncated towards
  zero, as Go divides.
\<close>

definition i64 :: "int \<Rightarrow> int" where
  "i64 x = (x + 2 ^ 63) mod 2 ^ 64 - 2 ^ 63"

definition go_div :: "int \<Rightarrow> int \<Rightarrow> int" where
  "go_div a b = sgn a * sgn b * (\<bar>a\<bar> div \<bar>b\<bar>)"

lemma i64_id: "- (2 ^ 63) \<le> x \<Longrightarrow> x < 2 ^ 63 \<Longrightarrow> i64 x = x"
  by (simp add: i64_def)

lemma i64_range: "- (2 ^ 63) \<le> i64 x \<and> i64 x < 2 ^ 63"
proof -
  have "0 \<le> (x + 2 ^ 63) mod 2 ^ 64" "(x + 2 ^ 63) mod 2 ^ 64 < (2::int) ^ 64"
    by simp_all
  then show ?thesis by (simp add: i64_def)
qed

lemma go_div_nonneg: "0 \<le> a \<Longrightarrow> 0 < b \<Longrightarrow> go_div a b = a div b"
  by (cases "a = 0") (simp_all add: go_div_def)

section \<open>Strings\<close>

text \<open>
  The byte sequences of the white space that \<^verbatim>\<open>strings.TrimSpace\<close> removes:
  the ASCII blanks and the UTF-8 encodings of the other code points of
  \<^verbatim>\<open>unicode.IsSpace\<close>.
\<close>

definition go_spaces :: "string list" where
  "go_spaces =
     [[CHR 0x09], [CHR 0x0A], [CHR 0x0B], [CHR 0x0C], [CHR 0x0D], [CHR 0x20],
      [CHR 0xC2, CHR 0x85], [CHR 0xC2, CHR 0xA0], [CHR 0xE1, CHR 0x9A, CHR 0x80],
      [CHR 0xE2, CHR 0x80, CHR 0x80], [CHR 0xE2, CHR 0x80, CHR 0x81], [CHR 0xE2, CHR 0x80, CHR 0x82],
      [CHR 0xE2, CHR 0x80, CHR 0x83], [CHR 0xE2, CHR 0x80, CHR 0x84], [CHR 0xE2, CHR 0x80, CHR 0x85],
      [CHR 0xE2, CHR 0x80, CHR 0x86], [CHR 0xE2, CHR 0x80, CHR 0x87], [CHR 0xE2, CHR 0x80, CHR 0x88],
      [CHR 0xE2, CHR 0x80, CHR 0x89], [CHR 0xE2, CHR 0x80, CHR 0x8A], [CHR 0xE2, CHR 0x80, CHR 0xA8],
      [CHR 0xE2, CHR 0x80, CHR 0xA9], [CHR 0xE2, CHR 0x80, CHR 0xAF], [CHR 0xE2, CHR 0x81, CHR 0x9F],
      [CHR 0xE3, CHR 0x80, CHR 0x80]]"

function strip_front :: "string list \<Rightarrow> string \<Rightarrow> string" where
  "strip_front seps s =
     (case find (\<lambda>e. e \<noteq> [] \<and> prefix e s) seps of
        None \<Rightarrow> s
      | Some e \<Rightarrow> strip_front seps (drop (length e) s))"
  by pat_completeness auto
termination
  by (relation "measure (\<lambda>(seps, s). length s)")
    (auto simp: find_Some_iff prefix_def)

declare strip_front.simps [simp del]

definition trim_left :: "string \<Rightarrow> string" where
  "trim_left s = strip_front go_spaces s"

definition trim_right :: "string \<Rightarrow> string" where
  "trim_right s = rev (strip_front (map rev go_spaces) (rev s))"

definition trim_space :: "string \<Rightarrow> string" where
  "trim_space s = trim_right (trim_left s)"

abbreviation blank :: "string \<Rightarrow> bool" where
  "blank s \<equiv> trim_space s = []"

text \<open>Letter case, on ASCII letters: the names compared this way are ASCII identifiers.\<close>

definition to_lower_char :: "char \<Rightarrow> char" where
  "to_lower_char c = (if 65 \<le> (of_char c :: nat) \<and> (of_char c :: nat) \<le> 90
     then char_of ((of_char c :: nat) + 32) else c)"

definition to_lower :: "string \<Rightarrow> string" where
  "to_lower s = map to_lower_char s"

definition equal_fold :: "string \<Rightarrow> string \<Rightarrow> bool" where
  "equal_fold a b \<longleftrightarrow> to_lower a = to_lower b"

text \<open>\<^verbatim>\<open>strings.Split\<close> with a one-byte separator: always at least one piece.\<close>

fun split_on :: "char \<Rightarrow> string \<Rightarrow> string list" where
  "split_on c [] = [[]]"
| "split_on c (x # xs) =
     (if x = c then [] # split_on c xs
      else (case split_on c xs of [] \<Rightarrow> [[x]] | p # ps \<Rightarrow> (x # p) # ps))"

definition is_digit :: "char \<Rightarrow> bool" where
  "is_digit c \<longleftrightarrow> 48 \<le> (of_char c :: nat) \<and> (of_char c :: nat) \<le> 57"

definition digit_value :: "char \<Rightarrow> nat" where
  "digit_value c = of_char c - 48"

definition decimal_value :: "string \<Rightarrow> nat" where
  "decimal_value s = foldl (\<lambda>n c. 10 * n + digit_value c) 0 s"

definition digits_only :: "string \<Rightarrow> bool" where
  "digits_only s \<longleftrightarrow> s \<noteq> [] \<and> list_all is_digit s"

definition digit_char :: "nat \<Rightarrow> char" where
  "digit_char n = char_of (48 + n)"

fun show_nat :: "nat \<Rightarrow> string" where
  "show_nat n = (if n < 10 then [digit_char n] else show_nat (n div 10) @ [digit_char (n mod 10)])"

declare show_nat.simps [simp del]

section \<open>Maps read with a zero value\<close>

text \<open>
  A Go map with string keys is an association list; reading a missing key gives the zero
  value of the element type.
\<close>

definition str_at :: "(string \<times> string) list \<Rightarrow> string \<Rightarrow> string" where
  "str_at m k = (case map_of m k of None \<Rightarrow> [] | Some v \<Rightarrow> v)"

definition flag_at :: "(string \<times> bool) list \<Rightarrow> string \<Rightarrow> bool" where
  "flag_at m k = (case map_of m k of None \<Rightarrow> False | Some v \<Rightarrow> v)"

section \<open>Stable sorting\<close>

text \<open>
  \<^verbatim>\<open>sort.SliceStable(xs, less)\<close>: a stable sort by a comparison function. The
  model inserts from the right, so an element goes before those it does not compare greater
  than; the locale below proves what the library promises for every strict weak order.
\<close>

fun insert_stable :: "('a \<Rightarrow> 'a \<Rightarrow> bool) \<Rightarrow> 'a \<Rightarrow> 'a list \<Rightarrow> 'a list" where
  "insert_stable lt x [] = [x]"
| "insert_stable lt x (y # ys) =
     (if lt y x then y # insert_stable lt x ys else x # y # ys)"

definition slice_stable :: "('a \<Rightarrow> 'a \<Rightarrow> bool) \<Rightarrow> 'a list \<Rightarrow> 'a list" where
  "slice_stable lt xs = foldr (insert_stable lt) xs []"

section \<open>Tables\<close>

text \<open>
  A table is the list of its rows. \<open>update_where\<close> is SQL's \<^verbatim>\<open>UPDATE ... SET ... WHERE\<close>,
  \<open>row_by\<close> reads the row with a key, \<open>max_col\<close> is \<^verbatim>\<open>COALESCE(MAX(col), d)\<close>.
\<close>

definition update_where :: "('r \<Rightarrow> bool) \<Rightarrow> ('r \<Rightarrow> 'r) \<Rightarrow> 'r list \<Rightarrow> 'r list" where
  "update_where p f rs = map (\<lambda>r. if p r then f r else r) rs"

definition row_by :: "('r \<Rightarrow> 'k) \<Rightarrow> 'k \<Rightarrow> 'r list \<Rightarrow> 'r option" where
  "row_by key k rs = find (\<lambda>r. key r = k) rs"

definition max_col :: "int \<Rightarrow> int list \<Rightarrow> int" where
  "max_col d xs = (if xs = [] then d else foldr max (tl xs) (hd xs))"

section \<open>Database transactions\<close>

text \<open>
  A transaction runs numbered statements; \<open>flt k\<close> says that the database refuses
  statement \<open>k\<close> (lost connection, cancelled context, failed commit). A refused statement makes
  the Go code return the wrapped error, and the deferred rollback leaves the database as it
  was: a result \<open>Inl\<close> carries no new state.
\<close>

type_synonym faults = "nat \<Rightarrow> bool"

definition stmt :: "faults \<Rightarrow> nat \<Rightarrow> 'e \<Rightarrow> 'e + 'a \<Rightarrow> 'e + 'a" where
  "stmt flt k e c = (if flt k then Inl e else c)"

definition no_faults :: faults where
  "no_faults k \<longleftrightarrow> False"

text \<open>A transaction on a store: an error rolls it back, a result commits the state it ends in.\<close>

definition tx :: "'d \<Rightarrow> 'e + ('a \<times> 'd) \<Rightarrow> ('e + 'a) \<times> 'd" where
  "tx d body = (case body of Inl e \<Rightarrow> (Inl e, d) | Inr (a, d') \<Rightarrow> (Inr a, d'))"

section \<open>Lemmas: stable sorting\<close>

lemma mset_insert_stable [simp]: "mset (insert_stable lt x ys) = add_mset x (mset ys)"
  by (induction ys) auto

lemma mset_slice_stable [simp]: "mset (slice_stable lt xs) = mset xs"
  by (induction xs) (simp_all add: slice_stable_def)

lemma set_slice_stable [simp]: "set (slice_stable lt xs) = set xs"
  by (metis mset_slice_stable set_mset_mset)

lemma length_slice_stable [simp]: "length (slice_stable lt xs) = length xs"
  by (metis mset_slice_stable size_mset)

lemma slice_stable_Nil [simp]: "slice_stable lt [] = []"
  by (simp add: slice_stable_def)

lemma slice_stable_Cons: "slice_stable lt (x # xs) = insert_stable lt x (slice_stable lt xs)"
  by (simp add: slice_stable_def)

lemma slice_stable_eq_Nil [simp]: "slice_stable lt xs = [] \<longleftrightarrow> xs = []"
  by (metis length_0_conv length_slice_stable)

lemma distinct_slice_stable [simp]:
  "distinct (map f (slice_stable lt xs)) \<longleftrightarrow> distinct (map f xs)"
  by (metis mset_eq_imp_distinct_iff mset_map mset_slice_stable)

text \<open>
  What a comparison function owes \<^verbatim>\<open>sort.SliceStable\<close>: it is a strict weak order. In
  return the result is sorted and keeps the order of equivalent elements.
\<close>

locale slice_order =
  fixes lt :: "'a \<Rightarrow> 'a \<Rightarrow> bool"
  assumes lt_asym: "lt x y \<Longrightarrow> \<not> lt y x"
    and lt_cotrans: "lt x z \<Longrightarrow> lt x y \<or> lt y z"
begin

lemma lt_trans: "lt x y \<Longrightarrow> lt y z \<Longrightarrow> lt x z"
  using lt_asym lt_cotrans by blast

lemma sorted_insert_stable:
  "sorted_wrt (\<lambda>x y. \<not> lt y x) ys \<Longrightarrow> sorted_wrt (\<lambda>x y. \<not> lt y x) (insert_stable lt x ys)"
proof (induction ys)
  case Nil
  then show ?case by simp
next
  case (Cons y ys)
  have set_eq: "set (insert_stable lt x ys) = insert x (set ys)"
    by (metis mset_insert_stable set_mset_add_mset_insert set_mset_mset)
  show ?case
  proof (cases "lt y x")
    case True
    with Cons set_eq show ?thesis by (auto dest: lt_asym)
  next
    case False
    with Cons.prems show ?thesis by (auto dest: lt_cotrans)
  qed
qed

lemma sorted_slice_stable: "sorted_wrt (\<lambda>x y. \<not> lt y x) (slice_stable lt xs)"
  by (induction xs) (simp_all add: slice_stable_Cons sorted_insert_stable)

lemma hd_slice_stable:
  "xs \<noteq> [] \<Longrightarrow> hd (slice_stable lt xs) \<in> set xs \<and> (\<forall>y \<in> set xs. \<not> lt y (hd (slice_stable lt xs)))"
proof -
  assume ne: "xs \<noteq> []"
  then obtain z zs where zs: "slice_stable lt xs = z # zs"
    by (cases "slice_stable lt xs") auto
  have "sorted_wrt (\<lambda>x y. \<not> lt y x) (z # zs)"
    using sorted_slice_stable [of xs] zs by simp
  moreover have "set xs = set (z # zs)"
    using set_slice_stable [of lt xs] zs by simp
  ultimately show ?thesis
    using zs by (auto dest: lt_asym)
qed

lemma filter_insert_stable:
  "sorted_wrt (\<lambda>x y. \<not> lt y x) ys \<Longrightarrow> \<forall>y. P y \<longrightarrow> \<not> lt x y \<and> \<not> lt y x \<Longrightarrow> P x \<Longrightarrow>
   filter P (insert_stable lt x ys) = x # filter P ys"
  by (induction ys) auto

lemma filter_insert_stable_neg:
  "\<not> P x \<Longrightarrow> filter P (insert_stable lt x ys) = filter P ys"
  by (induction ys) auto

lemma slice_stable_stable:
  assumes eqv: "\<And>x y. P x \<Longrightarrow> P y \<Longrightarrow> \<not> lt x y"
  shows "filter P (slice_stable lt xs) = filter P xs"
proof (induction xs)
  case Nil
  then show ?case by simp
next
  case (Cons x xs)
  show ?case
  proof (cases "P x")
    case True
    have "filter P (insert_stable lt x ys) = x # filter P ys" for ys
    proof (induction ys)
      case Nil
      with True show ?case by simp
    next
      case (Cons y ys)
      with True eqv show ?case by auto
    qed
    with True Cons show ?thesis by (simp add: slice_stable_Cons)
  next
    case False
    with Cons show ?thesis by (simp add: slice_stable_Cons filter_insert_stable_neg)
  qed
qed

lemma sorted_perm_unique:
  assumes "sorted_wrt (\<lambda>x y. \<not> lt y x) xs" "sorted_wrt (\<lambda>x y. \<not> lt y x) ys"
    and "mset xs = mset ys"
    and "\<And>x y. x \<in> set xs \<Longrightarrow> y \<in> set xs \<Longrightarrow> x \<noteq> y \<Longrightarrow> lt x y \<or> lt y x"
  shows "xs = ys"
  using assms
proof (induction xs arbitrary: ys)
  case Nil
  then show ?case by simp
next
  case (Cons x xs)
  then obtain y ys' where ys: "ys = y # ys'"
    by (cases ys) auto
  have sets: "set (x # xs) = set (y # ys')"
    using Cons.prems(3) ys by (metis set_mset_mset)
  have "x = y"
  proof (rule ccontr)
    assume "x \<noteq> y"
    with sets have "y \<in> set xs" "x \<in> set ys'" by auto
    with Cons.prems(1,2) ys have "\<not> lt y x" "\<not> lt x y" by auto
    with Cons.prems(4) [of x y] \<open>y \<in> set xs\<close> \<open>x \<noteq> y\<close> show False by auto
  qed
  moreover have "xs = ys'"
    using Cons.prems ys \<open>x = y\<close> by (intro Cons.IH) auto
  ultimately show ?case using ys by simp
qed

lemma slice_stable_perm:
  assumes "mset xs = mset ys"
    and "\<And>x y. x \<in> set xs \<Longrightarrow> y \<in> set xs \<Longrightarrow> x \<noteq> y \<Longrightarrow> lt x y \<or> lt y x"
  shows "slice_stable lt xs = slice_stable lt ys"
  by (rule sorted_perm_unique) (use assms in \<open>auto simp: sorted_slice_stable\<close>)

end

section \<open>Lemmas: tables\<close>

lemma update_where_Nil [simp]: "update_where p f [] = []"
  by (simp add: update_where_def)

lemma update_where_Cons [simp]:
  "update_where p f (r # rs) = (if p r then f r else r) # update_where p f rs"
  by (simp add: update_where_def)

lemma length_update_where [simp]: "length (update_where p f rs) = length rs"
  by (simp add: update_where_def)

lemma map_update_where [table_simps]:
  "(\<And>r. g (f r) = g r) \<Longrightarrow> map g (update_where p f rs) = map g rs"
  by (simp add: update_where_def)

lemma set_update_where:
  "set (update_where p f rs) = (\<lambda>r. if p r then f r else r) ` set rs"
  by (auto simp: update_where_def)

lemma in_update_where:
  "r' \<in> set (update_where p f rs) \<longleftrightarrow>
   (\<exists>r \<in> set rs. r' = (if p r then f r else r))"
  by (auto simp: update_where_def)

lemma row_by_Nil [simp]: "row_by key k [] = None"
  by (simp add: row_by_def)

lemma row_by_Cons [simp]:
  "row_by key k (r # rs) = (if key r = k then Some r else row_by key k rs)"
  by (simp add: row_by_def)

lemma row_by_Some: "row_by key k rs = Some r \<Longrightarrow> r \<in> set rs \<and> key r = k"
  by (auto simp: row_by_def find_Some_iff)

lemma row_by_None: "row_by key k rs = None \<longleftrightarrow> k \<notin> key ` set rs"
  by (auto simp: row_by_def find_None_iff)

lemma row_by_distinct:
  "distinct (map key rs) \<Longrightarrow> r \<in> set rs \<Longrightarrow> row_by key (key r) rs = Some r"
  by (induction rs) auto

lemma row_by_update_where [table_simps]:
  "(\<And>r. key (f r) = key r) \<Longrightarrow>
   row_by key k (update_where p f rs) = map_option (\<lambda>r. if p r then f r else r) (row_by key k rs)"
  by (induction rs) auto

lemma row_by_append [table_simps]:
  "row_by key k (rs @ rs') = (case row_by key k rs of None \<Rightarrow> row_by key k rs' | Some r \<Rightarrow> Some r)"
  by (induction rs) auto

lemma filter_update_where_neg [table_simps]:
  "(\<And>r. p r \<Longrightarrow> \<not> q r) \<Longrightarrow> (\<And>r. p r \<Longrightarrow> \<not> q (f r)) \<Longrightarrow>
   filter q (update_where p f rs) = filter q rs"
  by (induction rs) auto

lemma update_where_none: "(\<And>r. r \<in> set rs \<Longrightarrow> \<not> p r) \<Longrightarrow> update_where p f rs = rs"
  by (induction rs) auto

lemma max_col_ge: "x \<in> set xs \<Longrightarrow> x \<le> max_col d xs"
proof -
  have fm: "a \<le> foldr max ys a \<and> (\<forall>y \<in> set ys. y \<le> foldr max ys a)" for a :: int and ys
    by (induction ys) (auto simp: le_max_iff_disj)
  assume "x \<in> set xs"
  then show ?thesis using fm [of "hd xs" "tl xs"] by (cases xs) (auto simp: max_col_def)
qed

lemma max_col_in: "xs \<noteq> [] \<Longrightarrow> max_col d xs \<in> set xs"
proof -
  have fm: "foldr max ys a \<in> insert a (set ys)" for a :: int and ys
    by (induction ys) (auto simp: max_def)
  assume "xs \<noteq> []"
  then show ?thesis using fm [of "tl xs" "hd xs"] by (cases xs) (auto simp: max_col_def)
qed

lemma max_col_Nil [simp]: "max_col d [] = d"
  by (simp add: max_col_def)

section \<open>Lemmas: searching lists\<close>

lemma find_append: "find P (xs @ ys) = (case find P xs of None \<Rightarrow> find P ys | Some x \<Rightarrow> Some x)"
  by (induction xs) auto

section \<open>Lemmas: transactions\<close>

lemma stmt_Inr [simp]: "stmt flt k e c = Inr x \<longleftrightarrow> \<not> flt k \<and> c = Inr x"
  by (simp add: stmt_def)

lemma tx_Inr [simp]: "tx d body = (Inr a, d') \<longleftrightarrow> body = Inr (a, d')"
  by (auto simp: tx_def split: sum.splits)

lemma tx_snd: "snd (tx d body) = (case body of Inl e \<Rightarrow> d | Inr (a, d') \<Rightarrow> d')"
  by (auto simp: tx_def split: sum.splits)

lemma tx_cases:
  obtains "snd (tx d body) = d" "\<And>a. fst (tx d body) \<noteq> Inr a" "\<exists>e. body = Inl e"
  | a d' where "body = Inr (a, d')" "tx d body = (Inr a, d')"
  by (cases body) (auto simp: tx_def)

lemma stmt_no_faults [simp]: "stmt no_faults k e c = c"
  by (simp add: stmt_def no_faults_def)

section \<open>Lemmas: splitting strings\<close>

lemma split_on_nonempty [simp]: "split_on c s \<noteq> []"
  by (induction s) (auto split: list.splits)

lemma split_on_no_sep: "p \<in> set (split_on c s) \<Longrightarrow> c \<notin> set p"
  by (induction s arbitrary: p) (fastforce split: if_splits list.splits)+

lemma split_on_plain: "c \<notin> set s \<Longrightarrow> split_on c s = [s]"
  by (induction s) auto

lemma split_on_append: "c \<notin> set a \<Longrightarrow> split_on c (a @ c # s) = a # split_on c s"
  by (induction a) auto

section \<open>Lemmas: decimal numbers\<close>

lemma decimal_value_snoc: "decimal_value (s @ [c]) = 10 * decimal_value s + digit_value c"
  by (simp add: decimal_value_def)

lemma decimal_value_bound: "list_all is_digit s \<Longrightarrow> decimal_value s < 10 ^ length s"
proof (induction s rule: rev_induct)
  case (snoc c s)
  have "digit_value c < 10" using snoc.prems by (auto simp: is_digit_def digit_value_def)
  then show ?case using snoc by (simp add: decimal_value_def)
qed (simp add: decimal_value_def)

lemma digit_char_value: "n < 10 \<Longrightarrow> digit_value (digit_char n) = n \<and> is_digit (digit_char n)"
proof -
  assume "n < 10"
  then have "n \<in> {0, 1, 2, 3, 4, 5, 6, 7, 8, 9}" by auto
  then show ?thesis by (auto simp: digit_char_def digit_value_def is_digit_def)
qed

lemma show_nat_facts: "decimal_value (show_nat n) = n \<and> digits_only (show_nat n)"
proof (induction n rule: show_nat.induct)
  case (1 n)
  show ?case
  proof (cases "n < 10")
    case True
    then show ?thesis
      using digit_char_value [of n]
      by (simp add: show_nat.simps [of n] decimal_value_def digits_only_def)
  next
    case False
    have "n mod 10 < 10" by simp
    with False "1" show ?thesis
      using digit_char_value [of "n mod 10"]
      by (auto simp: show_nat.simps [of n] decimal_value_snoc digits_only_def)
  qed
qed

end
