(* ===== verification/Task_Model.thy ===== *)
theory Task_Model
  imports Go_Prelude
begin

text \<open>
  The data of the task and scheduler packages: run states and triggers
  (\<^verbatim>\<open>internal/task/model.go\<close>), the messages of the agent protocol that runs
  depend on (\<^verbatim>\<open>internal/agentprotocol\<close>), and the rows of the database tables that
  the scheduler, the dispatcher and the agents' event handlers share. The database is one
  record of tables; every store operation of the later theories is a transaction on it.

  Column values that are nullable are \<open>option\<close>s. The fixed Chinese texts of the source are
  the constructors of \<open>message\<close>; text that comes from outside is \<open>Text\<close>.
\<close>

section \<open>Run states\<close>

datatype run_state = Queued | Scheduling | Assigned | Syncing | Running | Succeeded | Failed
  | TimedOut | Cancelled | Expired | Unknown

fun Terminal :: "run_state \<Rightarrow> bool" where
  "Terminal Succeeded = True"
| "Terminal Failed = True"
| "Terminal TimedOut = True"
| "Terminal Cancelled = True"
| "Terminal Expired = True"
| "Terminal _ = False"

datatype trigger_type = TriggerUnset | TriggerManual | TriggerSchedule | TriggerRetry
  | TriggerOther string

datatype version_policy = VersionUnset | VersionLatest | VersionPinned | VersionOther string

datatype sync_state = SyncNone | SyncPending | SyncDownloading | SyncReady | SyncFailed | SyncDrifted

datatype server_status = StatusPending | StatusOnline | StatusOffline | StatusDraining
  | StatusQuarantined

section \<open>Values\<close>

datatype json = JNull | JBool bool | JNum string | JStr string | JArr "json list"
  | JObj "(string \<times> json) list"

type_synonym labels = "(string \<times> string) list"
type_synonym params = "(string \<times> json) list"

datatype message =
    Text string
  | MsgQueueTimeout | MsgRunQueued | MsgRetryQueued | MsgQueuedCancelled | MsgDisabledCancelled
  | MsgCancelRequested | MsgServerLost | MsgReconciled | MsgProcessAbsent
  | MsgWaitConcurrency | MsgWaitServer | MsgWaitArtifactAgent
  | MsgSyncFailed | MsgChecksumMismatch | MsgNotReady | MsgInvalidPayload | MsgSecretUnavailable
  | MsgTransientDispatch | MsgArtifactsUnsupported | MsgArtifactPolicyInvalid

record resources =
  cpu_millicores :: int
  memory_bytes :: int
  disk_bytes :: int

record retry_policy =
  max_retries :: int
  backoff_seconds :: int

record usage =
  cpu_time_millis :: "int option"
  usage_memory :: "int option"
  peak_memory :: "int option"
  processes :: "int option"
  sampled_at :: time

text \<open>\<^verbatim>\<open>ResourceUsage.Valid\<close>: a nil usage, a zero sample time, a negative value and an
  empty sample are invalid.\<close>

definition usage_values :: "usage \<Rightarrow> int option list" where
  "usage_values u = [cpu_time_millis u, usage_memory u, peak_memory u, processes u]"

fun usage_valid :: "usage option \<Rightarrow> bool" where
  "usage_valid None = False"
| "usage_valid (Some u) =
     (\<not> is_zero_time (sampled_at u) \<and>
      list_all (\<lambda>v. case v of None \<Rightarrow> True | Some x \<Rightarrow> 0 \<le> x) (usage_values u) \<and>
      list_ex (\<lambda>v. v \<noteq> None) (usage_values u))"

fun usage_equal :: "usage option \<Rightarrow> usage option \<Rightarrow> bool" where
  "usage_equal None None = True"
| "usage_equal (Some u) (Some v) =
     (sampled_at u = sampled_at v \<and> usage_values u = usage_values v)"
| "usage_equal _ _ = False"

section \<open>The run as the scheduler sees it\<close>

record run =
  requires_artifacts :: bool
  run_id :: ident
  definition_id :: ident
  script_version_id :: ident
  trigger_kind :: trigger_type
  run_state_of :: run_state
  parameters :: params
  required_labels :: labels
  required_runtime :: string
  priority :: int
  run_resources :: resources
  max_concurrency :: int
  timeout_seconds :: int
  max_wait_seconds :: int
  retry_policy_of :: retry_policy
  idempotent :: bool
  scheduled_for :: "time option"
  queued_at :: time
  created_at :: time

section \<open>Agent messages about runs\<close>

record run_event =
  ev_usage :: "usage option"
  ev_run :: ident
  ev_token :: string
  ev_sequence :: nat
  ev_type :: string
  ev_occurred :: time
  ev_exit_code :: int
  ev_message :: message

record running_process =
  rp_usage :: "usage option"
  rp_run :: ident
  rp_token :: string

record running_report =
  rr_server :: ident
  rr_reported :: time
  rr_authoritative :: bool
  rr_processes :: "running_process list"

section \<open>Database rows\<close>

text \<open>\<^verbatim>\<open>task_runs\<close>: the snapshot of the definition a run was created with, and the columns
  that the state machine changes.\<close>

record run_spec =
  sp_params :: params
  sp_labels :: labels
  sp_runtime :: string
  sp_priority :: int
  sp_resources :: resources
  sp_max_concurrency :: int
  sp_timeout :: int
  sp_max_wait :: int
  sp_max_retries :: int
  sp_backoff :: int
  sp_idempotent :: bool

record run_row =
  tr_id :: ident
  tr_def :: ident
  tr_version :: ident
  tr_spec :: run_spec
  tr_requested_by :: "ident option"
  tr_trigger :: trigger_type
  tr_state :: run_state
  tr_server :: "ident option"
  tr_token :: "string option"
  tr_gone :: bool
  tr_scheduled_for :: "time option"
  tr_queued_at :: time
  tr_assigned_at :: "time option"
  tr_started_at :: "time option"
  tr_finished_at :: "time option"
  tr_exit_code :: "int option"
  tr_attempt :: int
  tr_retry_of :: "ident option"
  tr_summary :: message
  tr_dispatch_attempts :: int
  tr_last_dispatch :: "time option"
  tr_dispatch_error :: message
  tr_created_at :: time
  tr_updated_at :: time

text \<open>\<^verbatim>\<open>run_events\<close>, with the JSON payload's keys as optional fields.\<close>

record payload =
  pl_message :: "message option"
  pl_exit_code :: "int option"
  pl_usage :: "usage option"
  pl_auto_retry :: bool
  pl_secret_refs :: "labels option"
  pl_retry_of :: "ident option"
  pl_server :: "ident option"
  pl_lease :: "ident option"

record event_row =
  er_run :: ident
  er_seq :: int
  er_type :: string
  er_state :: run_state
  er_payload :: payload
  er_at :: time
  er_token :: "string option"
  er_agent_seq :: "nat option"

record lease_row =
  lr_id :: ident
  lr_run :: ident
  lr_server :: ident
  lr_resources :: resources
  lr_expires :: time
  lr_created :: time
  lr_released :: "time option"

record sync_row =
  sy_server :: ident
  sy_version :: ident
  sy_status :: sync_state
  sy_sha :: "string option"
  sy_created :: time
  sy_updated :: time

text \<open>The parts of a version's manifest that runs depend on: the artifact policy and the parameter
  definitions.\<close>

record artifact_policy =
  ap_globs :: "string list"
  ap_max_file :: int
  ap_max_total :: int

record param_def =
  pd_name :: string
  pd_type :: string
  pd_required :: bool

record script_row =
  sr_id :: ident
  sr_runtime :: string

record version_row =
  vr_id :: ident
  vr_script :: ident
  vr_number :: int
  vr_sha :: string
  vr_entrypoint :: string
  vr_artifacts :: "artifact_policy option"
  vr_params :: "param_def list"

record def_row =
  df_id :: ident
  df_name :: string
  df_description :: string
  df_script :: ident
  df_policy :: version_policy
  df_pinned :: "ident option"
  df_enabled :: bool
  df_secret_refs :: labels
  df_spec :: run_spec
  df_created_by :: "ident option"
  df_created_at :: time
  df_updated_at :: time

record server_row =
  sv_id :: ident
  sv_status :: server_status
  sv_enabled :: bool
  sv_drain :: bool
  sv_labels :: labels
  sv_runtimes :: "string list"
  sv_capabilities :: "string list"
  sv_max_concurrency :: int
  sv_weight :: int

record snapshot_row =
  ss_server :: ident
  ss_collected :: time
  ss_cpu_total :: int
  ss_cpu_used :: int
  ss_mem_total :: int
  ss_mem_avail :: int
  ss_disk_total :: int
  ss_disk_avail :: int
  ss_running :: int

record schedule_row =
  sc_id :: ident
  sc_def :: ident
  sc_cron :: string
  sc_timezone :: string
  sc_enabled :: bool
  sc_next :: "time option"
  sc_created_at :: time
  sc_updated_at :: time

record db =
  db_runs :: "run_row list"
  db_events :: "event_row list"
  db_leases :: "lease_row list"
  db_syncs :: "sync_row list"
  db_scripts :: "script_row list"
  db_versions :: "version_row list"
  db_defs :: "def_row list"
  db_servers :: "server_row list"
  db_snapshots :: "snapshot_row list"
  db_schedules :: "schedule_row list"

section \<open>Reading and writing the tables\<close>

definition run_row_of :: "db \<Rightarrow> ident \<Rightarrow> run_row option" where
  "run_row_of d rid = row_by tr_id rid (db_runs d)"

definition set_runs :: "(run_row \<Rightarrow> bool) \<Rightarrow> (run_row \<Rightarrow> run_row) \<Rightarrow> db \<Rightarrow> db" where
  "set_runs p f d = d\<lparr>db_runs := update_where p f (db_runs d)\<rparr>"

definition empty_payload :: payload where
  "empty_payload = \<lparr>pl_message = None, pl_exit_code = None, pl_usage = None, pl_auto_retry = False,
     pl_secret_refs = None, pl_retry_of = None, pl_server = None, pl_lease = None\<rparr>"

definition message_payload :: "message \<Rightarrow> payload" where
  "message_payload m = empty_payload\<lparr>pl_message := Some m\<rparr>"

text \<open>\<^verbatim>\<open>COALESCE(MAX(sequence),-1)+1\<close> over the events of a run.\<close>

definition next_seq :: "db \<Rightarrow> ident \<Rightarrow> int" where
  "next_seq d rid = max_col (-1) (map er_seq (filter (\<lambda>e. er_run e = rid) (db_events d))) + 1"

definition append_event ::
  "ident \<Rightarrow> string \<Rightarrow> run_state \<Rightarrow> payload \<Rightarrow> time \<Rightarrow> db \<Rightarrow> db" where
  "append_event rid ty st pl at d = d\<lparr>db_events := db_events d @
     [\<lparr>er_run = rid, er_seq = next_seq d rid, er_type = ty, er_state = st, er_payload = pl,
       er_at = at, er_token = None, er_agent_seq = None\<rparr>]\<rparr>"

definition release_leases :: "ident \<Rightarrow> time \<Rightarrow> db \<Rightarrow> db" where
  "release_leases rid at d = d\<lparr>db_leases :=
     update_where (\<lambda>l. lr_run l = rid \<and> lr_released l = None) (\<lambda>l. l\<lparr>lr_released := Some at\<rparr>)
       (db_leases d)\<rparr>"

abbreviation active_state :: "run_state \<Rightarrow> bool" where
  "active_state s \<equiv> s \<in> {Assigned, Syncing, Running}"

definition active_count :: "db \<Rightarrow> ident \<Rightarrow> nat" where
  "active_count d did = length (filter (\<lambda>r. tr_def r = did \<and> active_state (tr_state r)) (db_runs d))"

end
