(* ===== verification/Sched_Queue.thy ===== *)
theory Sched_Queue
  imports Sched_Policy "HOL-Library.AList"
begin

text \<open>
  The in-memory queue of waiting runs (\<^verbatim>\<open>internal/scheduler/queue.go\<close>): a Go map from
  run identifiers to runs. The map is an association list in the order one iteration of
  \<^verbatim>\<open>range\<close> would produce; Go leaves that order open, and the lemmas show that no result
  depends on it. The locale \<open>waiting_runs\<close> is the contract the scheduler relies on, interpreted
  on the queue's operations.
\<close>

section \<open>The queue\<close>

type_synonym queue = "(ident \<times> run) list"

definition NewQueue :: queue where
  "NewQueue = []"

definition Push :: "run \<Rightarrow> queue \<Rightarrow> queue" where
  "Push r q = (if run_id r = [] then q else AList.update (run_id r) r q)"

definition run_less :: "run \<Rightarrow> run \<Rightarrow> bool" where
  "run_less a b =
     (if priority a \<noteq> priority b then priority a > priority b
      else if queued_at a \<noteq> queued_at b then queued_at a < queued_at b
      else run_id a < run_id b)"

definition sortRuns :: "run list \<Rightarrow> run list" where
  "sortRuns rs = slice_stable run_less rs"

definition Pop :: "queue \<Rightarrow> (run \<times> queue) option" where
  "Pop q = (if q = [] then None
     else (let selected = hd (sortRuns (map snd q))
           in Some (selected, AList.delete (run_id selected) q)))"

definition Remove :: "ident \<Rightarrow> queue \<Rightarrow> queue" where
  "Remove rid q = AList.delete rid q"

definition Len :: "queue \<Rightarrow> nat" where
  "Len q = length q"

section \<open>Invariant\<close>

definition queue_inv :: "queue \<Rightarrow> bool" where
  "queue_inv q \<longleftrightarrow> distinct (map fst q) \<and> (\<forall>(k, r) \<in> set q. k = run_id r \<and> k \<noteq> [])"

lemma queue_inv_New [simp]: "queue_inv NewQueue"
  by (simp add: queue_inv_def NewQueue_def)

lemma queue_inv_view: "queue_inv q \<Longrightarrow> map_of q k = Some r \<Longrightarrow> run_id r = k \<and> k \<noteq> []"
  by (auto simp: queue_inv_def dest!: map_of_SomeD)

lemma set_alist_update: "p \<in> set (AList.update k v al) \<Longrightarrow> p = (k, v) \<or> p \<in> set al"
  by (induction al) (auto split: if_splits)

lemma queue_inv_Push [simp]: "queue_inv q \<Longrightarrow> queue_inv (Push r q)"
  by (auto simp: queue_inv_def Push_def distinct_update dest!: set_alist_update)

lemma queue_inv_delete [simp]: "queue_inv q \<Longrightarrow> queue_inv (AList.delete k q)"
  by (auto simp: queue_inv_def distinct_delete) (auto simp: AList.delete_eq)

interpretation run_order: slice_order run_less
proof
  show "run_less x y \<Longrightarrow> \<not> run_less y x" for x y
    by (auto simp: run_less_def split: if_splits)
  show "run_less x z \<Longrightarrow> run_less x y \<or> run_less y z" for x y z
    by (auto simp: run_less_def split: if_splits)
qed

lemma run_less_total: "run_id a \<noteq> run_id b \<Longrightarrow> run_less a b \<or> run_less b a"
  by (auto simp: run_less_def)

lemma queue_inv_mapD: "queue_inv q \<Longrightarrow> r \<in> set (map snd q) \<Longrightarrow> map_of q (run_id r) = Some r"
  by (auto simp: queue_inv_def)

lemma queue_inv_total:
  "queue_inv q \<Longrightarrow> x \<in> set (map snd q) \<Longrightarrow> y \<in> set (map snd q) \<Longrightarrow> x \<noteq> y \<Longrightarrow>
   run_less x y \<or> run_less y x"
  using queue_inv_mapD run_less_total by (metis option.inject)

lemma Pop_selected:
  assumes "queue_inv q" "Pop q = Some (r, q')"
  shows "map_of q (run_id r) = Some r" "q' = AList.delete (run_id r) q"
    "map_of q k = Some r2 \<Longrightarrow> \<not> run_less r2 r"
proof -
  have ne: "map snd q \<noteq> []" and r: "r = hd (sortRuns (map snd q))"
    and q': "q' = AList.delete (run_id r) q"
    using assms(2) by (auto simp: Pop_def Let_def split: if_splits)
  note best = run_order.hd_slice_stable [OF ne, folded sortRuns_def, folded r]
  show "q' = AList.delete (run_id r) q" by (rule q')
  show "map_of q (run_id r) = Some r"
    using queue_inv_mapD [OF assms(1)] best by blast
  show "map_of q k = Some r2 \<Longrightarrow> \<not> run_less r2 r"
    using best by (force dest: map_of_SomeD)
qed

section \<open>The contract of a queue of waiting runs\<close>

locale waiting_runs =
  fixes new_q :: 'q
    and push :: "run \<Rightarrow> 'q \<Rightarrow> 'q"
    and pop :: "'q \<Rightarrow> (run \<times> 'q) option"
    and remove :: "ident \<Rightarrow> 'q \<Rightarrow> 'q"
    and len :: "'q \<Rightarrow> nat"
    and view :: "'q \<Rightarrow> ident \<Rightarrow> run option"
    and invar :: "'q \<Rightarrow> bool"
  assumes invar_new: "invar new_q"
    and invar_push: "invar q \<Longrightarrow> invar (push r q)"
    and invar_remove: "invar q \<Longrightarrow> invar (remove k q)"
    and invar_pop: "invar q \<Longrightarrow> pop q = Some (r, q') \<Longrightarrow> invar q'"
    and view_new: "view new_q = Map.empty"
    and view_id: "invar q \<Longrightarrow> view q k = Some r \<Longrightarrow> run_id r = k \<and> k \<noteq> []"
    and view_push: "invar q \<Longrightarrow> view (push r q) = (if run_id r = [] then view q else (view q)(run_id r \<mapsto> r))"
    and view_remove: "invar q \<Longrightarrow> view (remove k q) = (view q)(k := None)"
    and pop_None: "invar q \<Longrightarrow> pop q = None \<longleftrightarrow> view q = Map.empty"
    and pop_view: "invar q \<Longrightarrow> pop q = Some (r, q') \<Longrightarrow>
          view q (run_id r) = Some r \<and> view q' = (view q)(run_id r := None)"
    and pop_best: "invar q \<Longrightarrow> pop q = Some (r, q') \<Longrightarrow> view q k = Some r2 \<Longrightarrow> \<not> run_less r2 r"
    and len_view: "invar q \<Longrightarrow> len q = card (dom (view q))"
    and finite_view: "invar q \<Longrightarrow> finite (dom (view q))"
begin

lemma pop_unique:
  assumes "invar q" "view q (run_id r) = Some r"
    and "\<And>k r2. view q k = Some r2 \<Longrightarrow> \<not> run_less r2 r"
  shows "\<exists>q'. pop q = Some (r, q')"
proof -
  have "pop q \<noteq> None" using assms(1,2) pop_None by auto
  then obtain s q' where s: "pop q = Some (s, q')" by auto
  have vs: "view q (run_id s) = Some s" using pop_view [OF assms(1) s] by simp
  have "\<not> run_less s r" by (rule assms(3) [OF vs])
  moreover have "\<not> run_less r s" by (rule pop_best [OF assms(1) s assms(2)])
  ultimately have eq: "run_id s = run_id r" using run_less_total [of s r] by blast
  have "Some s = Some r" using vs assms(2) unfolding eq by (rule subst)
  with s show ?thesis by blast
qed

lemma pop_push_pop:
  assumes inv: "invar q" and p: "pop q = Some (r, q')"
  shows "\<exists>q''. pop (push r q') = Some (r, q'') \<and> view q'' = view q'"
proof -
  have v: "view q (run_id r) = Some r" "view q' = (view q)(run_id r := None)"
    using pop_view [OF inv p] by auto
  have inv': "invar (push r q')" using inv p invar_pop invar_push by blast
  have vp: "view (push r q') = view q"
    using v view_id [OF inv v(1)] view_push [of q' r] invar_pop [OF inv p] by auto
  obtain q'' where "pop (push r q') = Some (r, q'')"
    using pop_unique [OF inv', of r] vp v pop_best [OF inv p] by auto
  with pop_view [OF inv' this] vp v show ?thesis by auto
qed

lemma len_pop:
  assumes "invar q" "pop q = Some (r, q')"
  shows "len q = Suc (len q')"
proof -
  have v: "view q (run_id r) = Some r" "view q' = (view q)(run_id r := None)"
    using pop_view [OF assms] by auto
  have d: "dom (view q) = insert (run_id r) (dom (view q'))" "run_id r \<notin> dom (view q')"
    using v(1) unfolding v(2) by auto
  have fin: "finite (dom (view q'))" by (rule finite_view [OF invar_pop [OF assms]])
  show ?thesis
    unfolding len_view [OF assms(1)] len_view [OF invar_pop [OF assms]] d(1)
    by (rule card_insert_disjoint [OF fin d(2)])
qed

lemma pop_two_ordered:
  assumes "invar q" "pop q = Some (r, q')" "pop q' = Some (s, q'')"
  shows "run_less r s" "run_id s \<noteq> run_id r"
proof -
  have v: "view q' (run_id s) = Some s" "view q' = (view q)(run_id r := None)"
    using pop_view [OF invar_pop [OF assms(1,2)] assms(3)] pop_view [OF assms(1,2)] by blast+
  have ne: "run_id s \<noteq> run_id r" using v by (cases "run_id s = run_id r") simp_all
  have "view q (run_id s) = Some s" using v ne by simp
  then have "\<not> run_less s r" by (rule pop_best [OF assms(1,2)])
  with ne show "run_less r s" using run_less_total [of r s] by metis
  show "run_id s \<noteq> run_id r" by (rule ne)
qed

end

interpretation wq: waiting_runs NewQueue Push Pop Remove Len map_of queue_inv
proof
  show "queue_inv NewQueue" by simp
  show "queue_inv (Push r q)" if "queue_inv q" for q r using that by simp
  show "queue_inv (Remove k q)" if "queue_inv q" for q k using that by (simp add: Remove_def)
  show "queue_inv q'" if "queue_inv q" "Pop q = Some (r, q')" for q r q'
    using that(1) Pop_selected(2) [OF that] by simp
  show "map_of NewQueue = Map.empty" by (simp add: NewQueue_def)
  show "run_id r = k \<and> k \<noteq> []" if "queue_inv q" "map_of q k = Some r" for q k r
    using that by (rule queue_inv_view)
  show "map_of (Push r q) = (if run_id r = [] then map_of q else (map_of q)(run_id r \<mapsto> r))"
    if "queue_inv q" for q r
    by (simp add: Push_def update_conv')
  show "map_of (Remove k q) = (map_of q)(k := None)" if "queue_inv q" for q k
    by (simp add: Remove_def delete_conv')
  show "Pop q = None \<longleftrightarrow> map_of q = Map.empty" if "queue_inv q" for q
    by (simp add: Pop_def Let_def)
  show "map_of q (run_id r) = Some r \<and> map_of q' = (map_of q)(run_id r := None)"
    if "queue_inv q" "Pop q = Some (r, q')" for q r q'
    using Pop_selected [OF that] by (simp add: delete_conv')
  show "\<not> run_less r2 r" if "queue_inv q" "Pop q = Some (r, q')" "map_of q k = Some r2" for q r q' k r2
    using Pop_selected(3) [OF that(1,2)] that(3) by blast
  show "Len q = card (dom (map_of q))" if "queue_inv q" for q
    using that by (simp add: Len_def queue_inv_def dom_map_of_conv_image_fst)
      (metis distinct_card length_map list.set_map)
  show "finite (dom (map_of q))" if "queue_inv q" for q
    by (simp add: finite_dom_map_of)
qed

section \<open>Properties\<close>

text \<open>Whatever order Go iterates its map in, the queue pops the same run: two queues with the
  same entries in different orders select the same run and keep the same remaining entries.\<close>

lemma pop_iteration_order:
  assumes "queue_inv q" "mset q = mset p"
  shows "map_option (\<lambda>(r, q'). (r, mset q')) (Pop q) = map_option (\<lambda>(r, p'). (r, mset p')) (Pop p)"
proof (cases "q = []")
  case True
  with assms show ?thesis by (simp add: Pop_def)
next
  case False
  with assms(2) have ne: "p \<noteq> []" by auto
  have m: "mset (map snd q) = mset (map snd p)" using assms(2) by simp
  have eq: "sortRuns (map snd q) = sortRuns (map snd p)"
    unfolding sortRuns_def
    by (rule run_order.slice_stable_perm [OF m]) (rule queue_inv_total [OF assms(1)])
  have del: "mset (AList.delete k q) = mset (AList.delete k p)" for k
    using assms(2) by (simp add: AList.delete_eq)
  show ?thesis by (simp add: Pop_def Let_def False ne eq del)
qed

lemma pop_iteration_order_witness:
  "map_option (\<lambda>(r, q'). (run_id r, mset (map fst q')))
     (Pop [(''r1'', sample_run), (''r2'', sample_run\<lparr>run_id := ''r2'', priority := 90\<rparr>)]) =
   Some (''r2'', {#''r1''#})"
proof -
  let ?a = "(''r1'', sample_run)" and ?b = "(''r2'', sample_run\<lparr>run_id := ''r2'', priority := 90\<rparr>)"
  have inv: "queue_inv [?a, ?b]" by (simp add: queue_inv_def sample_run_def)
  have eq: "map_option (\<lambda>(r, q'). (r, mset q')) (Pop [?a, ?b]) =
      map_option (\<lambda>(r, q'). (r, mset q')) (Pop [?b, ?a])"
    by (rule pop_iteration_order [OF inv]) (simp add: add_mset_commute)
  have "Pop [?b, ?a] = Some (snd ?b, [?a])"
    by (simp add: Pop_def Let_def sortRuns_def slice_stable_def run_less_def sample_run_def)
  then obtain q' where q': "Pop [?a, ?b] = Some (snd ?b, q')" "mset q' = {#?a#}"
    using eq by (auto simp only: option.map prod.case map_option_eq_Some mset.simps prod.inject)
  have "mset (map fst q') = {#''r1''#}" using q'(2) by (simp only: mset_map) simp
  then show ?thesis by (simp only: q'(1) option.map prod.case snd_conv) simp
qed

text \<open>C4. The queue pops the waiting run with the highest priority, the earliest queue time among
  those, and the least identifier among those; exactly that run leaves the queue.\<close>

theorem pop_highest_priority:
  assumes "queue_inv q" "Pop q = Some (r, q')"
  shows "map_of q (run_id r) = Some r \<and> map_of q' = (map_of q)(run_id r := None) \<and>
    (\<forall>k s. map_of q k = Some s \<longrightarrow> priority s < priority r \<or>
       priority s = priority r \<and> (queued_at r < queued_at s \<or>
         queued_at r = queued_at s \<and> run_id r \<le> run_id s))"
proof -
  have "priority s < priority r \<or> priority s = priority r \<and>
      (queued_at r < queued_at s \<or> queued_at r = queued_at s \<and> run_id r \<le> run_id s)"
    if "map_of q k = Some s" for k s
    using wq.pop_best [OF assms that] by (auto simp: run_less_def not_less split: if_splits)
  then show ?thesis using wq.pop_view [OF assms] by blast
qed

theorem pop_highest_priority_witness:
  "\<exists>q'. Pop [(''r1'', sample_run), (''r2'', sample_run\<lparr>run_id := ''r2'', priority := 90\<rparr>)] =
     Some (sample_run\<lparr>run_id := ''r2'', priority := 90\<rparr>, q') \<and> map_of q' ''r2'' = None \<and>
     map_of q' ''r1'' = Some sample_run"
proof -
  let ?b = "sample_run\<lparr>run_id := ''r2'', priority := 90\<rparr>"
  let ?q = "[(''r1'', sample_run), (''r2'', ?b)]"
  have inv: "queue_inv ?q" by (simp add: queue_inv_def sample_run_def)
  have p: "Pop ?q = Some (?b, [(''r1'', sample_run)])"
    by (simp add: Pop_def Let_def sortRuns_def slice_stable_def run_less_def sample_run_def)
  show ?thesis using pop_highest_priority [OF inv p] p by simp
qed

end
