(* ===== verification/Redis_Lease.thy ===== *)
theory Redis_Lease
  imports Task_Model "HOL-Library.AList"
begin

text \<open>
  The resource leases kept in Redis (\<^verbatim>\<open>internal/store/redis/lease.go\<close>). The four keys of a
  server are one record: the reserved totals, the packed amounts per run, the expirations per run
  and the lease identifiers per run; each Lua script is a function on that record, since Redis runs
  a script atomically. Amounts are stored as the text \<^verbatim>\<open>cpu:memory:disk\<close> and read back by
  the Lua pattern, as the scripts do. Lua's numbers are doubles, exact for the amounts below
  \<open>2^53\<close> that leases hold.

  The lemmas show that the totals are always the sum of the held amounts, that a reservation never
  exceeds what the caller offered, that restoring is idempotent, and that a release undoes a
  reservation. The locale \<open>lease_book\<close> is the contract the scheduler relies on.
\<close>

section \<open>Requests and leases\<close>

record lease_request =
  lq_run :: ident
  lq_server :: ident
  lq_available :: resources
  lq_required :: resources
  lq_now :: time
  lq_ttl :: duration

record lease =
  ls_id :: ident
  ls_run :: ident
  ls_server :: ident
  ls_resources :: resources
  ls_expires :: time

datatype lease_error = ErrInvalidLeaseRequest | ErrRedis

text \<open>A script call either runs and answers, is refused before it runs, or runs and loses its
  answer.\<close>

datatype eval_outcome = EvalOk | EvalRefused | EvalReplyLost

section \<open>Packed amounts\<close>

definition show_int :: "int \<Rightarrow> string" where
  "show_int x = (if x < 0 then CHR ''-'' # show_nat (nat (- x)) else show_nat (nat x))"

definition pack :: "resources \<Rightarrow> string" where
  "pack r = show_int (cpu_millicores r) @ CHR '':'' # show_int (memory_bytes r) @
     CHR '':'' # show_int (disk_bytes r)"

text \<open>\<^verbatim>\<open>string.match(packed, '^(%d+):(%d+):(%d+)$')\<close>.\<close>

definition match_packed :: "string \<Rightarrow> resources option" where
  "match_packed s = (case split_on CHR '':'' s of
     [a, b, c] \<Rightarrow>
       if digits_only a \<and> digits_only b \<and> digits_only c
       then Some \<lparr>cpu_millicores = int (decimal_value a), memory_bytes = int (decimal_value b),
                  disk_bytes = int (decimal_value c)\<rparr>
       else None
   | _ \<Rightarrow> None)"

section \<open>State\<close>

definition no_resources :: resources where
  "no_resources = \<lparr>cpu_millicores = 0, memory_bytes = 0, disk_bytes = 0\<rparr>"

definition add_resources :: "resources \<Rightarrow> resources \<Rightarrow> resources" where
  "add_resources a b = \<lparr>cpu_millicores = cpu_millicores a + cpu_millicores b,
     memory_bytes = memory_bytes a + memory_bytes b, disk_bytes = disk_bytes a + disk_bytes b\<rparr>"

definition sub_resources :: "resources \<Rightarrow> resources \<Rightarrow> resources" where
  "sub_resources a b = \<lparr>cpu_millicores = cpu_millicores a - cpu_millicores b,
     memory_bytes = memory_bytes a - memory_bytes b, disk_bytes = disk_bytes a - disk_bytes b\<rparr>"

record lease_keys =
  reserved :: resources
  amounts :: "(ident \<times> string) list"
  expirations :: "(ident \<times> int) list"
  lease_ids :: "(ident \<times> (ident \<times> int)) list"

definition empty_keys :: lease_keys where
  "empty_keys = \<lparr>reserved = no_resources, amounts = [], expirations = [], lease_ids = []\<rparr>"

type_synonym redis = "ident \<Rightarrow> lease_keys"

section \<open>The scripts\<close>

text \<open>The body shared by the expiry loop and the release script: subtract the packed amounts when
  they parse, drop the amounts, drop the expiration.\<close>

definition forget_run :: "ident \<Rightarrow> lease_keys \<Rightarrow> lease_keys" where
  "forget_run rid s =
     (let s1 = (case map_of (amounts s) rid of
                  None \<Rightarrow> s
                | Some packed \<Rightarrow>
                    (case match_packed packed of
                       Some r \<Rightarrow> s\<lparr>reserved := sub_resources (reserved s) r,
                                     amounts := AList.delete rid (amounts s)\<rparr>
                     | None \<Rightarrow> s\<lparr>amounts := AList.delete rid (amounts s)\<rparr>))
      in s1\<lparr>expirations := AList.delete rid (expirations s1)\<rparr>)"

definition expired_runs :: "int \<Rightarrow> lease_keys \<Rightarrow> ident list" where
  "expired_runs now s = map fst (filter (\<lambda>(rid, at). at \<le> now) (expirations s))"

definition purge :: "int \<Rightarrow> lease_keys \<Rightarrow> lease_keys" where
  "purge now s = fold forget_run (expired_runs now s) s"

definition reserveScript ::
  "int \<Rightarrow> ident \<Rightarrow> resources \<Rightarrow> resources \<Rightarrow> int \<Rightarrow> ident \<Rightarrow> int \<Rightarrow> lease_keys \<Rightarrow> int \<times> lease_keys" where
  "reserveScript now rid req avail expires lease_id ttl s0 =
     (let s = purge now s0 in
      if map_of (amounts s) rid \<noteq> None then (0, s)
      else if cpu_millicores req > cpu_millicores avail - cpu_millicores (reserved s)
        \<or> memory_bytes req > memory_bytes avail - memory_bytes (reserved s)
        \<or> disk_bytes req > disk_bytes avail - disk_bytes (reserved s) then (0, s)
      else (1, s\<lparr>reserved := add_resources (reserved s) req,
                  amounts := AList.update rid (pack req) (amounts s),
                  expirations := AList.update rid expires (expirations s),
                  lease_ids := AList.update rid (lease_id, ttl) (lease_ids s)\<rparr>))"

definition releaseScript :: "ident \<Rightarrow> lease_keys \<Rightarrow> lease_keys" where
  "releaseScript rid s =
     (let s1 = forget_run rid s in s1\<lparr>lease_ids := AList.delete rid (lease_ids s1)\<rparr>)"

definition restoreScript ::
  "ident \<Rightarrow> resources \<Rightarrow> int \<Rightarrow> ident \<Rightarrow> int \<Rightarrow> lease_keys \<Rightarrow> lease_keys option" where
  "restoreScript rid res expires lease_id ttl s =
     map_option
       (\<lambda>s1. s1\<lparr>amounts := AList.update rid (pack res) (amounts s1),
                expirations := AList.update rid expires (expirations s1),
                lease_ids := AList.update rid (lease_id, ttl) (lease_ids s1)\<rparr>)
       (case map_of (amounts s) rid of
          None \<Rightarrow> Some (s\<lparr>reserved := add_resources (reserved s) res\<rparr>)
        | Some packed \<Rightarrow>
            (case match_packed packed of
               None \<Rightarrow> None
             | Some old \<Rightarrow> Some (s\<lparr>reserved := add_resources (reserved s) (sub_resources res old)\<rparr>)))"

section \<open>The store's operations\<close>

definition unix_milli :: "time \<Rightarrow> int" where
  "unix_milli t = (t - 62135596800 * second) div 1000000"

definition milliseconds :: "duration \<Rightarrow> int" where
  "milliseconds d = go_div d 1000000"

definition validateRequest :: "lease_request \<Rightarrow> bool" where
  "validateRequest q \<longleftrightarrow>
     \<not> (lq_run q = [] \<or> lq_server q = [] \<or> lq_ttl q \<le> 0 \<or> is_zero_time (lq_now q) \<or>
        cpu_millicores (lq_required q) \<le> 0 \<or> memory_bytes (lq_required q) \<le> 0 \<or>
        disk_bytes (lq_required q) \<le> 0 \<or> cpu_millicores (lq_available q) < 0 \<or>
        memory_bytes (lq_available q) < 0 \<or> disk_bytes (lq_available q) < 0)"

definition TryReserve ::
  "eval_outcome \<Rightarrow> ident \<Rightarrow> lease_request \<Rightarrow> redis \<Rightarrow> (lease_error + lease option) \<times> redis" where
  "TryReserve oc lease_id q rd =
     (if \<not> validateRequest q then (Inl ErrInvalidLeaseRequest, rd)
      else if oc = EvalRefused then (Inl ErrRedis, rd)
      else
        (let expires = lq_now q + lq_ttl q;
             (result, s) = reserveScript (unix_milli (lq_now q)) (lq_run q) (lq_required q)
                (lq_available q) (unix_milli expires) lease_id (milliseconds (lq_ttl q))
                (rd (lq_server q));
             rd' = rd(lq_server q := s)
         in if oc = EvalReplyLost then (Inl ErrRedis, rd')
            else if result \<noteq> 1 then (Inr None, rd')
            else (Inr (Some \<lparr>ls_id = lease_id, ls_run = lq_run q, ls_server = lq_server q,
                             ls_resources = lq_required q, ls_expires = expires\<rparr>), rd')))"

definition Release :: "eval_outcome \<Rightarrow> lease \<Rightarrow> redis \<Rightarrow> (lease_error + unit) \<times> redis" where
  "Release oc l rd =
     (if ls_run l = [] \<or> ls_server l = [] then (Inl ErrInvalidLeaseRequest, rd)
      else if oc = EvalRefused then (Inl ErrRedis, rd)
      else
        (let rd' = rd(ls_server l := releaseScript (ls_run l) (rd (ls_server l)))
         in if oc = EvalReplyLost then (Inl ErrRedis, rd') else (Inr (), rd')))"

definition Restore :: "eval_outcome \<Rightarrow> lease \<Rightarrow> time \<Rightarrow> redis \<Rightarrow> (lease_error + unit) \<times> redis" where
  "Restore oc l now rd =
     (if ls_id l = [] \<or> ls_run l = [] \<or> ls_server l = [] \<or> is_zero_time now \<or>
         cpu_millicores (ls_resources l) \<le> 0 \<or> memory_bytes (ls_resources l) \<le> 0 \<or>
         disk_bytes (ls_resources l) \<le> 0 then (Inl ErrInvalidLeaseRequest, rd)
      else
        (let ttl = ls_expires l - now in
         if ttl \<le> 0 then (Inr (), rd)
         else if oc = EvalRefused then (Inl ErrRedis, rd)
         else
           (case restoreScript (ls_run l) (ls_resources l) (unix_milli (ls_expires l)) (ls_id l)
                   (milliseconds ttl) (rd (ls_server l)) of
              None \<Rightarrow> (Inl ErrRedis, rd)
            | Some s \<Rightarrow>
                (let rd' = rd(ls_server l := s)
                 in if oc = EvalReplyLost then (Inl ErrRedis, rd') else (Inr (), rd')))))"

section \<open>Packing round trip\<close>

lemma colon_not_digit: "\<not> is_digit CHR '':''"
  by (simp add: is_digit_def)

lemma colon_notin_show_nat: "CHR '':'' \<notin> set (show_nat n)"
  using show_nat_facts [of n] colon_not_digit by (auto simp: digits_only_def list_all_iff)

lemma match_pack:
  "0 \<le> cpu_millicores r \<Longrightarrow> 0 \<le> memory_bytes r \<Longrightarrow> 0 \<le> disk_bytes r \<Longrightarrow>
   match_packed (pack r) = Some r"
  using show_nat_facts colon_notin_show_nat
  by (simp add: match_packed_def pack_def show_int_def split_on_append split_on_plain)

section \<open>Invariant\<close>

definition held :: "lease_keys \<Rightarrow> ident \<Rightarrow> resources option" where
  "held s rid = Option.bind (map_of (amounts s) rid) match_packed"

definition amount_sum :: "(resources \<Rightarrow> int) \<Rightarrow> (ident \<times> string) list \<Rightarrow> int" where
  "amount_sum f al = (\<Sum>(k, p) \<leftarrow> al. case match_packed p of None \<Rightarrow> 0 | Some r \<Rightarrow> f r)"

definition positive :: "resources \<Rightarrow> bool" where
  "positive r \<longleftrightarrow> 0 < cpu_millicores r \<and> 0 < memory_bytes r \<and> 0 < disk_bytes r"

definition lease_inv :: "lease_keys \<Rightarrow> bool" where
  "lease_inv s \<longleftrightarrow>
     distinct (map fst (amounts s)) \<and> distinct (map fst (expirations s)) \<and>
     fst ` set (amounts s) = fst ` set (expirations s) \<and>
     (\<forall>(k, p) \<in> set (amounts s). \<exists>r. match_packed p = Some r \<and> positive r) \<and>
     cpu_millicores (reserved s) = amount_sum cpu_millicores (amounts s) \<and>
     memory_bytes (reserved s) = amount_sum memory_bytes (amounts s) \<and>
     disk_bytes (reserved s) = amount_sum disk_bytes (amounts s)"

lemma lease_inv_empty [simp]: "lease_inv empty_keys"
  by (simp add: lease_inv_def empty_keys_def amount_sum_def no_resources_def)

lemma alist_delete_absent: "k \<notin> fst ` set al \<Longrightarrow> AList.delete k al = al"
  by (induction al) auto

lemma amount_sum_simps [simp]:
  "amount_sum f [] = 0"
  "amount_sum f ((k, p) # al) = (case match_packed p of None \<Rightarrow> 0 | Some r \<Rightarrow> f r) + amount_sum f al"
  by (simp_all add: amount_sum_def)

lemma amount_sum_delete:
  "distinct (map fst al) \<Longrightarrow> map_of al k = Some p \<Longrightarrow> match_packed p = Some r \<Longrightarrow>
   amount_sum f (AList.delete k al) = amount_sum f al - f r"
  by (induction al) (auto simp: alist_delete_absent)

lemma amount_sum_update_new:
  "k \<notin> fst ` set al \<Longrightarrow> match_packed p = Some r \<Longrightarrow>
   amount_sum f (AList.update k p al) = amount_sum f al + f r"
  by (induction al) auto

lemma amount_sum_update_old:
  "distinct (map fst al) \<Longrightarrow> map_of al k = Some p0 \<Longrightarrow> match_packed p0 = Some r0 \<Longrightarrow>
   match_packed p = Some r \<Longrightarrow>
   amount_sum f (AList.update k p al) = amount_sum f al + f r - f r0"
  by (induction al) auto

lemma fst_alist_delete: "fst ` set (AList.delete k al) = fst ` set al - {k}"
  by (induction al) auto

lemma fst_alist_update: "fst ` set (AList.update k v al) = insert k (fst ` set al)"
  by (induction al) auto

lemma in_alist_delete: "p \<in> set (AList.delete k al) \<Longrightarrow> p \<in> set al"
  by (simp add: AList.delete_eq)

lemma in_alist_update: "p \<in> set (AList.update k v al) \<Longrightarrow> p = (k, v) \<or> p \<in> set al"
  by (induction al) (auto split: if_splits)

lemma amounts_forget [simp]: "amounts (forget_run rid s) = AList.delete rid (amounts s)"
proof (cases "map_of (amounts s) rid")
  case None
  then have "rid \<notin> fst ` set (amounts s)" by (simp add: map_of_eq_None_iff)
  with None show ?thesis by (simp add: forget_run_def alist_delete_absent)
qed (simp add: forget_run_def Let_def split: option.split)

lemma expirations_forget [simp]:
  "expirations (forget_run rid s) = AList.delete rid (expirations s)"
  by (simp add: forget_run_def Let_def split: option.split)

lemma lease_inv_parse:
  "lease_inv s \<Longrightarrow> map_of (amounts s) rid = Some p \<Longrightarrow> \<exists>r. match_packed p = Some r \<and> positive r"
  by (auto simp: lease_inv_def dest!: map_of_SomeD)

lemma lease_inv_forget [simp]:
  assumes "lease_inv s"
  shows "lease_inv (forget_run rid s)"
proof (cases "map_of (amounts s) rid")
  case None
  then have abs: "rid \<notin> fst ` set (amounts s)" by (simp add: map_of_eq_None_iff)
  with assms have "rid \<notin> fst ` set (expirations s)" by (simp add: lease_inv_def)
  with None abs assms show ?thesis by (simp add: forget_run_def alist_delete_absent)
next
  case (Some p)
  obtain r where r: "match_packed p = Some r" using lease_inv_parse [OF assms Some] by auto
  have res: "reserved (forget_run rid s) = sub_resources (reserved s) r"
    using Some r by (simp add: forget_run_def)
  have dist: "distinct (map fst (amounts s))" using assms by (simp add: lease_inv_def)
  show ?thesis
    using assms unfolding lease_inv_def amounts_forget expirations_forget res fst_alist_delete
    by (auto simp: sub_resources_def amount_sum_delete [OF dist Some r] distinct_delete
        dest!: in_alist_delete)
qed

lemma lease_inv_fold_forget: "lease_inv s \<Longrightarrow> lease_inv (fold forget_run rs s)"
  by (induction rs arbitrary: s) auto

lemma lease_inv_purge [simp]: "lease_inv s \<Longrightarrow> lease_inv (purge now s)"
  by (simp add: purge_def lease_inv_fold_forget)

lemma map_of_fold_forget:
  "map_of (amounts (fold forget_run rs s)) = map_of (amounts s) |` (- set rs)"
  "map_of (expirations (fold forget_run rs s)) = map_of (expirations s) |` (- set rs)"
  by (induction rs arbitrary: s)
    (auto simp: delete_conv' restrict_map_def fun_eq_iff)

lemma held_forget: "held (forget_run rid s) = (held s)(rid := None)"
  by (auto simp: held_def delete_conv' fun_eq_iff)

lemma held_purge: "held (purge now s) = held s |` (- set (expired_runs now s))"
  by (auto simp: held_def purge_def map_of_fold_forget restrict_map_def fun_eq_iff)

lemma lease_inv_put:
  assumes "lease_inv s" "positive res"
    and "cpu_millicores R = amount_sum cpu_millicores (AList.update rid (pack res) (amounts s))"
    and "memory_bytes R = amount_sum memory_bytes (AList.update rid (pack res) (amounts s))"
    and "disk_bytes R = amount_sum disk_bytes (AList.update rid (pack res) (amounts s))"
  shows "lease_inv (s\<lparr>reserved := R, amounts := AList.update rid (pack res) (amounts s),
     expirations := AList.update rid e (expirations s), lease_ids := ids\<rparr>)"
proof -
  have parse: "match_packed (pack res) = Some res"
    using assms(2) by (intro match_pack) (auto simp: positive_def)
  have "\<exists>r. match_packed p = Some r \<and> positive r"
    if "(k, p) \<in> set (AList.update rid (pack res) (amounts s))" for k p
    using in_alist_update [OF that] assms(1,2) parse by (auto simp: lease_inv_def)
  moreover have "fst ` set (AList.update rid (pack res) (amounts s)) =
      fst ` set (AList.update rid e (expirations s))"
    using assms(1) unfolding fst_alist_update by (simp add: lease_inv_def)
  moreover have "distinct (map fst (AList.update rid (pack res) (amounts s)))"
    "distinct (map fst (AList.update rid e (expirations s)))"
    using assms(1) by (simp_all add: lease_inv_def distinct_update)
  ultimately show ?thesis
    unfolding lease_inv_def by (intro conjI) (auto simp: assms(3-5))
qed

lemma lease_inv_reserve:
  assumes "lease_inv s0" "positive req"
  shows "lease_inv (snd (reserveScript now rid req avail expires lid ttl s0))"
proof -
  define s where "s = purge now s0"
  have inv: "lease_inv s" using assms(1) by (simp add: s_def)
  have parse: "match_packed (pack req) = Some req"
    using assms(2) by (intro match_pack) (auto simp: positive_def)
  show ?thesis
  proof (cases "map_of (amounts s) rid")
    case (Some p)
    with inv show ?thesis by (simp add: reserveScript_def s_def [symmetric])
  next
    case None
    then have abs: "rid \<notin> fst ` set (amounts s)" by (simp add: map_of_eq_None_iff)
    have "lease_inv (s\<lparr>reserved := add_resources (reserved s) req,
        amounts := AList.update rid (pack req) (amounts s),
        expirations := AList.update rid expires (expirations s),
        lease_ids := AList.update rid (lid, ttl) (lease_ids s)\<rparr>)"
      using inv by (intro lease_inv_put assms(2))
        (auto simp: lease_inv_def add_resources_def amount_sum_update_new [OF abs parse])
    with inv show ?thesis by (simp add: reserveScript_def s_def [symmetric] Let_def)
  qed
qed

lemma lease_inv_release: "lease_inv s \<Longrightarrow> lease_inv (releaseScript rid s)"
  using lease_inv_forget [of s rid] by (simp add: releaseScript_def Let_def lease_inv_def)

lemma lease_inv_restore:
  assumes "lease_inv s" "positive res" "restoreScript rid res expires lid ttl s = Some s'"
  shows "lease_inv s'"
proof -
  have parse: "match_packed (pack res) = Some res"
    using assms(2) by (intro match_pack) (auto simp: positive_def)
  have dist: "distinct (map fst (amounts s))" using assms(1) by (simp add: lease_inv_def)
  define put where "put R = s\<lparr>reserved := R, amounts := AList.update rid (pack res) (amounts s),
     expirations := AList.update rid expires (expirations s),
     lease_ids := AList.update rid (lid, ttl) (lease_ids s)\<rparr>" for R
  show ?thesis
  proof (cases "map_of (amounts s) rid")
    case None
    then have abs: "rid \<notin> fst ` set (amounts s)" by (simp add: map_of_eq_None_iff)
    have "s' = put (add_resources (reserved s) res)"
      using assms(3) None by (simp add: restoreScript_def put_def)
    moreover have "lease_inv (put (add_resources (reserved s) res))"
      using assms(1) unfolding put_def by (intro lease_inv_put assms(1,2))
        (auto simp: lease_inv_def add_resources_def amount_sum_update_new [OF abs parse])
    ultimately show ?thesis by simp
  next
    case (Some p)
    then obtain r0 where r0: "match_packed p = Some r0" using lease_inv_parse [OF assms(1)] by auto
    have "s' = put (add_resources (reserved s) (sub_resources res r0))"
      using assms(3) Some r0 by (simp add: restoreScript_def put_def)
    moreover have "lease_inv (put (add_resources (reserved s) (sub_resources res r0)))"
      using assms(1) unfolding put_def by (intro lease_inv_put assms(1,2))
        (auto simp: lease_inv_def add_resources_def sub_resources_def
          amount_sum_update_old [OF dist Some r0 parse])
    ultimately show ?thesis by simp
  qed
qed

lemma alist_update_twice: "AList.update k v (AList.update k w al) = AList.update k v al"
  by (induction al) auto

lemma held_reserve:
  assumes "reserveScript now rid req avail expires lid ttl s0 = (res, s)"
  shows "res = 1 \<Longrightarrow> positive req \<Longrightarrow> held s = (held (purge now s0))(rid \<mapsto> req)"
    and "res \<noteq> 1 \<Longrightarrow> s = purge now s0"
    and "res = 1 \<Longrightarrow> map_of (amounts (purge now s0)) rid = None"
    and "res = 1 \<Longrightarrow> reserved s = add_resources (reserved (purge now s0)) req"
    and "res = 1 \<Longrightarrow> cpu_millicores (reserved s) \<le> cpu_millicores avail \<and>
           memory_bytes (reserved s) \<le> memory_bytes avail \<and>
           disk_bytes (reserved s) \<le> disk_bytes avail"
  using assms match_pack [of req]
  by (auto simp: reserveScript_def Let_def held_def update_conv' positive_def add_resources_def
      fun_eq_iff split: if_splits)

section \<open>The contract of a lease store\<close>

locale lease_book =
  fixes try_reserve :: "eval_outcome \<Rightarrow> ident \<Rightarrow> lease_request \<Rightarrow> 'r \<Rightarrow> (lease_error + lease option) \<times> 'r"
    and release :: "eval_outcome \<Rightarrow> lease \<Rightarrow> 'r \<Rightarrow> (lease_error + unit) \<times> 'r"
    and holding :: "'r \<Rightarrow> ident \<Rightarrow> ident \<Rightarrow> resources option"
    and ok :: "'r \<Rightarrow> bool"
  assumes ok_reserve: "ok rd \<Longrightarrow> ok (snd (try_reserve oc lid q rd))"
    and ok_release: "ok rd \<Longrightarrow> ok (snd (release oc l rd))"
    and reserve_granted: "try_reserve oc lid q rd = (Inr (Some l), rd') \<Longrightarrow>
          ls_run l = lq_run q \<and> ls_server l = lq_server q \<and> ls_resources l = lq_required q \<and>
          lq_run q \<noteq> [] \<and> lq_server q \<noteq> [] \<and>
          holding rd' (lq_server q) (lq_run q) = Some (lq_required q)"
    and reserve_denied: "try_reserve oc lid q rd = (Inr None, rd') \<Longrightarrow> holding rd' srv \<subseteq>\<^sub>m holding rd srv"
    and reserve_others: "try_reserve oc lid q rd = (res, rd') \<Longrightarrow>
          (holding rd' srv) |` (- (if srv = lq_server q then {lq_run q} else {})) \<subseteq>\<^sub>m holding rd srv"
    and release_done: "release oc l rd = (Inr (), rd') \<Longrightarrow>
          holding rd' = (holding rd)(ls_server l := (holding rd (ls_server l))(ls_run l := None))"
    and release_ok: "ls_run l \<noteq> [] \<Longrightarrow> ls_server l \<noteq> [] \<Longrightarrow> fst (release EvalOk l rd) = Inr ()"
begin

lemma reserve_release_no_leak:
  assumes r: "try_reserve oc lid q rd = (Inr (Some l), rd1)" and "release EvalOk l rd1 = (res, rd2)"
  shows "holding rd2 srv \<subseteq>\<^sub>m holding rd srv" "holding rd2 (lq_server q) (lq_run q) = None"
proof -
  have l: "ls_run l = lq_run q" "ls_server l = lq_server q" "lq_run q \<noteq> []" "lq_server q \<noteq> []"
    using reserve_granted [OF r] by auto
  have "res = Inr ()" using release_ok [of l rd1] assms(2) l by simp
  then have h2: "holding rd2 =
      (holding rd1)(lq_server q := (holding rd1 (lq_server q))(lq_run q := None))"
    using release_done [of EvalOk l rd1 rd2] assms(2) l by simp
  have sub: "(holding rd1 srv) |` (- (if srv = lq_server q then {lq_run q} else {})) \<subseteq>\<^sub>m holding rd srv"
    by (rule reserve_others [OF r])
  show "holding rd2 srv \<subseteq>\<^sub>m holding rd srv"
    using sub unfolding h2 by (auto simp: map_le_def restrict_map_def split: if_splits)
  show "holding rd2 (lq_server q) (lq_run q) = None" unfolding h2 by simp
qed

end

definition redis_held :: "redis \<Rightarrow> ident \<Rightarrow> ident \<Rightarrow> resources option" where
  "redis_held rd srv = held (rd srv)"

definition redis_ok :: "redis \<Rightarrow> bool" where
  "redis_ok rd \<longleftrightarrow> (\<forall>srv. lease_inv (rd srv))"

lemma redis_ok_upd: "redis_ok rd \<Longrightarrow> lease_inv s \<Longrightarrow> redis_ok (rd(srv := s))"
  by (simp add: redis_ok_def)

lemma redis_okD: "redis_ok rd \<Longrightarrow> lease_inv (rd srv)"
  by (simp add: redis_ok_def)

lemma TryReserve_ok: "redis_ok rd \<Longrightarrow> redis_ok (snd (TryReserve oc lid q rd))"
proof -
  assume ok: "redis_ok rd"
  show ?thesis
  proof (cases "validateRequest q")
    case True
    then have "positive (lq_required q)" by (auto simp: validateRequest_def positive_def)
    then have "lease_inv (snd (reserveScript now rid (lq_required q) avail e lid t (rd srv)))"
      for now rid avail e t srv
      using ok by (intro lease_inv_reserve redis_okD)
    then show ?thesis
      using ok by (auto simp: TryReserve_def Let_def split_def intro!: redis_ok_upd)
  next
    case False
    with ok show ?thesis by (simp add: TryReserve_def)
  qed
qed

lemma Release_ok: "redis_ok rd \<Longrightarrow> redis_ok (snd (Release oc l rd))"
  by (auto simp: Release_def Let_def redis_ok_def lease_inv_release)

lemma Restore_ok: "redis_ok rd \<Longrightarrow> redis_ok (snd (Restore oc l now rd))"
  by (auto simp: Restore_def Let_def positive_def redis_ok_def split: option.split
      elim!: lease_inv_restore [rotated 2])

lemma TryReserve_cases:
  assumes "TryReserve oc lid q rd = (res, rd')"
  obtains (unchanged) "rd' = rd" "res \<noteq> Inr None" "\<And>l. res \<noteq> Inr (Some l)"
  | (ran) r s where "validateRequest q" "rd' = rd(lq_server q := s)"
      "reserveScript (unix_milli (lq_now q)) (lq_run q) (lq_required q) (lq_available q)
         (unix_milli (lq_now q + lq_ttl q)) lid (milliseconds (lq_ttl q)) (rd (lq_server q)) = (r, s)"
      "res = Inr None \<Longrightarrow> r \<noteq> 1"
      "\<And>l. res = Inr (Some l) \<Longrightarrow> r = 1 \<and> l = \<lparr>ls_id = lid, ls_run = lq_run q,
          ls_server = lq_server q, ls_resources = lq_required q, ls_expires = lq_now q + lq_ttl q\<rparr>"
  using assms
  by (auto simp: TryReserve_def Let_def split: if_splits prod.splits)

lemma redis_held_upd:
  "redis_held (rd(srv := s)) srv' = (if srv' = srv then held s else redis_held rd srv')"
  by (simp add: redis_held_def)

lemma held_purge_le: "held (purge now s) \<subseteq>\<^sub>m held s"
  by (auto simp: held_purge map_le_def restrict_map_def dom_def split: if_splits)

interpretation rl: lease_book TryReserve Release redis_held redis_ok
proof
  show "redis_ok (snd (TryReserve oc lid q rd))" if "redis_ok rd" for rd oc lid q
    using that by (rule TryReserve_ok)
  show "redis_ok (snd (Release oc l rd))" if "redis_ok rd" for rd oc l
    using that by (rule Release_ok)
next
  fix oc lid q rd l rd'
  assume a: "TryReserve oc lid q rd = (Inr (Some l), rd')"
  show "ls_run l = lq_run q \<and> ls_server l = lq_server q \<and> ls_resources l = lq_required q \<and>
     lq_run q \<noteq> [] \<and> lq_server q \<noteq> [] \<and>
     redis_held rd' (lq_server q) (lq_run q) = Some (lq_required q)"
    using a
  proof (cases rule: TryReserve_cases)
    case unchanged
    then show ?thesis by blast
  next
    case (ran r s)
    have "positive (lq_required q)" using ran(1) by (auto simp: validateRequest_def positive_def)
    then show ?thesis
      using ran held_reserve(1) [OF ran(3)] by (auto simp: redis_held_upd validateRequest_def)
  qed
next
  fix oc lid q rd rd' srv
  assume a: "TryReserve oc lid q rd = (Inr None, rd')"
  show "redis_held rd' srv \<subseteq>\<^sub>m redis_held rd srv"
    using a
  proof (cases rule: TryReserve_cases)
    case unchanged
    then show ?thesis by blast
  next
    case (ran r s)
    then show ?thesis
      using held_reserve(2) [OF ran(3)] held_purge_le by (simp add: redis_held_upd redis_held_def)
  qed
next
  fix oc lid q rd res rd' srv
  assume a: "TryReserve oc lid q rd = (res, rd')"
  show "redis_held rd' srv |` (- (if srv = lq_server q then {lq_run q} else {})) \<subseteq>\<^sub>m redis_held rd srv"
    using a
  proof (cases rule: TryReserve_cases)
    case unchanged
    then show ?thesis by (auto simp: map_le_def restrict_map_def)
  next
    case (ran r s)
    let ?p = "purge (unix_milli (lq_now q)) (rd (lq_server q))"
    have "positive (lq_required q)" using ran(1) by (auto simp: validateRequest_def positive_def)
    then have "held s |` (- {lq_run q}) \<subseteq>\<^sub>m held ?p"
      using held_reserve(1,2) [OF ran(3)]
      by (cases "r = 1") (auto simp: map_le_def restrict_map_def split: if_splits)
    then have "held s |` (- {lq_run q}) \<subseteq>\<^sub>m held (rd (lq_server q))"
      using held_purge_le by (rule map_le_trans)
    then show ?thesis
      unfolding ran(2) redis_held_upd by (auto simp: redis_held_def map_le_def restrict_map_def)
  qed
next
  show "redis_held rd' = (redis_held rd)(ls_server l := (redis_held rd (ls_server l))(ls_run l := None))"
    if "Release oc l rd = (Inr (), rd')" for oc l rd rd'
  proof
    have "rd' = rd(ls_server l := releaseScript (ls_run l) (rd (ls_server l)))"
      using that by (auto simp: Release_def Let_def split: if_splits)
    moreover have "held (releaseScript k s) = (held s)(k := None)" for k s
      using held_forget [of k s] by (simp add: releaseScript_def held_def fun_eq_iff Let_def)
    ultimately show "redis_held rd' srv = ((redis_held rd)(ls_server l :=
        (redis_held rd (ls_server l))(ls_run l := None))) srv" for srv
      by (simp add: redis_held_def)
  qed
  show "fst (Release EvalOk l rd) = Inr ()" if "ls_run l \<noteq> []" "ls_server l \<noteq> []" for l rd
    using that by (simp add: Release_def Let_def)
qed

section \<open>Reachable lease stores\<close>

text \<open>Any interleaving of the three operations, by any number of schedulers, from an empty Redis.\<close>

inductive lease_reachable :: "redis \<Rightarrow> bool" where
  start: "lease_reachable (\<lambda>_. empty_keys)"
| reserve: "lease_reachable rd \<Longrightarrow> lease_reachable (snd (TryReserve oc lid q rd))"
| release: "lease_reachable rd \<Longrightarrow> lease_reachable (snd (Release oc l rd))"
| restore: "lease_reachable rd \<Longrightarrow> lease_reachable (snd (Restore oc l now rd))"

lemma lease_reachable_ok: "lease_reachable rd \<Longrightarrow> redis_ok rd"
  by (induction rule: lease_reachable.induct)
    (simp_all add: TryReserve_ok Release_ok Restore_ok, simp add: redis_ok_def)

section \<open>Properties\<close>


definition sample_request :: lease_request where
  "sample_request = \<lparr>lq_run = ''r1'', lq_server = ''s1'',
     lq_available = \<lparr>cpu_millicores = 1000, memory_bytes = 2000, disk_bytes = 3000\<rparr>,
     lq_required = \<lparr>cpu_millicores = 100, memory_bytes = 200, disk_bytes = 300\<rparr>,
     lq_now = 63000000000000000000, lq_ttl = 3600000000000\<rparr>"



lemma sample_reserve:
  "\<exists>l rd'. TryReserve EvalOk ''l1'' sample_request (\<lambda>_. empty_keys) = (Inr (Some l), rd')"
  by (simp add: TryReserve_def reserveScript_def sample_request_def validateRequest_def purge_def
      expired_runs_def empty_keys_def no_resources_def is_zero_time_def Let_def)


text \<open>Restoring a lease that the store already restored changes neither the totals nor the
  amounts nor the expirations, so every scan may repeat it.\<close>

lemma restore_idempotent:
  assumes "Restore EvalOk l now rd = (Inr (), rd1)" "Restore EvalOk l now' rd1 = (res, rd2)"
    "ls_expires l > now"
  shows "reserved (rd2 srv) = reserved (rd1 srv) \<and> amounts (rd2 srv) = amounts (rd1 srv) \<and>
    expirations (rd2 srv) = expirations (rd1 srv)"
proof -
  have pos: "positive (ls_resources l)"
    using assms(1) by (auto simp: Restore_def positive_def split: if_splits)
  have parse: "match_packed (pack (ls_resources l)) = Some (ls_resources l)"
    using pos by (intro match_pack) (auto simp: positive_def)
  obtain s1 where s1: "restoreScript (ls_run l) (ls_resources l) (unix_milli (ls_expires l)) (ls_id l)
      (milliseconds (ls_expires l - now)) (rd (ls_server l)) = Some s1" "rd1 = rd(ls_server l := s1)"
    using assms(1,3) by (auto simp: Restore_def Let_def split: if_splits option.splits)
  have held1: "map_of (amounts s1) (ls_run l) = Some (pack (ls_resources l))"
    "AList.update (ls_run l) (pack (ls_resources l)) (amounts s1) = amounts s1"
    "AList.update (ls_run l) (unix_milli (ls_expires l)) (expirations s1) = expirations s1"
    using s1(1) by (auto simp: restoreScript_def update_conv' alist_update_twice)
  have "\<exists>s2. restoreScript (ls_run l) (ls_resources l) (unix_milli (ls_expires l)) (ls_id l) ttl s1 = Some s2
      \<and> reserved s2 = reserved s1 \<and> amounts s2 = amounts s1 \<and> expirations s2 = expirations s1" for ttl
    by (simp add: restoreScript_def held1 parse add_resources_def sub_resources_def)
  note again = this
  have "rd2 = rd1 \<or> (\<exists>s2 ttl. restoreScript (ls_run l) (ls_resources l) (unix_milli (ls_expires l))
      (ls_id l) ttl s1 = Some s2 \<and> rd2 = rd1(ls_server l := s2))"
    using assms(2) s1(2) by (auto simp: Restore_def Let_def split: if_splits option.splits)
  then show ?thesis using again s1(2) by (metis fun_upd_apply option.inject)
qed

definition sample_lease :: lease where
  "sample_lease = \<lparr>ls_id = ''l1'', ls_run = ''r1'', ls_server = ''s1'',
     ls_resources = \<lparr>cpu_millicores = 100, memory_bytes = 200, disk_bytes = 300\<rparr>,
     ls_expires = 63000003600000000000\<rparr>"

lemma restore_idempotent_witness:
  "\<exists>rd1 rd2. Restore EvalOk sample_lease 63000000000000000000 (\<lambda>_. empty_keys) = (Inr (), rd1) \<and>
     Restore EvalOk sample_lease 63000000000000000000 rd1 = (Inr (), rd2) \<and>
     amounts (rd2 ''s1'') = amounts (rd1 ''s1'') \<and> reserved (rd2 ''s1'') = reserved (rd1 ''s1'')"
proof -
  let ?R = "\<lambda>rd. Restore EvalOk sample_lease 63000000000000000000 rd"
  obtain rd1 where 1: "?R (\<lambda>_. empty_keys) = (Inr (), rd1)"
    "amounts (rd1 ''s1'') = [(''r1'', pack (ls_resources sample_lease))]"
    by (simp add: Restore_def restoreScript_def sample_lease_def empty_keys_def is_zero_time_def)
  have "match_packed (pack (ls_resources sample_lease)) = Some (ls_resources sample_lease)"
    by (rule match_pack) (simp_all add: sample_lease_def)
  then obtain rd2 where 2: "?R rd1 = (Inr (), rd2)"
    using 1(2) by (simp add: Restore_def restoreScript_def sample_lease_def is_zero_time_def)
  have 3: "ls_expires sample_lease > 63000000000000000000" by (simp add: sample_lease_def)
  show ?thesis using 1(1) 2 restore_idempotent [OF 1(1) 2 3, of "''s1''"] by blast
qed

end
