(* ===== verification/Run_Store.thy ===== *)
theory Run_Store
  imports Sched_Queue Redis_Lease
begin

text \<open>
  The scheduler's run store (\<^verbatim>\<open>internal/scheduler/postgres.go\<close>): the queries the scheduler
  reads runs, leases and servers with, and the transactions that assign a run, expire it and
  record why it waits. Statement \<open>k\<close> of a transaction fails when \<open>flt k\<close> holds; the transaction
  is then rolled back. The unique indexes and foreign keys of the migrations are refusals of the
  statements that would violate them.
\<close>

section \<open>Errors and values\<close>

datatype store_error = ErrStore | ErrRunNotFound | ErrInvalidRunEvent | ErrExecutionTokenMismatch
  | ErrRunEventConflict | ErrRunEventSequence | ErrRunNotRetryable | ErrRunNotCancellable
  | ErrRunCommandUnavailable | ErrDefinitionNotFound | ErrDefinitionDisabled | ErrInvalidDefinition
  | ErrVersionUnavailable | ErrDuplicateRun | ErrInvalidParameters | ErrInvalidCron
  | ErrScheduleChanged

record assignment =
  as_run :: ident
  as_server :: ident
  as_version :: ident
  as_token :: string
  as_lease :: lease
  as_at :: time

section \<open>Queries\<close>

text \<open>\<^verbatim>\<open>runSelect\<close> and \<^verbatim>\<open>scanRun\<close>: the run joined with its definition and its script
  version.\<close>

definition joined_version :: "db \<Rightarrow> run_row \<Rightarrow> version_row option" where
  "joined_version d r =
     (case row_by df_id (tr_def r) (db_defs d) of
        None \<Rightarrow> None
      | Some _ \<Rightarrow> row_by vr_id (tr_version r) (db_versions d))"

definition scanRun :: "run_row \<Rightarrow> version_row \<Rightarrow> run" where
  "scanRun r v =
     \<lparr>requires_artifacts = (vr_artifacts v \<noteq> None), run_id = tr_id r, definition_id = tr_def r,
      script_version_id = tr_version r, trigger_kind = tr_trigger r, run_state_of = tr_state r,
      parameters = sp_params (tr_spec r), required_labels = sp_labels (tr_spec r),
      required_runtime = sp_runtime (tr_spec r), priority = sp_priority (tr_spec r),
      run_resources = sp_resources (tr_spec r), max_concurrency = sp_max_concurrency (tr_spec r),
      timeout_seconds = sp_timeout (tr_spec r), max_wait_seconds = sp_max_wait (tr_spec r),
      retry_policy_of = \<lparr>max_retries = sp_max_retries (tr_spec r),
                         backoff_seconds = sp_backoff (tr_spec r)\<rparr>,
      idempotent = sp_idempotent (tr_spec r), scheduled_for = tr_scheduled_for r,
      queued_at = tr_queued_at r, created_at = tr_created_at r\<rparr>"

definition select_run :: "db \<Rightarrow> run_row \<Rightarrow> run option" where
  "select_run d r = map_option (scanRun r) (joined_version d r)"

definition Get :: "faults \<Rightarrow> ident \<Rightarrow> db \<Rightarrow> store_error + run" where
  "Get flt rid d =
     (if flt 0 then Inl ErrStore
      else (case Option.bind (run_row_of d rid) (select_run d) of
              None \<Rightarrow> Inl ErrRunNotFound
            | Some r \<Rightarrow> Inr r))"

definition ListQueued :: "faults \<Rightarrow> db \<Rightarrow> store_error + run list" where
  "ListQueued flt d =
     (if flt 0 then Inl ErrStore
      else Inr (sortRuns (List.map_filter (select_run d)
                  (filter (\<lambda>r. tr_state r = Queued) (db_runs d)))))"

definition CountActive :: "faults \<Rightarrow> ident \<Rightarrow> db \<Rightarrow> store_error + nat" where
  "CountActive flt did d = (if flt 0 then Inl ErrStore else Inr (active_count d did))"

text \<open>The query for released leases reads only the identifiers; the other fields keep their zero
  values.\<close>

definition ListReleasedLeases :: "faults \<Rightarrow> time \<Rightarrow> db \<Rightarrow> store_error + lease list" where
  "ListReleasedLeases flt now d =
     (if flt 0 then Inl ErrStore
      else Inr (map (\<lambda>l. \<lparr>ls_id = lr_id l, ls_run = lr_run l, ls_server = lr_server l,
                          ls_resources = no_resources, ls_expires = 0\<rparr>)
                  (filter (\<lambda>l. lr_released l \<noteq> None \<and> lr_expires l > now) (db_leases d))))"

definition lease_row_less :: "lease_row \<Rightarrow> lease_row \<Rightarrow> bool" where
  "lease_row_less a b =
     (if lr_created a \<noteq> lr_created b then lr_created a < lr_created b else lr_id a < lr_id b)"

definition ListActiveLeases :: "faults \<Rightarrow> time \<Rightarrow> db \<Rightarrow> store_error + lease list" where
  "ListActiveLeases flt now d =
     (if flt 0 then Inl ErrStore
      else Inr (map (\<lambda>l. \<lparr>ls_id = lr_id l, ls_run = lr_run l, ls_server = lr_server l,
                          ls_resources = lr_resources l, ls_expires = lr_expires l\<rparr>)
                  (slice_stable lease_row_less
                    (filter (\<lambda>l. lr_released l = None \<and> lr_expires l > now \<and>
                               (case run_row_of d (lr_run l) of
                                  None \<Rightarrow> False
                                | Some r \<Rightarrow> active_state (tr_state r)))
                      (db_leases d)))))"

section \<open>Server snapshots\<close>

text \<open>The newest snapshot of a server, its sync row for the version, and the time of its last
  assignment. The fairness score is the rational \<open>seconds * 10000 / 3600\<close>, clamped to
  \<open>0..10000\<close> and rounded half up; \<open>dbnow\<close> is the database clock.\<close>

definition latest_snapshot :: "db \<Rightarrow> ident \<Rightarrow> snapshot_row option" where
  "latest_snapshot d sid =
     (case slice_stable (\<lambda>a b. ss_collected a > ss_collected b)
             (filter (\<lambda>s. ss_server s = sid) (db_snapshots d)) of
        [] \<Rightarrow> None
      | s # _ \<Rightarrow> Some s)"

definition sync_row_of :: "db \<Rightarrow> ident \<Rightarrow> ident \<Rightarrow> sync_row option" where
  "sync_row_of d sid vid = find (\<lambda>y. sy_server y = sid \<and> sy_version y = vid) (db_syncs d)"

definition recent_assignment :: "db \<Rightarrow> ident \<Rightarrow> time option" where
  "recent_assignment d sid =
     (case List.map_filter tr_assigned_at (filter (\<lambda>r. tr_server r = Some sid) (db_runs d)) of
        [] \<Rightarrow> None
      | t # ts \<Rightarrow> Some (max_col 0 (t # ts)))"

definition fairness_score :: "time \<Rightarrow> time option \<Rightarrow> int" where
  "fairness_score dbnow recent =
     (case recent of
        None \<Rightarrow> 10000
      | Some t \<Rightarrow>
          (let num = (dbnow - t) * 10000; den = 3600 * second
           in if num \<le> 0 then 0
              else if num \<ge> 10000 * den then 10000
              else (2 * num + den) div (2 * den)))"

definition snapshot_of :: "db \<Rightarrow> time \<Rightarrow> run \<Rightarrow> server_row \<Rightarrow> snapshot" where
  "snapshot_of d dbnow r s =
     (let col = (\<lambda>f. case latest_snapshot d (sv_id s) of None \<Rightarrow> 0 | Some x \<Rightarrow> f x);
          st = (case sync_row_of d (sv_id s) (script_version_id r) of
                  None \<Rightarrow> SyncNone | Some y \<Rightarrow> sy_status y)
      in \<lparr>sn_capabilities = sv_capabilities s, sn_id = sv_id s, sn_status = sv_status s,
          sn_enabled = sv_enabled s, sn_draining = sv_drain s, sn_labels = sv_labels s,
          sn_runtimes = sv_runtimes s, sn_max_concurrency = sv_max_concurrency s,
          sn_running = col ss_running, sn_cpu_total = col ss_cpu_total,
          sn_cpu_available = max (col ss_cpu_total - col ss_cpu_used) 0,
          sn_mem_total = col ss_mem_total, sn_mem_available = col ss_mem_avail,
          sn_disk_total = col ss_disk_total, sn_disk_available = col ss_disk_avail,
          sn_ready_versions = [(script_version_id r, st = SyncReady)],
          sn_blocked_versions = [(script_version_id r, st = SyncDrifted \<or> st = SyncFailed)],
          sn_weight = sv_weight s,
          sn_fairness = fairness_score dbnow (recent_assignment d (sv_id s))\<rparr>)"

definition Snapshots :: "faults \<Rightarrow> time \<Rightarrow> run \<Rightarrow> db \<Rightarrow> store_error + snapshot list" where
  "Snapshots flt dbnow r d =
     (if flt 0 then Inl ErrStore
      else Inr (map (snapshot_of d dbnow r) (slice_stable (\<lambda>a b. sv_id a < sv_id b) (db_servers d))))"

section \<open>Transactions\<close>

text \<open>
  \<^verbatim>\<open>Assign\<close>. Statements: 0 begin, 1 read the definition id, 2 advisory lock, 3 lock the
  queued run, 4 ensure a sync row, 5 check that the server has the verified artifact, 6 commit
  without assigning, 7 take the run, 8 insert the lease, 9 append the event, 10 commit.
\<close>

definition ensure_sync :: "ident \<Rightarrow> ident \<Rightarrow> time \<Rightarrow> db \<Rightarrow> db" where
  "ensure_sync sid vid at d =
     (if sync_row_of d sid vid \<noteq> None then d
      else d\<lparr>db_syncs := db_syncs d @
             [\<lparr>sy_server = sid, sy_version = vid, sy_status = SyncPending, sy_sha = None,
               sy_created = at, sy_updated = at\<rparr>]\<rparr>)"

definition sync_verified :: "db \<Rightarrow> ident \<Rightarrow> ident \<Rightarrow> bool option" where
  "sync_verified d sid vid =
     (case (sync_row_of d sid vid, row_by vr_id vid (db_versions d)) of
        (Some y, Some v) \<Rightarrow> Some (sy_status y = SyncReady \<and> sy_sha y = Some (vr_sha v))
      | _ \<Rightarrow> None)"

definition take_run :: "assignment \<Rightarrow> run_row \<Rightarrow> run_row" where
  "take_run a r = r\<lparr>tr_state := Assigned, tr_server := Some (as_server a), tr_assigned_at := Some (as_at a),
     tr_token := Some (as_token a), tr_gone := False, tr_summary := Text [], tr_updated_at := as_at a\<rparr>"

definition insert_lease :: "assignment \<Rightarrow> db \<Rightarrow> db" where
  "insert_lease a d = d\<lparr>db_leases := db_leases d @
     [\<lparr>lr_id = ls_id (as_lease a), lr_run = as_run a, lr_server = as_server a,
       lr_resources = ls_resources (as_lease a), lr_expires = ls_expires (as_lease a),
       lr_created = as_at a, lr_released = None\<rparr>]\<rparr>"

definition lease_conflict :: "assignment \<Rightarrow> db \<Rightarrow> bool" where
  "lease_conflict a d = list_ex (\<lambda>l. lr_id l = ls_id (as_lease a) \<or>
     (lr_run l = as_run a \<and> lr_released l = None)) (db_leases d)"

definition token_conflict :: "assignment \<Rightarrow> db \<Rightarrow> bool" where
  "token_conflict a d = list_ex (\<lambda>r. tr_token r = Some (as_token a) \<and> tr_id r \<noteq> as_run a) (db_runs d)"

definition assigned_payload :: "assignment \<Rightarrow> payload" where
  "assigned_payload a =
     empty_payload\<lparr>pl_server := Some (as_server a), pl_lease := Some (ls_id (as_lease a))\<rparr>"

definition assign_verified ::
  "faults \<Rightarrow> assignment \<Rightarrow> run_row \<Rightarrow> db \<Rightarrow> db \<Rightarrow> store_error + (bool \<times> db)" where
  "assign_verified flt a r d d1 = stmt flt 7 ErrStore
     (if int (active_count d1 (tr_def r)) \<ge> sp_max_concurrency (tr_spec r) then Inr (False, d)
      else if token_conflict a d1 then Inl ErrStore
      else
        (let d2 = set_runs (\<lambda>r. tr_id r = as_run a \<and> tr_state r = Queued) (take_run a) d1 in
         stmt flt 8 ErrStore
           (if lease_conflict a d2 then Inl ErrStore
            else stmt flt 9 ErrStore (stmt flt 10 ErrStore
              (Inr (True, append_event (as_run a) ''run.assigned'' Assigned
                      (assigned_payload a) (as_at a) (insert_lease a d2)))))))"

definition Assign :: "faults \<Rightarrow> assignment \<Rightarrow> db \<Rightarrow> (store_error + bool) \<times> db" where
  "Assign flt a d = tx d (stmt flt 0 ErrStore (stmt flt 1 ErrStore
     (case run_row_of d (as_run a) of
        None \<Rightarrow> Inr (False, d)
      | Some r \<Rightarrow> stmt flt 2 ErrStore (stmt flt 3 ErrStore
          (if tr_state r \<noteq> Queued \<or> tr_queued_at r > as_at a then Inr (False, d)
           else stmt flt 4 ErrStore
             (if row_by sv_id (as_server a) (db_servers d) = None then Inl ErrStore
              else (let d1 = ensure_sync (as_server a) (tr_version r) (as_at a) d in
                stmt flt 5 ErrStore
                  (case sync_verified d1 (as_server a) (tr_version r) of
                     None \<Rightarrow> Inl ErrStore
                   | Some ok \<Rightarrow> if ok then assign_verified flt a r d d1
                               else stmt flt 6 ErrStore (Inr (False, d1))))))))))"

text \<open>\<^verbatim>\<open>Expire\<close>. Statements: 0 begin, 1 update, 2 event, 3 commit.\<close>

definition expire_run :: "time \<Rightarrow> run_row \<Rightarrow> run_row" where
  "expire_run at r = r\<lparr>tr_state := Expired, tr_finished_at := Some at, tr_updated_at := at\<rparr>"

definition Expire :: "faults \<Rightarrow> ident \<Rightarrow> time \<Rightarrow> db \<Rightarrow> (store_error + bool) \<times> db" where
  "Expire flt rid at d = tx d (stmt flt 0 ErrStore (stmt flt 1 ErrStore
     (case run_row_of d rid of
        None \<Rightarrow> Inr (False, d)
      | Some r \<Rightarrow>
          (if tr_state r \<noteq> Queued then Inr (False, d)
           else (let d1 = set_runs (\<lambda>r. tr_id r = rid \<and> tr_state r = Queued) (expire_run at) d in
             stmt flt 2 ErrStore (stmt flt 3 ErrStore
               (Inr (True, append_event rid ''run.expired'' Expired
                             (message_payload MsgQueueTimeout) at d1))))))))"

text \<open>\<^verbatim>\<open>SetQueueReason\<close>. Statements: 0 begin, 1 update, 2 event, 3 commit; the event carries
  the database clock.\<close>

definition SetQueueReason ::
  "faults \<Rightarrow> time \<Rightarrow> ident \<Rightarrow> message \<Rightarrow> db \<Rightarrow> (store_error + unit) \<times> db" where
  "SetQueueReason flt dbnow rid reason d = tx d (stmt flt 0 ErrStore (stmt flt 1 ErrStore
     (let p = (\<lambda>r. tr_id r = rid \<and> tr_state r = Queued \<and> tr_summary r \<noteq> reason) in
      if list_ex p (db_runs d)
      then (let d1 = set_runs p (\<lambda>r. r\<lparr>tr_summary := reason\<rparr>) d in
        stmt flt 2 ErrStore (stmt flt 3 ErrStore
          (Inr ((), append_event rid ''run.queue_reason'' Queued (message_payload reason) dbnow d1))))
      else stmt flt 3 ErrStore (Inr ((), d)))))"

end
