(* ===== verification/Run_Events.thy ===== *)
theory Run_Events
  imports Run_Store
begin

text \<open>
  What agents report about runs, and what the centre does when they do not: the event store and
  its service (\<^verbatim>\<open>internal/task/event_service.go\<close>), usage samples
  (\<^verbatim>\<open>internal/task/usage.go\<close>), reconciliation and retries
  (\<^verbatim>\<open>internal/task/reconcile.go\<close>), and the cancellation of
  \<^verbatim>\<open>internal/task/run_service.go\<close>. Identifiers that the database generates are
  arguments; the primary key refuses one that is taken.
\<close>

section \<open>Agent events\<close>

fun stateForAgentEvent :: "string \<Rightarrow> run_state option" where
  "stateForAgentEvent ty =
     (if ty = ''started'' then Some Running
      else if ty = ''succeeded'' then Some Succeeded
      else if ty = ''failed'' then Some Failed
      else if ty = ''timed_out'' then Some TimedOut
      else if ty = ''cancelled'' then Some Cancelled
      else None)"

definition validAgentTransition :: "run_state \<Rightarrow> run_state \<Rightarrow> bool" where
  "validAgentTransition from to =
     (if from = to then True
      else if to = Running then from = Assigned \<or> from = Syncing \<or> from = Unknown
      else Terminal to \<and> (from = Assigned \<or> from = Syncing \<or> from = Running \<or> from = Unknown))"

definition stored_event :: "db \<Rightarrow> run_event \<Rightarrow> event_row option" where
  "stored_event d ev = find (\<lambda>e. er_run e = ev_run ev \<and> er_token e = Some (ev_token ev) \<and>
     er_agent_seq e = Some (ev_sequence ev)) (db_events d)"

definition next_agent_seq :: "db \<Rightarrow> run_event \<Rightarrow> nat" where
  "next_agent_seq d ev = foldr max (List.map_filter er_agent_seq
     (filter (\<lambda>e. er_run e = ev_run ev \<and> er_token e = Some (ev_token ev)) (db_events d))) 0 + 1"

text \<open>A stored payload decodes with zero values for missing keys.\<close>

definition same_event :: "event_row \<Rightarrow> run_event \<Rightarrow> bool" where
  "same_event e ev \<longleftrightarrow>
     er_type e = ''run.'' @ ev_type ev \<and>
     (case pl_exit_code (er_payload e) of None \<Rightarrow> 0 | Some c \<Rightarrow> c) = ev_exit_code ev \<and>
     (case pl_message (er_payload e) of None \<Rightarrow> Text [] | Some m \<Rightarrow> m) = ev_message ev \<and>
     usage_equal (pl_usage (er_payload e)) (ev_usage ev)"

definition agent_payload :: "run_event \<Rightarrow> run_state \<Rightarrow> run_state \<Rightarrow> payload" where
  "agent_payload ev cur st = empty_payload\<lparr>pl_message := Some (ev_message ev),
     pl_exit_code := Some (ev_exit_code ev), pl_usage := ev_usage ev,
     pl_auto_retry := (\<not> Terminal cur \<and> (st = Failed \<or> st = TimedOut))\<rparr>"

definition append_agent_event :: "run_event \<Rightarrow> run_state \<Rightarrow> payload \<Rightarrow> db \<Rightarrow> db" where
  "append_agent_event ev st pl d = d\<lparr>db_events := db_events d @
     [\<lparr>er_run = ev_run ev, er_seq = next_seq d (ev_run ev), er_type = ''run.'' @ ev_type ev,
       er_state = st, er_payload = pl, er_at = ev_occurred ev, er_token = Some (ev_token ev),
       er_agent_seq = Some (ev_sequence ev)\<rparr>]\<rparr>"

definition agent_update :: "run_event \<Rightarrow> run_state \<Rightarrow> run_row \<Rightarrow> run_row" where
  "agent_update ev st r =
     (let fin = (if Terminal st then Some (ev_occurred ev) else None)
      in r\<lparr>tr_state := st,
           tr_started_at := (if st = Running
              then (case tr_started_at r of None \<Rightarrow> Some (ev_occurred ev) | Some t \<Rightarrow> Some t)
              else tr_started_at r),
           tr_finished_at := (case fin of None \<Rightarrow> tr_finished_at r | Some t \<Rightarrow> Some t),
           tr_exit_code := (if fin \<noteq> None then Some (ev_exit_code ev) else tr_exit_code r),
           tr_gone := (fin \<noteq> None),
           tr_updated_at := ev_occurred ev\<rparr>)"

text \<open>
  \<^verbatim>\<open>ApplyRunEvent\<close>. Statements: 0 begin, 1 lock the run, 2 look for the event, 3 next
  sequence, 4 insert the event, 5 update the run, 6 release the lease, 7 commit.
\<close>

definition token_of :: "run_row \<Rightarrow> string" where
  "token_of r = (case tr_token r of None \<Rightarrow> [] | Some t \<Rightarrow> t)"

definition ApplyRunEvent ::
  "faults \<Rightarrow> run_event \<Rightarrow> run_state \<Rightarrow> db \<Rightarrow> (store_error + bool) \<times> db" where
  "ApplyRunEvent flt ev st d = tx d (stmt flt 0 ErrStore (stmt flt 1 ErrStore
     (case run_row_of d (ev_run ev) of
        None \<Rightarrow> Inl ErrRunNotFound
      | Some r \<Rightarrow>
          if token_of r \<noteq> ev_token ev then Inl ErrExecutionTokenMismatch
          else stmt flt 2 ErrStore
            (case stored_event d ev of
               Some e \<Rightarrow> if same_event e ev then Inr (False, d) else Inl ErrRunEventConflict
             | None \<Rightarrow> stmt flt 3 ErrStore
                 (if ev_sequence ev \<noteq> next_agent_seq d ev then Inl ErrRunEventSequence
                  else if \<not> validAgentTransition (tr_state r) st then Inl ErrInvalidRunEvent
                  else stmt flt 4 ErrStore (stmt flt 5 ErrStore
                    (let d1 = append_agent_event ev st (agent_payload ev (tr_state r) st) d;
                         d2 = set_runs (\<lambda>r. tr_id r = ev_run ev) (agent_update ev st) d1
                     in if Terminal st
                        then stmt flt 6 ErrStore (stmt flt 7 ErrStore
                               (Inr (True, release_leases (ev_run ev) (ev_occurred ev) d2)))
                        else stmt flt 7 ErrStore (Inr (True, d2)))))))))"

definition Apply :: "faults \<Rightarrow> time \<Rightarrow> run_event \<Rightarrow> db \<Rightarrow> (store_error + unit) \<times> db" where
  "Apply flt now ev d =
     (case stateForAgentEvent (ev_type ev) of
        None \<Rightarrow> (Inl ErrInvalidRunEvent, d)
      | Some st \<Rightarrow>
          if blank (ev_run ev) \<or> blank (ev_token ev) \<or> ev_sequence ev = 0 \<or>
             (ev_usage ev \<noteq> None \<and> \<not> usage_valid (ev_usage ev))
          then (Inl ErrInvalidRunEvent, d)
          else (let ev' = (if is_zero_time (ev_occurred ev) then ev\<lparr>ev_occurred := now\<rparr> else ev)
                in map_prod (map_sum id (\<lambda>_. ())) id (ApplyRunEvent flt ev' st d)))"

section \<open>Usage samples\<close>

definition fresh_usage :: "db \<Rightarrow> ident \<Rightarrow> usage \<Rightarrow> bool" where
  "fresh_usage d rid u = list_all (\<lambda>e. er_run e = rid \<longrightarrow>
     (case pl_usage (er_payload e) of None \<Rightarrow> True | Some v \<Rightarrow> sampled_at v < sampled_at u))
     (db_events d)"

definition saveRunUsage :: "faults \<Rightarrow> nat \<Rightarrow> ident \<Rightarrow> usage option \<Rightarrow> db \<Rightarrow> store_error + db" where
  "saveRunUsage flt k rid u d =
     (case u of
        None \<Rightarrow> Inr d
      | Some v \<Rightarrow>
          if \<not> usage_valid u then Inr d
          else stmt flt k ErrStore
            (if \<not> fresh_usage d rid v then Inr d
             else stmt flt (k + 1) ErrStore
               (Inr (append_event rid ''run.usage'' Running (empty_payload\<lparr>pl_usage := u\<rparr>)
                       (sampled_at v) d))))"

definition loadUsage :: "db \<Rightarrow> ident \<Rightarrow> usage option" where
  "loadUsage d rid =
     (case slice_stable (\<lambda>(u, s) (v, t). sampled_at u > sampled_at v \<or>
              sampled_at u = sampled_at v \<and> s > t)
            (List.map_filter (\<lambda>e. if er_run e = rid then map_option (\<lambda>u. (u, er_seq e)) (pl_usage (er_payload e))
                                   else None) (db_events d)) of
        [] \<Rightarrow> None
      | (u, _) # _ \<Rightarrow> Some u)"

section \<open>Lost servers and running reports\<close>

text \<open>\<^verbatim>\<open>MarkServerRunsUnknown\<close>. Statements: 0 begin, 1 update, 2 commit, \<open>3 + i\<close> the event
  of the \<open>i\<close>-th run.\<close>

fun append_unknown :: "faults \<Rightarrow> nat \<Rightarrow> time \<Rightarrow> ident list \<Rightarrow> db \<Rightarrow> store_error + db" where
  "append_unknown flt k at [] d = Inr d"
| "append_unknown flt k at (rid # rids) d = stmt flt k ErrStore
     (append_unknown flt (k + 1) at rids
        (append_event rid ''run.unknown'' Unknown (message_payload MsgServerLost) at d))"

definition MarkServerRunsUnknown :: "faults \<Rightarrow> ident \<Rightarrow> time \<Rightarrow> db \<Rightarrow> (store_error + unit) \<times> db" where
  "MarkServerRunsUnknown flt sid at d = tx d (stmt flt 0 ErrStore (stmt flt 1 ErrStore
     (let p = (\<lambda>r. tr_server r = Some sid \<and> active_state (tr_state r));
          rids = map tr_id (filter p (db_runs d));
          d1 = set_runs p (\<lambda>r. r\<lparr>tr_state := Unknown, tr_gone := False, tr_updated_at := at\<rparr>) d
      in case append_unknown flt 3 at rids d1 of
           Inl e \<Rightarrow> Inl e
         | Inr d2 \<Rightarrow> stmt flt 2 ErrStore (Inr ((), d2)))))"

text \<open>
  \<^verbatim>\<open>ReconcileRunning\<close>. Statements: 0 begin, 1 select, 2 commit; the \<open>i\<close>-th candidate uses
  \<open>3 + 8 * i\<close> onwards: two of the usage sample, the revival and its event, the release, the
  confirmation and its event.
\<close>

definition active_token :: "running_report \<Rightarrow> ident \<Rightarrow> running_process option" where
  "active_token rep rid = row_by rp_run rid (rev (rr_processes rep))"

definition revive_run :: "time \<Rightarrow> run_row \<Rightarrow> run_row" where
  "revive_run at r = r\<lparr>tr_state := Running, tr_gone := False, tr_updated_at := at\<rparr>"

definition confirm_gone :: "time \<Rightarrow> run_row \<Rightarrow> run_row" where
  "confirm_gone at r = r\<lparr>tr_state := Unknown, tr_gone := True, tr_updated_at := at\<rparr>"

definition reconcile_absent ::
  "faults \<Rightarrow> nat \<Rightarrow> running_report \<Rightarrow> time \<Rightarrow> run_row \<Rightarrow> db \<Rightarrow> store_error + db" where
  "reconcile_absent flt k rep at item d =
     (let rid = tr_id item in
      if \<not> rr_authoritative rep then Inr d
      else stmt flt (k + 4) ErrStore
        (let d1 = release_leases rid at d in
         if tr_gone item then Inr d1
         else stmt flt (k + 5) ErrStore
           (let d2 = set_runs (\<lambda>r. tr_id r = rid) (confirm_gone at) d1 in
            stmt flt (k + 6) ErrStore
              (Inr (append_event rid ''run.process_absent'' Unknown
                     (message_payload MsgProcessAbsent) at d2)))))"

definition reconcile_item ::
  "faults \<Rightarrow> nat \<Rightarrow> running_report \<Rightarrow> time \<Rightarrow> run_row \<Rightarrow> db \<Rightarrow> store_error + db" where
  "reconcile_item flt k rep at item d =
     (let rid = tr_id item in
      case active_token rep rid of
        Some proc \<Rightarrow>
          if rp_token proc = token_of item then
            (case saveRunUsage flt k rid (rp_usage proc) d of
               Inl e \<Rightarrow> Inl e
             | Inr d1 \<Rightarrow> stmt flt (k + 2) ErrStore
                 (let d2 = set_runs (\<lambda>r. tr_id r = rid) (revive_run at) d1 in
                  if tr_state item \<noteq> Running
                  then stmt flt (k + 3) ErrStore (Inr (append_event rid ''run.reconciled'' Running
                         (message_payload MsgReconciled) at d2))
                  else Inr d2))
          else reconcile_absent flt k rep at item d
      | None \<Rightarrow> reconcile_absent flt k rep at item d)"

fun reconcile_items ::
  "faults \<Rightarrow> nat \<Rightarrow> running_report \<Rightarrow> time \<Rightarrow> run_row list \<Rightarrow> db \<Rightarrow> store_error + db" where
  "reconcile_items flt k rep at [] d = Inr d"
| "reconcile_items flt k rep at (item # items) d =
     (case reconcile_item flt k rep at item d of
        Inl e \<Rightarrow> Inl e
      | Inr d1 \<Rightarrow> reconcile_items flt (k + 8) rep at items d1)"

definition ReconcileRunning ::
  "faults \<Rightarrow> running_report \<Rightarrow> time \<Rightarrow> db \<Rightarrow> (store_error + unit) \<times> db" where
  "ReconcileRunning flt rep at d = tx d (stmt flt 0 ErrStore (stmt flt 1 ErrStore
     (case reconcile_items flt 3 rep at
             (filter (\<lambda>r. tr_server r = Some (rr_server rep) \<and>
                (active_state (tr_state r) \<or> tr_state r = Unknown)) (db_runs d)) d of
        Inl e \<Rightarrow> Inl e
      | Inr d1 \<Rightarrow> stmt flt 2 ErrStore (Inr ((), d1)))))"

section \<open>Retries\<close>

text \<open>
  \<^verbatim>\<open>retryRun\<close>. Statements: 0 begin, 1 read the root, 2 advisory lock, 3 definition enabled,
  4 lock the run, 5 automatic eligibility, 6 release the lease, 7 look for a successor, 8 commit
  with the successor, 9 insert the retry, 10 secret references, 11 event, 12 commit.
\<close>

definition root_of :: "run_row \<Rightarrow> ident" where
  "root_of r = (case tr_retry_of r of None \<Rightarrow> tr_id r | Some p \<Rightarrow> p)"

definition auto_intent :: "db \<Rightarrow> ident \<Rightarrow> bool" where
  "auto_intent d rid \<longleftrightarrow>
     list_ex (\<lambda>e. er_run e = rid \<and> pl_auto_retry (er_payload e) \<and>
        (er_type e = ''run.failed'' \<or> er_type e = ''run.timed_out'')) (db_events d) \<and>
     \<not> list_ex (\<lambda>e. er_run e = rid \<and> er_type e = ''run.cancel_requested'') (db_events d)"

definition successor_less :: "run_row \<Rightarrow> run_row \<Rightarrow> bool" where
  "successor_less a b =
     (if tr_attempt a \<noteq> tr_attempt b then tr_attempt a < tr_attempt b
      else if tr_created_at a \<noteq> tr_created_at b then tr_created_at a < tr_created_at b
      else tr_id a < tr_id b)"

definition successors :: "db \<Rightarrow> run_row \<Rightarrow> run_row list" where
  "successors d r = slice_stable successor_less
     (filter (\<lambda>c. tr_retry_of c = Some (root_of r) \<and> tr_attempt c > tr_attempt r) (db_runs d))"

definition retry_row :: "ident \<Rightarrow> time \<Rightarrow> run_row \<Rightarrow> run_row" where
  "retry_row fresh at r =
     \<lparr>tr_id = fresh, tr_def = tr_def r, tr_version = tr_version r, tr_spec = tr_spec r,
      tr_requested_by = tr_requested_by r, tr_trigger = TriggerRetry, tr_state = Queued,
      tr_server = None, tr_token = None, tr_gone = False, tr_scheduled_for = None,
      tr_queued_at = max at ((case tr_finished_at r of None \<Rightarrow> tr_updated_at r | Some t \<Rightarrow> t)
                              + sp_backoff (tr_spec r) * second),
      tr_assigned_at = None, tr_started_at = None, tr_finished_at = None, tr_exit_code = None,
      tr_attempt = tr_attempt r + 1, tr_retry_of = Some (root_of r), tr_summary = Text [],
      tr_dispatch_attempts = 0, tr_last_dispatch = None, tr_dispatch_error = Text [],
      tr_created_at = at, tr_updated_at = at\<rparr>"

definition queued_secret_refs :: "db \<Rightarrow> ident \<Rightarrow> labels option" where
  "queued_secret_refs d rid =
     (case slice_stable (\<lambda>a b. er_seq a < er_seq b)
             (filter (\<lambda>e. er_run e = rid \<and> er_type e = ''run.queued'') (db_events d)) of
        [] \<Rightarrow> None
      | e # _ \<Rightarrow> pl_secret_refs (er_payload e))"

definition retry_payload :: "ident \<Rightarrow> labels \<Rightarrow> payload" where
  "retry_payload rid refs = (message_payload MsgRetryQueued)\<lparr>pl_retry_of := Some rid,
     pl_secret_refs := Some refs\<rparr>"

definition retryable :: "run_row \<Rightarrow> bool" where
  "retryable r \<longleftrightarrow> sp_idempotent (tr_spec r) \<and> tr_gone r \<and>
     \<not> tr_attempt r > sp_max_retries (tr_spec r) \<and>
     \<not> (tr_state r \<noteq> Failed \<and> tr_state r \<noteq> TimedOut \<and> tr_state r \<noteq> Cancelled \<and> tr_state r \<noteq> Unknown)"

definition retry_insert ::
  "faults \<Rightarrow> ident \<Rightarrow> ident \<Rightarrow> time \<Rightarrow> def_row \<Rightarrow> run_row \<Rightarrow> db \<Rightarrow> store_error + (ident \<times> db)" where
  "retry_insert flt fresh rid at df r d1 = stmt flt 7 ErrStore
     (case successors d1 r of
        c # _ \<Rightarrow> stmt flt 8 ErrStore (Inr (tr_id c, d1))
      | [] \<Rightarrow> stmt flt 9 ErrStore
          (if run_row_of d1 fresh \<noteq> None then Inl ErrStore
           else (let d2 = d1\<lparr>db_runs := db_runs d1 @ [retry_row fresh at r]\<rparr>;
                     refs = (case queued_secret_refs d2 rid of
                               None \<Rightarrow> df_secret_refs df | Some s \<Rightarrow> s)
             in stmt flt 10 ErrStore (stmt flt 11 ErrStore (stmt flt 12 ErrStore
                  (Inr (fresh, append_event fresh ''run.queued'' Queued
                          (retry_payload rid refs) at d2)))))))"

definition retryRun ::
  "faults \<Rightarrow> ident \<Rightarrow> ident \<Rightarrow> time \<Rightarrow> bool \<Rightarrow> db \<Rightarrow> (store_error + ident) \<times> db" where
  "retryRun flt fresh rid at automatic d = tx d (stmt flt 0 ErrStore (stmt flt 1 ErrStore
     (case run_row_of d rid of
        None \<Rightarrow> Inl ErrRunNotFound
      | Some r \<Rightarrow> stmt flt 2 ErrStore (stmt flt 3 ErrStore
          (case row_by df_id (tr_def r) (db_defs d) of
             None \<Rightarrow> Inl ErrStore
           | Some df \<Rightarrow>
               if \<not> df_enabled df then Inl ErrRunNotRetryable
               else stmt flt 4 ErrStore
                 (if \<not> retryable r then Inl ErrRunNotRetryable
                  else (if automatic then stmt flt 5 ErrStore else id)
                    (if automatic \<and> (\<not> auto_intent d rid \<or> (tr_state r \<noteq> Failed \<and> tr_state r \<noteq> TimedOut))
                     then Inl ErrRunNotRetryable
                     else stmt flt 6 ErrStore
                       (retry_insert flt fresh rid at df r (release_leases rid at d)))))))))"

definition retry_due :: "db \<Rightarrow> run_row \<Rightarrow> bool" where
  "retry_due d r \<longleftrightarrow>
     (tr_state r = Failed \<or> tr_state r = TimedOut) \<and> sp_idempotent (tr_spec r) \<and> tr_gone r \<and>
     tr_attempt r \<le> sp_max_retries (tr_spec r) \<and>
     (case row_by df_id (tr_def r) (db_defs d) of None \<Rightarrow> False | Some df \<Rightarrow> df_enabled df) \<and>
     auto_intent d (tr_id r) \<and>
     \<not> list_ex (\<lambda>c. tr_retry_of c = Some (root_of r) \<and> tr_attempt c > tr_attempt r) (db_runs d)"

text \<open>\<^verbatim>\<open>ORDER BY finished_at, id\<close>: a null sorts last.\<close>

definition finished_less :: "run_row \<Rightarrow> run_row \<Rightarrow> bool" where
  "finished_less a b =
     (case (tr_finished_at a, tr_finished_at b) of
        (Some s, Some t) \<Rightarrow> if s \<noteq> t then s < t else tr_id a < tr_id b
      | (Some s, None) \<Rightarrow> True
      | (None, Some t) \<Rightarrow> False
      | (None, None) \<Rightarrow> tr_id a < tr_id b)"

fun retry_each ::
  "(nat \<Rightarrow> faults) \<Rightarrow> (nat \<Rightarrow> ident) \<Rightarrow> nat \<Rightarrow> time \<Rightarrow> ident list \<Rightarrow> db \<Rightarrow> (store_error + unit) \<times> db" where
  "retry_each flt fresh k at [] d = (Inr (), d)"
| "retry_each flt fresh k at (rid # rids) d =
     (case retryRun (flt k) (fresh k) rid at True d of
        (Inl e, d1) \<Rightarrow>
          if e \<noteq> ErrRunNotRetryable \<and> e \<noteq> ErrRunNotFound then (Inl e, d1)
          else retry_each flt fresh (k + 1) at rids d1
      | (Inr _, d1) \<Rightarrow> retry_each flt fresh (k + 1) at rids d1)"

definition RetryFailed ::
  "(nat \<Rightarrow> faults) \<Rightarrow> (nat \<Rightarrow> ident) \<Rightarrow> time \<Rightarrow> db \<Rightarrow> (store_error + unit) \<times> db" where
  "RetryFailed flt fresh at d =
     (if flt 0 0 then (Inl ErrStore, d)
      else retry_each flt fresh 1 at
             (map tr_id (take 100 (slice_stable finished_less (filter (retry_due d) (db_runs d))))) d)"

section \<open>The reconciler\<close>

definition ServerOffline :: "faults \<Rightarrow> time \<Rightarrow> ident \<Rightarrow> db \<Rightarrow> (store_error + unit) \<times> db" where
  "ServerOffline flt now sid d =
     (if blank sid then (Inl ErrInvalidRunEvent, d) else MarkServerRunsUnknown flt sid now d)"

definition Reconcile :: "faults \<Rightarrow> time \<Rightarrow> running_report \<Rightarrow> db \<Rightarrow> (store_error + unit) \<times> db" where
  "Reconcile flt now rep d =
     (if blank (rr_server rep) then (Inl ErrInvalidRunEvent, d)
      else if list_ex (\<lambda>p. blank (rp_run p) \<or> blank (rp_token p)) (rr_processes rep)
      then (Inl ErrInvalidRunEvent, d)
      else ReconcileRunning flt
             (if is_zero_time (rr_reported rep) then rep\<lparr>rr_reported := now\<rparr> else rep) now d)"

definition Retry :: "faults \<Rightarrow> ident \<Rightarrow> time \<Rightarrow> ident \<Rightarrow> db \<Rightarrow> (store_error + ident) \<times> db" where
  "Retry flt fresh now rid d =
     (if blank rid then (Inl ErrRunNotRetryable, d) else retryRun flt fresh rid now False d)"

section \<open>Cancellation\<close>

text \<open>
  \<^verbatim>\<open>RunService.CancelRun\<close>. Statements: 0 begin, 1 lock, 2 update, 3 event, 4 commit. The
  cancel command that went out is returned beside the result: it is sent inside the transaction,
  before the event is stored. \<open>sender\<close> is \<open>None\<close> when no command channel is configured, and
  otherwise says whether the channel accepts the command.
\<close>

record cancel_command =
  cc_server :: ident
  cc_run :: ident
  cc_token :: string

definition cancel_queued_row :: "time \<Rightarrow> run_row \<Rightarrow> run_row" where
  "cancel_queued_row now r =
     r\<lparr>tr_state := Cancelled, tr_finished_at := Some now, tr_gone := True, tr_updated_at := now\<rparr>"

definition CancelRun :: "faults \<Rightarrow> (cancel_command \<Rightarrow> bool) option \<Rightarrow> time \<Rightarrow> ident \<Rightarrow> db \<Rightarrow>
    ((store_error + unit) \<times> db) \<times> cancel_command option" where
  "CancelRun flt sender now rid d =
     (case (if flt 0 \<or> flt 1 then Inl ErrStore
            else (case run_row_of d rid of None \<Rightarrow> Inl ErrRunNotFound | Some r \<Rightarrow> Inr r)) of
        Inl e \<Rightarrow> ((Inl e, d), None)
      | Inr r \<Rightarrow>
          if tr_state r = Queued then
            (tx d (stmt flt 2 ErrStore (stmt flt 3 ErrStore (stmt flt 4 ErrStore
               (Inr ((), append_event rid ''run.cancelled'' Cancelled
                  (message_payload MsgQueuedCancelled) now
                  (set_runs (\<lambda>r. tr_id r = rid) (cancel_queued_row now) d)))))), None)
          else if tr_state r \<noteq> Assigned \<and> tr_state r \<noteq> Syncing \<and> tr_state r \<noteq> Running
          then ((Inl ErrRunNotCancellable, d), None)
          else
            (let sid = (case tr_server r of None \<Rightarrow> [] | Some s \<Rightarrow> s);
                 cmd = \<lparr>cc_server = sid, cc_run = rid, cc_token = token_of r\<rparr>
             in case sender of
                  None \<Rightarrow> ((Inl ErrRunCommandUnavailable, d), None)
                | Some send \<Rightarrow>
                    if sid = [] \<or> token_of r = [] \<or> \<not> send cmd
                    then ((Inl ErrRunCommandUnavailable, d), None)
                    else
                      (tx d (stmt flt 3 ErrStore (stmt flt 4 ErrStore
                         (Inr ((), append_event rid ''run.cancel_requested'' (tr_state r)
                            (message_payload MsgCancelRequested) now d)))), Some cmd)))"

end
