(* ===== verification/Utf8.thy ===== *)
theory Utf8
  imports Go_Prelude
begin

text \<open>
  Runes and UTF-8 as Go's \<^verbatim>\<open>unicode/utf8\<close> defines them: decoding with the replacement
  character for a malformed byte, encoding, and counting. Used for texts that are cut or checked
  by runes (\<^verbatim>\<open>internal/dispatch/postgres.go\<close>, \<^verbatim>\<open>internal/agentprotocol/artifact.go\<close>).
\<close>

section \<open>Decoding and encoding\<close>

type_synonym rune = nat

definition rune_error :: rune where
  "rune_error = 65533"

definition byte_at :: "string \<Rightarrow> nat \<Rightarrow> nat" where
  "byte_at s i = (if i < length s then of_char (s ! i) else 0)"

definition cont :: "nat \<Rightarrow> bool" where
  "cont b \<longleftrightarrow> 128 \<le> b \<and> b \<le> 191"

text \<open>The range of the second byte of a three- or four-byte sequence depends on the first.\<close>

definition second_ok :: "nat \<Rightarrow> nat \<Rightarrow> bool" where
  "second_ok b0 b1 \<longleftrightarrow> cont b1 \<and> (b0 = 224 \<longrightarrow> 160 \<le> b1) \<and> (b0 = 237 \<longrightarrow> b1 \<le> 159) \<and>
     (b0 = 240 \<longrightarrow> 144 \<le> b1) \<and> (b0 = 244 \<longrightarrow> b1 \<le> 143)"

definition decode_rune :: "string \<Rightarrow> rune \<times> nat" where
  "decode_rune s =
     (if s = [] then (rune_error, 0)
      else
        (let b0 = byte_at s 0; b1 = byte_at s 1; b2 = byte_at s 2; b3 = byte_at s 3 in
         if b0 < 128 then (b0, 1)
         else if 194 \<le> b0 \<and> b0 \<le> 223 \<and> cont b1 then ((b0 - 192) * 64 + (b1 - 128), 2)
         else if 224 \<le> b0 \<and> b0 \<le> 239 \<and> second_ok b0 b1 \<and> cont b2
         then ((b0 - 224) * 4096 + (b1 - 128) * 64 + (b2 - 128), 3)
         else if 240 \<le> b0 \<and> b0 \<le> 244 \<and> second_ok b0 b1 \<and> cont b2 \<and> cont b3
         then ((b0 - 240) * 262144 + (b1 - 128) * 4096 + (b2 - 128) * 64 + (b3 - 128), 4)
         else (rune_error, 1)))"

definition scalar :: "rune \<Rightarrow> bool" where
  "scalar r \<longleftrightarrow> r < 55296 \<or> 57344 \<le> r \<and> r < 1114112"

definition encode_scalar :: "rune \<Rightarrow> string" where
  "encode_scalar r =
     (if r < 128 then [char_of r]
      else if r < 2048 then [char_of (192 + r div 64), char_of (128 + r mod 64)]
      else if r < 65536
      then [char_of (224 + r div 4096), char_of (128 + r div 64 mod 64), char_of (128 + r mod 64)]
      else [char_of (240 + r div 262144), char_of (128 + r div 4096 mod 64),
            char_of (128 + r div 64 mod 64), char_of (128 + r mod 64)])"

definition encode_rune :: "rune \<Rightarrow> string" where
  "encode_rune r = encode_scalar (if scalar r then r else rune_error)"

lemma decode_size: "s \<noteq> [] \<Longrightarrow> 1 \<le> snd (decode_rune s) \<and> snd (decode_rune s) \<le> 4"
  by (simp add: decode_rune_def Let_def)

function runes_of :: "string \<Rightarrow> rune list" where
  "runes_of s = (if s = [] then [] else fst (decode_rune s) # runes_of (drop (snd (decode_rune s)) s))"
  by pat_completeness auto
termination
proof (relation "measure length")
  fix s :: string
  assume "s \<noteq> []"
  then show "(drop (snd (decode_rune s)) s, s) \<in> measure length"
    using decode_size [of s] by (cases s) auto
qed simp

declare runes_of.simps [simp del]

definition rune_count :: "string \<Rightarrow> nat" where
  "rune_count s = length (runes_of s)"

definition string_of_runes :: "rune list \<Rightarrow> string" where
  "string_of_runes rs = concat (map encode_rune rs)"

section \<open>Round trip\<close>

lemma byte_at_less: "byte_at s i < 256"
  by (simp add: byte_at_def)

lemma scalar_three:
  fixes x y z :: nat
  assumes "x < 16" "y < 64" "z < 64" "x = 13 \<longrightarrow> y < 32"
  shows "scalar (x * 4096 + y * 64 + z)"
proof -
  consider "x < 13" | "x = 13" | "13 < x" by linarith
  then show ?thesis using assms by cases (simp_all add: scalar_def)
qed

lemma scalar_four:
  fixes x y z w :: nat
  assumes "x \<le> 4" "y < 64" "z < 64" "w < 64" "x = 4 \<longrightarrow> y < 16" "x = 0 \<longrightarrow> 16 \<le> y"
  shows "scalar (x * 262144 + y * 4096 + z * 64 + w)"
proof -
  have "57344 \<le> x * 262144 + y * 4096" using assms by (cases "x = 0") simp_all
  moreover have "x * 262144 + y * 4096 + z * 64 + w < 1114112" using assms by (cases "x = 4") simp_all
  ultimately show ?thesis by (simp add: scalar_def)
qed

lemma decode_scalar: "scalar (fst (decode_rune s))"
proof -
  define b0 b1 b2 b3 where "b0 = byte_at s 0" and "b1 = byte_at s 1" and "b2 = byte_at s 2" and "b3 = byte_at s 3"
  have one: "scalar b0" if "b0 < 128" using that by (simp add: scalar_def)
  have two: "scalar ((b0 - 192) * 64 + (b1 - 128))" if "194 \<le> b0" "b0 \<le> 223" "cont b1"
    using that scalar_three [of 0 "b0 - 192" "b1 - 128"] by (auto simp: cont_def)
  have three: "scalar ((b0 - 224) * 4096 + (b1 - 128) * 64 + (b2 - 128))"
    if "224 \<le> b0" "b0 \<le> 239" "second_ok b0 b1" "cont b2"
    using that by (intro scalar_three) (auto simp: cont_def second_ok_def)
  have four: "scalar ((b0 - 240) * 262144 + (b1 - 128) * 4096 + (b2 - 128) * 64 + (b3 - 128))"
    if "240 \<le> b0" "b0 \<le> 244" "second_ok b0 b1" "cont b2" "cont b3"
    using that by (intro scalar_four) (auto simp: cont_def second_ok_def)
  have err: "scalar rune_error" by (simp add: scalar_def rune_error_def)
  show ?thesis
    unfolding decode_rune_def Let_def b0_def [symmetric] b1_def [symmetric] b2_def [symmetric] b3_def [symmetric]
    using one two three four err by (simp split: if_split)
qed

lemma byte_at_Cons [simp]: "byte_at (c # s) 0 = of_char c" "byte_at (c # s) (Suc i) = byte_at s i"
  by (simp_all add: byte_at_def)

lemma of_char_of: "n < 256 \<Longrightarrow> of_char (char_of n :: char) = (n :: nat)"
  by simp

lemma byte_at_2: "byte_at s 1 = byte_at (tl s) 0" "byte_at s 2 = byte_at (tl (tl s)) 0"
  "byte_at s 3 = byte_at (tl (tl (tl s))) 0"
  by (cases s; cases "tl s"; cases "tl (tl s)"; simp add: byte_at_def numeral_2_eq_2 numeral_3_eq_3)+

lemma base64_split:
  fixes r :: nat
  shows "r = r div 4096 * 4096 + r div 64 mod 64 * 64 + r mod 64"
    "r = r div 262144 * 262144 + r div 4096 mod 64 * 4096 + r div 64 mod 64 * 64 + r mod 64"
proof -
  define a where "a = r div 64"
  define b where "b = a div 64"
  define c where "c = b div 64"
  have e: "r div 4096 = b" "r div 262144 = c" by (simp_all add: a_def b_def c_def flip: div_mult2_eq)
  have "r = a * 64 + r mod 64" "a = b * 64 + a mod 64" "b = c * 64 + b mod 64"
    by (simp_all add: a_def b_def c_def)
  then show "r = r div 4096 * 4096 + r div 64 mod 64 * 64 + r mod 64"
    "r = r div 262144 * 262144 + r div 4096 mod 64 * 4096 + r div 64 mod 64 * 64 + r mod 64"
    unfolding e a_def [symmetric] by linarith+
qed

lemma decode_encode:
  assumes "scalar r"
  shows "decode_rune (encode_scalar r @ s) = (r, length (encode_scalar r))"
proof -
  consider "r < 128" | "128 \<le> r" "r < 2048" | "2048 \<le> r" "r < 65536" | "65536 \<le> r" "r < 1114112"
    using assms by (fastforce simp: scalar_def)
  then show ?thesis
  proof cases
    case 1
    then show ?thesis by (simp add: encode_scalar_def decode_rune_def)
  next
    case 2
    then have b: "r div 64 < 32" "2 \<le> r div 64" by auto
    then show ?thesis
      using 2 by (simp add: encode_scalar_def decode_rune_def byte_at_2 cont_def Let_def)
  next
    case 3
    define p q where "p = r div 4096" and "q = r div 64 mod 64"
    have r: "r = p * 4096 + q * 64 + r mod 64" unfolding p_def q_def by (rule base64_split)
    have b: "p < 16" "q < 64" using 3 by (auto simp: p_def q_def)
    have "p = 0 \<longrightarrow> 32 \<le> q" "p = 13 \<longrightarrow> q \<le> 31" "r mod 64 \<le> 63" "q \<le> 63"
      using 3 assms r b by (auto simp: scalar_def intro: less_Suc_eq_le [THEN iffD1])
    then show ?thesis
      using 3 b r by (simp add: encode_scalar_def decode_rune_def byte_at_2 cont_def second_ok_def Let_def
          p_def [symmetric] q_def [symmetric])
  next
    case 4
    define p q t where "p = r div 262144" and "q = r div 4096 mod 64" and "t = r div 64 mod 64"
    have r: "r = p * 262144 + q * 4096 + t * 64 + r mod 64" unfolding p_def q_def t_def by (rule base64_split)
    have b: "p \<le> 4" "q < 64" "t < 64" using 4 by (auto simp: p_def q_def t_def)
    have "p = 0 \<longrightarrow> 16 \<le> q" "p = 4 \<longrightarrow> q \<le> 15" "r mod 64 \<le> 63" "q \<le> 63" "t \<le> 63"
      using 4 r b by (auto intro: less_Suc_eq_le [THEN iffD1])
    then show ?thesis
      using 4 b r by (simp add: encode_scalar_def decode_rune_def byte_at_2 cont_def second_ok_def Let_def
          p_def [symmetric] q_def [symmetric] t_def [symmetric])
  qed
qed

lemma encode_scalar_nonempty [simp]: "encode_scalar r \<noteq> []"
  by (simp add: encode_scalar_def)

lemma runes_of_string: "list_all scalar rs \<Longrightarrow> runes_of (string_of_runes rs) = rs"
proof (induction rs)
  case (Cons r rs)
  then have e: "string_of_runes (r # rs) = encode_scalar r @ string_of_runes rs"
    by (simp add: string_of_runes_def encode_rune_def)
  show ?case
    unfolding e using Cons decode_encode [of r "string_of_runes rs"] by (subst runes_of.simps) simp
qed (simp add: string_of_runes_def runes_of.simps)

lemma runes_scalar: "list_all scalar (runes_of s)"
proof (induction s rule: runes_of.induct)
  case (1 s)
  then show ?case by (subst runes_of.simps) (simp add: decode_scalar)
qed

end
