(* ===== verification/Go_Path.thy ===== *)
theory Go_Path
  imports Utf8
begin

text \<open>
  Slash-separated paths as Go's \<^verbatim>\<open>path\<close> package treats them: \<^verbatim>\<open>Clean\<close>, \<^verbatim>\<open>Join\<close> and
  the file name patterns of \<^verbatim>\<open>Match\<close>. The dispatcher builds script paths with them
  (\<^verbatim>\<open>internal/dispatch/service.go\<close>) and the artifact policy matches file names
  (\<^verbatim>\<open>internal/agentprotocol/artifact.go\<close>).
\<close>

section \<open>Clean and Join\<close>

abbreviation slash :: char where
  "slash \<equiv> CHR ''/''"

fun join_slash :: "string list \<Rightarrow> string" where
  "join_slash [] = []"
| "join_slash [c] = c"
| "join_slash (c # d # cs) = c @ slash # join_slash (d # cs)"

text \<open>Elements are read from the left; \<open>st\<close> holds the ones kept, last first.\<close>

fun normal_elements :: "bool \<Rightarrow> string list \<Rightarrow> string list \<Rightarrow> string list" where
  "normal_elements rooted st [] = rev st"
| "normal_elements rooted st (c # cs) =
     (if c = [] \<or> c = ''.'' then normal_elements rooted st cs
      else if c = ''..''
      then (case st of
              [] \<Rightarrow> normal_elements rooted (if rooted then [] else [''..'']) cs
            | t # ts \<Rightarrow> normal_elements rooted (if t = ''..'' then ''..'' # st else ts) cs)
      else normal_elements rooted (c # st) cs)"

definition is_abs :: "string \<Rightarrow> bool" where
  "is_abs p \<longleftrightarrow> p \<noteq> [] \<and> hd p = slash"

definition path_clean :: "string \<Rightarrow> string" where
  "path_clean p =
     (let body = join_slash (normal_elements (is_abs p) [] (split_on slash p))
      in if is_abs p then slash # body else if body = [] then ''.'' else body)"

definition path_join :: "string list \<Rightarrow> string" where
  "path_join es =
     (let ne = filter (\<lambda>e. e \<noteq> []) es in if ne = [] then [] else path_clean (join_slash ne))"

section \<open>Patterns\<close>

text \<open>A pattern is a list of matchers; \<open>None\<close> is \<^verbatim>\<open>ErrBadPattern\<close>. A class holds its ranges of
  runes.\<close>

datatype matcher = MStar | MAny | MClass bool "(rune \<times> rune) list" | MByte char

definition get_esc :: "string \<Rightarrow> (rune \<times> string) option" where
  "get_esc s =
     (case s of
        [] \<Rightarrow> None
      | c # cs \<Rightarrow>
          if c = CHR ''-'' \<or> c = CHR '']'' then None
          else (let t = (if c = CHR 0x5C then cs else s) in
                if t = [] then None
                else (case decode_rune t of
                        (r, n) \<Rightarrow>
                          if r = rune_error \<and> n = 1 then None
                          else if drop n t = [] then None
                          else Some (r, drop n t))))"

lemma get_esc_shorter: "get_esc s = Some (r, t) \<Longrightarrow> length t < length s"
  using decode_size [of s] decode_size [of "tl s"]
  by (cases s) (auto simp: get_esc_def Let_def split: if_splits prod.splits)

function class_ranges :: "bool \<Rightarrow> string \<Rightarrow> ((rune \<times> rune) list \<times> string) option" where
  "class_ranges seen s =
     (if seen \<and> s \<noteq> [] \<and> hd s = CHR '']'' then Some ([], tl s)
      else (case get_esc s of
              None \<Rightarrow> None
            | Some (lo, t) \<Rightarrow>
                if t \<noteq> [] \<and> hd t = CHR ''-''
                then (case get_esc (tl t) of
                        None \<Rightarrow> None
                      | Some (hi, u) \<Rightarrow> map_option (map_prod ((#) (lo, hi)) id) (class_ranges True u))
                else map_option (map_prod ((#) (lo, lo)) id) (class_ranges True t)))"
  by pat_completeness auto
termination
proof (relation "measure (\<lambda>(seen, s). length s)", goal_cases)
  case (2 seen s x lo t xa hi u)
  then show ?case using get_esc_shorter [of s lo t] get_esc_shorter [of "tl t" hi u] by (cases t) auto
next
  case (3 seen s x lo t)
  then show ?case using get_esc_shorter [of s lo t] by auto
qed simp

declare class_ranges.simps [simp del]

lemma class_ranges_shorter: "class_ranges seen s = Some (rs, t) \<Longrightarrow> length t < length s"
proof (induction seen s arbitrary: rs t rule: class_ranges.induct)
  case (1 seen s)
  show ?case
  proof (cases "seen \<and> s \<noteq> [] \<and> hd s = CHR '']''")
    case True
    then show ?thesis using 1(3) by (subst (asm) class_ranges.simps) (cases s; auto)
  next
    case False
    obtain lo u where g: "get_esc s = Some (lo, u)"
      using False 1(3) by (subst (asm) class_ranges.simps) (auto split: option.splits)
    show ?thesis
    proof (cases "u \<noteq> [] \<and> hd u = CHR ''-''")
      case True
      then obtain hi v rs' where h: "get_esc (tl u) = Some (hi, v)" "class_ranges True v = Some (rs', t)"
        using False g 1(3) by (subst (asm) class_ranges.simps) (auto split: option.splits)
      have "length t < length v" using 1(1) [OF False g refl True h(1) refl h(2)] .
      then show ?thesis using get_esc_shorter [OF g] get_esc_shorter [OF h(1)] by auto
    next
      case nodash: False
      have "class_ranges seen s = map_option (map_prod ((#) (lo, lo)) id) (class_ranges True u)"
        unfolding class_ranges.simps [of seen s] g if_not_P [OF False] using nodash by auto
      then obtain rs' where h: "class_ranges True u = Some (rs', t)"
        using 1(3) by (cases "class_ranges True u") auto
      have "length t < length u" using 1(2) [OF False g refl nodash h] .
      then show ?thesis using get_esc_shorter [OF g] by auto
    qed
  qed
qed

function parse_pattern :: "string \<Rightarrow> matcher list option" where
  "parse_pattern s =
     (case s of
        [] \<Rightarrow> Some []
      | c # cs \<Rightarrow>
          if c = CHR ''*'' then map_option ((#) MStar) (parse_pattern cs)
          else if c = CHR ''?'' then map_option ((#) MAny) (parse_pattern cs)
          else if c = CHR ''[''
          then (let neg = (cs \<noteq> [] \<and> hd cs = CHR ''^'') in
                case class_ranges False (if neg then tl cs else cs) of
                  None \<Rightarrow> None
                | Some (rs, t) \<Rightarrow> map_option ((#) (MClass neg rs)) (parse_pattern t))
          else if c = CHR 0x5C
          then (case cs of [] \<Rightarrow> None | e # es \<Rightarrow> map_option ((#) (MByte e)) (parse_pattern es))
          else map_option ((#) (MByte c)) (parse_pattern cs))"
  by pat_completeness auto
termination
proof (relation "measure length", goal_cases)
  case (4 s c cs neg x rs t)
  then show ?case
    using class_ranges_shorter [of False "if neg then tl cs else cs" rs t]
    by (cases cs) (auto split: if_splits)
qed auto

declare parse_pattern.simps [simp del]

definition in_class :: "bool \<Rightarrow> (rune \<times> rune) list \<Rightarrow> rune \<Rightarrow> bool" where
  "in_class neg rs r \<longleftrightarrow> list_ex (\<lambda>(lo, hi). lo \<le> r \<and> r \<le> hi) rs \<noteq> neg"

function match_list :: "matcher list \<Rightarrow> string \<Rightarrow> bool" where
  "match_list [] s = (s = [])"
| "match_list (MStar # ms) s =
     (match_list ms s \<or>
      (case s of [] \<Rightarrow> False | c # t \<Rightarrow> c \<noteq> slash \<and> match_list (MStar # ms) t))"
| "match_list (MAny # ms) s =
     (s \<noteq> [] \<and> hd s \<noteq> slash \<and> match_list ms (drop (snd (decode_rune s)) s))"
| "match_list (MClass neg rs # ms) s =
     (s \<noteq> [] \<and> in_class neg rs (fst (decode_rune s)) \<and> match_list ms (drop (snd (decode_rune s)) s))"
| "match_list (MByte c # ms) s = (s \<noteq> [] \<and> hd s = c \<and> match_list ms (tl s))"
  by pat_completeness auto
termination
  by (relation "measures [\<lambda>(ms, s). length ms, \<lambda>(ms, s). length s]") auto

definition path_match :: "string \<Rightarrow> string \<Rightarrow> bool option" where
  "path_match pat name = map_option (\<lambda>ms. match_list ms name) (parse_pattern pat)"

section \<open>Clean paths\<close>

text \<open>An element that \<^verbatim>\<open>Clean\<close> keeps as it is.\<close>

definition plain :: "string \<Rightarrow> bool" where
  "plain c \<longleftrightarrow> c \<noteq> [] \<and> c \<noteq> ''.'' \<and> c \<noteq> ''..'' \<and> slash \<notin> set c"

lemma split_join: "cs \<noteq> [] \<Longrightarrow> \<forall>c \<in> set cs. slash \<notin> set c \<Longrightarrow> split_on slash (join_slash cs) = cs"
  by (induction cs rule: join_slash.induct) (auto simp: split_on_plain split_on_append)

lemma split_on_Cons_slash: "split_on slash (slash # s) = [] # split_on slash s"
  by simp

lemma join_slash_append:
  "cs \<noteq> [] \<Longrightarrow> ds \<noteq> [] \<Longrightarrow> join_slash (cs @ ds) = join_slash cs @ slash # join_slash ds"
  by (induction cs rule: join_slash.induct) (auto simp: neq_Nil_conv)

lemma normal_elements_plain:
  "\<forall>c \<in> set cs. plain c \<Longrightarrow> normal_elements rooted st cs = rev st @ cs"
  by (induction cs arbitrary: st) (auto simp: plain_def)

text \<open>What is kept: names, and in a relative path a run of \<^verbatim>\<open>..\<close> at its start.\<close>

definition kept :: "string list \<Rightarrow> bool" where
  "kept cs \<longleftrightarrow> (\<exists>n ds. cs = replicate n ''..'' @ ds \<and> (\<forall>c \<in> set ds. plain c))"

lemma kept_replicate: "kept (replicate n ''..'')"
  unfolding kept_def by (rule exI [of _ n], rule exI [of _ "[]"]) simp

lemma kept_snoc: "kept cs \<Longrightarrow> plain c \<Longrightarrow> kept (cs @ [c])"
  by (auto simp: kept_def) (metis append.assoc set_append set_ConsD Un_iff empty_set empty_iff)

lemma kept_dotdots:
  assumes "kept cs" "cs \<noteq> []" "last cs = ''..''"
  shows "\<exists>n. cs = replicate n ''..''"
proof -
  obtain n ds where d: "cs = replicate n ''..'' @ ds" "\<forall>c \<in> set ds. plain c"
    using assms(1) unfolding kept_def by blast
  have "ds = []"
  proof (rule ccontr)
    assume ne: "ds \<noteq> []"
    then have "last ds = ''..''" using d(1) assms(3) by simp
    moreover have "plain (last ds)" using d(2) ne by simp
    ultimately show False by (simp add: plain_def)
  qed
  then show ?thesis using d(1) by auto
qed

lemma kept_butlast: "kept cs \<Longrightarrow> cs \<noteq> [] \<Longrightarrow> last cs \<noteq> ''..'' \<Longrightarrow> kept (butlast cs)"
proof -
  assume k: "kept cs" "cs \<noteq> []" "last cs \<noteq> ''..''"
  then obtain n ds where d: "cs = replicate n ''..'' @ ds" "\<forall>c \<in> set ds. plain c" by (auto simp: kept_def)
  have "ds \<noteq> []"
  proof
    assume "ds = []"
    then have "cs = replicate n ''..''" "n \<noteq> 0" using d(1) k(2) by auto
    then show False using k(3) last_replicate [of n "''..''"] by simp
  qed
  then have "butlast cs = replicate n ''..'' @ butlast ds" using d(1) by (simp add: butlast_append)
  then show ?thesis using d(2) by (auto simp: kept_def dest: in_set_butlastD)
qed

lemma normal_elements_kept:
  "kept (rev st) \<Longrightarrow> \<forall>c \<in> set cs. slash \<notin> set c \<Longrightarrow> kept (normal_elements rooted st cs)"
proof (induction rooted st cs rule: normal_elements.induct)
  case (2 rooted st c cs)
  consider "c = [] \<or> c = ''.''" | "c = ''..''" | "plain c" using 2(6) by (auto simp: plain_def)
  then show ?case
  proof cases
    case 1
    then show ?thesis using 2 by auto
  next
    case 2
    have k0: "kept []" "kept [''..'']" by (auto simp: kept_def intro: exI [of _ 0] exI [of _ 1])
    show ?thesis
    proof (cases st)
      case Nil
      then show ?thesis using 2 "2.IH"(2) "2.prems" k0 by (auto split: if_splits)
    next
      case (Cons t ts)
      have "kept (rev (if t = ''..'' then ''..'' # st else ts))"
      proof (cases "t = ''..''")
        case True
        then obtain n where "rev st = replicate n ''..''"
          using kept_dotdots [of "rev st"] "2.prems"(1) Cons by auto
        then have "rev (''..'' # st) = replicate (Suc n) ''..''" by (simp add: replicate_append_same)
        then show ?thesis using True kept_replicate [of "Suc n"] by simp
      next
        case False
        then show ?thesis using kept_butlast [of "rev st"] "2.prems"(1) Cons by auto
      qed
      then show ?thesis using 2 Cons "2.IH"(3) [of t ts] "2.prems" by auto
    qed
  next
    case 3
    then show ?thesis using 2 kept_snoc [of "rev st" c] by (auto simp: plain_def)
  qed
qed simp

lemma clean_relative:
  assumes "path_clean p = p" "\<not> is_abs p" "p \<noteq> ''.''" "p \<noteq> ''..''" "\<not> prefix ''../'' p"
  shows "\<forall>c \<in> set (split_on slash p). plain c"
proof -
  let ?cs = "normal_elements False [] (split_on slash p)"
  have k: "kept ?cs"
    using split_on_no_sep [of _ slash p] by (intro normal_elements_kept) (auto simp: kept_def intro: exI [of _ 0])
  have j: "join_slash ?cs = p" using assms(1-3) by (auto simp: path_clean_def Let_def split: if_splits)
  have ne: "?cs \<noteq> []" using j assms(1) by (auto simp: path_clean_def Let_def is_abs_def)
  obtain n ds where d: "?cs = replicate n ''..'' @ ds" "\<forall>c \<in> set ds. plain c"
    using k unfolding kept_def by blast
  have ns: "\<forall>c \<in> set ?cs. slash \<notin> set c"
  proof
    fix c
    assume "c \<in> set ?cs"
    then have "c = ''..'' \<or> plain c" unfolding d(1) using d(2) by (metis Un_iff set_append in_set_replicate)
    then show "slash \<notin> set c" by (elim disjE) (simp_all add: plain_def)
  qed
  have n0: "n = 0"
  proof (cases n)
    case (Suc m)
    then obtain es where "?cs = ''..'' # es" using d(1) by simp
    then have "p = ''..'' \<or> prefix ''../'' p" using j by (cases es) (auto simp: prefix_def)
    then show ?thesis using assms(4,5) by blast
  qed simp
  have "split_on slash p = ?cs" using split_join [OF ne ns] j by simp
  then show ?thesis using d n0 by simp
qed

lemma path_join_plain:
  assumes "\<forall>c \<in> set (bs @ cs). plain c" "bs \<noteq> []" "cs \<noteq> []"
  shows "path_join [slash # join_slash bs, join_slash cs] = slash # join_slash (bs @ cs)"
proof -
  have ne: "join_slash cs \<noteq> []" using assms by (cases cs rule: join_slash.cases) (auto simp: plain_def)
  have j: "join_slash [slash # join_slash bs, join_slash cs] = slash # join_slash (bs @ cs)"
    using join_slash_append [of bs cs] assms by simp
  have s: "split_on slash (join_slash (bs @ cs)) = bs @ cs"
    using assms by (intro split_join) (auto simp: plain_def)
  have "normal_elements True [] (bs @ cs) = bs @ cs" using normal_elements_plain [OF assms(1)] by simp
  moreover have "split_on slash (join_slash bs @ slash # join_slash cs) = bs @ cs"
    using s join_slash_append [of bs cs] assms by simp
  ultimately show ?thesis using ne j by (simp add: path_join_def path_clean_def is_abs_def Let_def)
qed

end
