(* ===== verification/Artifact_Policy.thy ===== *)
theory Artifact_Policy
  imports Task_Model Go_Path
begin

text \<open>
  The policy for files that a run leaves behind (\<^verbatim>\<open>internal/agentprotocol/artifact.go\<close>):
  validation of the policy and the decision which file names it allows.
\<close>

definition MaxArtifactFileBytes :: int where
  "MaxArtifactFileBytes = 100 * 2 ^ 20"

definition MaxArtifactTotalBytes :: int where
  "MaxArtifactTotalBytes = 500 * 2 ^ 20"

definition glob_ok :: "string \<Rightarrow> bool" where
  "glob_ok pat \<longleftrightarrow>
     \<not> (pat = [] \<or> length pat > 128 \<or> pat \<noteq> trim_space pat \<or>
        list_ex (\<lambda>c. c = CHR ''/'' \<or> c = CHR 0x5C \<or> c = CHR 0x00 \<or> c = CHR 0x0D \<or> c = CHR 0x0A) pat \<or>
        prefix ''.'' pat) \<and>
     path_match pat ''probe.csv'' \<noteq> None"

definition policy_valid :: "artifact_policy option \<Rightarrow> bool" where
  "policy_valid p =
     (case p of
        None \<Rightarrow> True
      | Some q \<Rightarrow>
          if ap_globs q = [] \<or> length (ap_globs q) > 20 \<or> ap_max_file q \<le> 0 \<or>
             ap_max_file q > MaxArtifactFileBytes \<or> ap_max_total q < ap_max_file q \<or>
             ap_max_total q > MaxArtifactTotalBytes then False
          else list_all glob_ok (ap_globs q))"

text \<open>\<^verbatim>\<open>utf8.ValidString\<close> and \<^verbatim>\<open>unicode.IsControl\<close>.\<close>

function valid_utf8 :: "string \<Rightarrow> bool" where
  "valid_utf8 s =
     (if s = [] then True
      else if decode_rune s = (rune_error, 1) then False
      else valid_utf8 (drop (snd (decode_rune s)) s))"
  by pat_completeness auto
termination
proof (relation "measure length")
  fix s :: string
  assume "s \<noteq> []"
  then show "(drop (snd (decode_rune s)) s, s) \<in> measure length"
    using decode_size [of s] by (cases s) auto
qed simp

declare valid_utf8.simps [simp del]

definition is_control :: "rune \<Rightarrow> bool" where
  "is_control r \<longleftrightarrow> r < 32 \<or> 127 \<le> r \<and> r < 160"

definition policy_allows :: "artifact_policy option \<Rightarrow> string \<Rightarrow> bool" where
  "policy_allows p name =
     (case p of
        None \<Rightarrow> False
      | Some q \<Rightarrow>
          if name = [] \<or> length name > 255 \<or> \<not> valid_utf8 name \<or> name = ''.'' \<or> name = ''..'' \<or>
             prefix ''.'' name \<or> list_ex (\<lambda>c. c = CHR ''/'' \<or> c = CHR 0x5C) name \<or>
             list_ex is_control (runes_of name) then False
          else if name \<in> set [''systemd-run-spec.json'', ''systemd-exit-code'', ''stdout.log'', ''stderr.log'']
          then False
          else list_ex (\<lambda>pat. path_match pat name = Some True) (ap_globs q))"

section \<open>Properties\<close>

lemma plain_name: "slash \<notin> set name \<Longrightarrow> name \<noteq> [] \<Longrightarrow> \<not> prefix ''.'' name \<Longrightarrow> plain name"
  by (auto simp: plain_def)

text \<open>C10. A file name that a policy allows names an ordinary file directly inside the run's
  directory: joining it to any clean absolute directory gives that directory with the name
  appended, whatever the policy's patterns are.\<close>

theorem allowed_artifact_stays_inside:
  assumes "policy_allows p name" "bs \<noteq> []" "\<forall>b \<in> set bs. plain b"
  shows "path_join [slash # join_slash bs, name] = (slash # join_slash bs) @ slash # name"
proof -
  have "slash \<notin> set name" "name \<noteq> []" "\<not> prefix ''.'' name"
    using assms(1) by (auto simp: policy_allows_def list_ex_iff split: option.splits if_splits)
  then have "plain name" by (rule plain_name)
  then show ?thesis
    using path_join_plain [of bs "[name]"] join_slash_append [of bs "[name]"] assms by simp
qed

definition csv_policy :: artifact_policy where
  "csv_policy = \<lparr>ap_globs = [''*.csv''], ap_max_file = 1024, ap_max_total = 4096\<rparr>"

lemma csv_policy_allows: "policy_allows (Some csv_policy) ''a.csv''"
  by (simp add: policy_allows_def csv_policy_def path_match_def parse_pattern.simps valid_utf8.simps
      runes_of.simps decode_rune_def byte_at_def is_control_def rune_error_def)

theorem allowed_artifact_stays_inside_witness:
  "policy_allows (Some csv_policy) ''a.csv'' \<and>
   path_join [''/runs/r1'', ''a.csv''] = ''/runs/r1/a.csv''"
proof -
  have "\<forall>b \<in> set [''runs'', ''r1'']. plain b" by (simp add: plain_def)
  then show ?thesis
    using csv_policy_allows allowed_artifact_stays_inside [of "Some csv_policy" "''a.csv''" "[''runs'', ''r1'']"] by simp
qed

end
