(* ===== verification/Dispatch.thy ===== *)
theory Dispatch
  imports Run_Events Artifact_Policy
begin

text \<open>
  The dispatcher (\<^verbatim>\<open>internal/dispatch\<close>): claiming assigned runs, building the execution
  command, sending it to the agent, and recording what went wrong. The secret resolver and the
  command channel are Go interfaces and arguments here; \<open>None\<close> is a missing one. The environment
  of a command holds the two JSON documents as values: the maps they are marshalled from come from
  JSON columns, so the marshalling cannot fail.
\<close>

section \<open>Values\<close>

record dispatch_run =
  dr_artifacts :: "artifact_policy option"
  dr_artifacts_supported :: bool
  dr_id :: ident
  dr_token :: string
  dr_server :: ident
  dr_script :: ident
  dr_version :: ident
  dr_runtime :: string
  dr_entrypoint :: string
  dr_params :: params
  dr_secrets :: labels
  dr_resources :: resources
  dr_tasks_max :: int
  dr_timeout :: duration
  dr_attempt :: int
  dr_sync :: sync_state
  dr_verified :: bool

datatype env_value = EnvText string | EnvParams params | EnvSecrets labels

record assignment_command =
  ac_artifacts :: "artifact_policy option"
  ac_run :: ident
  ac_token :: string
  ac_version :: ident
  ac_runtime :: string
  ac_script_path :: string
  ac_arguments :: "string list"
  ac_environment :: "(string \<times> env_value) list"
  ac_resources :: resources
  ac_tasks_max :: int
  ac_timeout :: duration

definition DefaultBatchSize :: int where
  "DefaultBatchSize = 20"

definition DefaultRetryInterval :: duration where
  "DefaultRetryInterval = 10 * second"

definition DefaultTasksMax :: int where
  "DefaultTasksMax = 64"

section \<open>The store\<close>

text \<open>\<^verbatim>\<open>ORDER BY assigned_at NULLS FIRST, created_at, id\<close>.\<close>

definition claim_less :: "run_row \<Rightarrow> run_row \<Rightarrow> bool" where
  "claim_less a b =
     (case (tr_assigned_at a, tr_assigned_at b) of
        (None, Some _) \<Rightarrow> True
      | (Some _, None) \<Rightarrow> False
      | (x, y) \<Rightarrow>
          if x \<noteq> y then the x < the y
          else if tr_created_at a \<noteq> tr_created_at b then tr_created_at a < tr_created_at b
          else tr_id a < tr_id b)"

definition claimable :: "time \<Rightarrow> run_row \<Rightarrow> bool" where
  "claimable cutoff r \<longleftrightarrow> tr_state r = Assigned \<and> tr_token r \<noteq> None \<and> tr_server r \<noteq> None \<and>
     (case tr_last_dispatch r of None \<Rightarrow> True | Some t \<Rightarrow> t \<le> cutoff)"

definition claim_row :: "time \<Rightarrow> run_row \<Rightarrow> run_row" where
  "claim_row now r = r\<lparr>tr_dispatch_attempts := tr_dispatch_attempts r + 1, tr_last_dispatch := Some now,
     tr_dispatch_error := Text [], tr_updated_at := now\<rparr>"

definition claimed_run :: "db \<Rightarrow> run_row \<Rightarrow> dispatch_run option" where
  "claimed_run d r =
     (case (row_by df_id (tr_def r) (db_defs d), row_by vr_id (tr_version r) (db_versions d),
            Option.bind (tr_server r) (\<lambda>s. row_by sv_id s (db_servers d))) of
        (Some df, Some v, Some sv) \<Rightarrow>
          (let sync = sync_row_of d (sv_id sv) (tr_version r) in
           Some \<lparr>dr_artifacts = vr_artifacts v,
                 dr_artifacts_supported = (artifact_capability \<in> set (sv_capabilities sv)),
                 dr_id = tr_id r, dr_token = token_of r, dr_server = sv_id sv, dr_script = vr_script v,
                 dr_version = tr_version r, dr_runtime = sp_runtime (tr_spec r),
                 dr_entrypoint = vr_entrypoint v, dr_params = sp_params (tr_spec r),
                 dr_secrets = (case queued_secret_refs d (tr_id r) of None \<Rightarrow> df_secret_refs df | Some s \<Rightarrow> s),
                 dr_resources = sp_resources (tr_spec r), dr_tasks_max = 0,
                 dr_timeout = sp_timeout (tr_spec r) * second, dr_attempt = tr_dispatch_attempts r,
                 dr_sync = (case sync of None \<Rightarrow> SyncNone | Some y \<Rightarrow> sy_status y),
                 dr_verified = (case sync of None \<Rightarrow> False
                    | Some y \<Rightarrow> sy_status y = SyncReady \<and> sy_sha y = Some (vr_sha v))\<rparr>)
      | _ \<Rightarrow> None)"

text \<open>
  \<^verbatim>\<open>Claim\<close>. Statements: 0 begin, 1 the claiming query, 2 commit. \<open>locked\<close> holds for the rows
  that other transactions have locked, which \<^verbatim>\<open>SKIP LOCKED\<close> passes over.
\<close>

definition claim_rows :: "(ident \<Rightarrow> bool) \<Rightarrow> time \<Rightarrow> int \<Rightarrow> db \<Rightarrow> run_row list" where
  "claim_rows locked cutoff lim d = take (nat lim)
     (slice_stable claim_less (filter (\<lambda>r. claimable cutoff r \<and> \<not> locked (tr_id r)) (db_runs d)))"

definition Claim :: "faults \<Rightarrow> (ident \<Rightarrow> bool) \<Rightarrow> time \<Rightarrow> time \<Rightarrow> int \<Rightarrow> db \<Rightarrow>
    (store_error + dispatch_run list) \<times> db" where
  "Claim flt locked cutoff now lim d =
     (if lim \<le> 0 then (Inr [], d)
      else tx d (stmt flt 0 ErrStore (stmt flt 1 ErrStore
        (let rows = claim_rows locked cutoff lim d;
             d1 = set_runs (\<lambda>r. tr_id r \<in> tr_id ` set rows) (claim_row now) d
         in stmt flt 2 ErrStore
              (Inr (List.map_filter (claimed_run d1) (map (claim_row now) rows), d1))))))"

definition maxDispatchErrorRunes :: int where
  "maxDispatchErrorRunes = 1000"

definition truncateRunes :: "string \<Rightarrow> int \<Rightarrow> string" where
  "truncateRunes v lim =
     (if lim \<le> 0 \<or> int (rune_count v) \<le> lim then v
      else string_of_runes (take (nat lim) (runes_of v)))"

text \<open>The fixed messages are shorter than the limit.\<close>

definition truncate_message :: "message \<Rightarrow> message" where
  "truncate_message m = (case m of Text s \<Rightarrow> Text (truncateRunes s maxDispatchErrorRunes) | _ \<Rightarrow> m)"

definition RecordResult ::
  "faults \<Rightarrow> time \<Rightarrow> ident \<Rightarrow> string \<Rightarrow> message \<Rightarrow> db \<Rightarrow> (store_error + unit) \<times> db" where
  "RecordResult flt dbnow rid token err d = tx d (stmt flt 0 ErrStore
     (Inr ((), set_runs (\<lambda>r. tr_id r = rid \<and> tr_token r = Some token \<and> tr_state r = Assigned)
                 (\<lambda>r. r\<lparr>tr_dispatch_error := truncate_message err, tr_updated_at := dbnow\<rparr>) d)))"

section \<open>The command\<close>

type_synonym resolver = "(string list \<Rightarrow> labels option) option"

definition resolveSecretBindings :: "resolver \<Rightarrow> labels \<Rightarrow> labels option" where
  "resolveSecretBindings resolver bindings =
     (if bindings = [] then Some []
      else (case resolver of
              None \<Rightarrow> None
            | Some resolve \<Rightarrow>
                (let names = sort (map fst bindings);
                     ref = (\<lambda>n. trim_space (str_at bindings n))
                 in if list_ex (\<lambda>n. blank n \<or> ref n = []) names then None
                    else (case resolve (map ref names) of
                            None \<Rightarrow> None
                          | Some resolved \<Rightarrow>
                              if list_ex (\<lambda>n. map_of resolved (ref n) = None) names then None
                              else Some (map (\<lambda>n. (n, str_at resolved (ref n))) names)))))"

definition cache_root :: string where
  "cache_root = ''/var/lib/yunling-agent/script-cache/scripts''"

definition entrypoint_ok :: "string \<Rightarrow> bool" where
  "entrypoint_ok e \<longleftrightarrow>
     (let cleaned = path_clean e in
      \<not> (blank e \<or> cleaned \<noteq> e \<or> is_abs e \<or> cleaned = ''.'' \<or> cleaned = ''..'' \<or>
         prefix ''../'' cleaned \<or> CHR 0x5C \<in> set e))"

definition executionCommand :: "resolver \<Rightarrow> dispatch_run \<Rightarrow> message + assignment_command" where
  "executionCommand resolver r =
     (if dr_artifacts r \<noteq> None \<and> \<not> dr_artifacts_supported r then Inl MsgArtifactsUnsupported
      else if \<not> policy_valid (dr_artifacts r) then Inl MsgArtifactPolicyInvalid
      else if \<not> entrypoint_ok (dr_entrypoint r) then Inl MsgInvalidPayload
      else (case resolveSecretBindings resolver (dr_secrets r) of
              None \<Rightarrow> Inl MsgSecretUnavailable
            | Some secrets \<Rightarrow>
                Inr \<lparr>ac_artifacts = dr_artifacts r, ac_run = dr_id r, ac_token = dr_token r,
                     ac_version = dr_version r, ac_runtime = dr_runtime r,
                     ac_script_path = path_join [cache_root, dr_script r, dr_version r, dr_entrypoint r],
                     ac_arguments = [],
                     ac_environment = [(''YUNLING_RUN_ID'', EnvText (dr_id r)),
                        (''YUNLING_SCRIPT_VERSION_ID'', EnvText (dr_version r)),
                        (''YUNLING_PARAMETERS_JSON'', EnvParams (dr_params r)),
                        (''YUNLING_SECRETS_JSON'', EnvSecrets secrets)],
                     ac_resources = dr_resources r,
                     ac_tasks_max = (if dr_tasks_max r \<le> 0 then DefaultTasksMax else dr_tasks_max r),
                     ac_timeout = dr_timeout r\<rparr>))"

section \<open>The service\<close>

definition decide :: "resolver \<Rightarrow> dispatch_run \<Rightarrow> message + assignment_command" where
  "decide resolver r =
     (if dr_sync r = SyncFailed then Inl MsgSyncFailed
      else if dr_sync r = SyncReady \<and> \<not> dr_verified r then Inl MsgChecksumMismatch
      else if dr_sync r = SyncReady \<and> dr_verified r then executionCommand resolver r
      else Inl MsgNotReady)"

definition failure_event :: "time \<Rightarrow> dispatch_run \<Rightarrow> message \<Rightarrow> run_event" where
  "failure_event now r m = \<lparr>ev_usage = None, ev_run = dr_id r, ev_token = dr_token r, ev_sequence = 1,
     ev_type = ''failed'', ev_occurred = now, ev_exit_code = -1, ev_message = m\<rparr>"

text \<open>
  One run of the loop. \<open>failures\<close> says whether the event service is configured; \<open>send\<close> is the
  command channel. The result carries the infrastructure errors and the commands the channel took.
\<close>

type_synonym sent = "(ident \<times> assignment_command) list"

definition dispatch_one :: "faults \<Rightarrow> resolver \<Rightarrow> bool \<Rightarrow> (ident \<Rightarrow> assignment_command \<Rightarrow> bool) option \<Rightarrow>
    time \<Rightarrow> dispatch_run \<Rightarrow> db \<Rightarrow> (store_error list \<times> sent) \<times> db" where
  "dispatch_one flt resolver failures sender now r d =
     (case decide resolver r of
        Inl m \<Rightarrow>
          if \<not> failures then (([ErrStore], []), d)
          else (case Apply flt now (failure_event now r m) d of
                  (Inl e, d1) \<Rightarrow> (([e], []), d1)
                | (Inr _, d1) \<Rightarrow> (([], []), d1))
      | Inr cmd \<Rightarrow>
          (case sender of
             Some send \<Rightarrow>
               if send (dr_server r) cmd then (([], [(dr_server r, cmd)]), d)
               else (case RecordResult flt now (dr_id r) (dr_token r) MsgTransientDispatch d of
                       (Inl e, d1) \<Rightarrow> (([e], []), d1)
                     | (Inr _, d1) \<Rightarrow> (([], []), d1))
           | None \<Rightarrow>
               (case RecordResult flt now (dr_id r) (dr_token r) MsgTransientDispatch d of
                  (Inl e, d1) \<Rightarrow> (([e], []), d1)
                | (Inr _, d1) \<Rightarrow> (([], []), d1))))"

fun dispatch_each :: "(nat \<Rightarrow> faults) \<Rightarrow> nat \<Rightarrow> resolver \<Rightarrow> bool \<Rightarrow>
    (ident \<Rightarrow> assignment_command \<Rightarrow> bool) option \<Rightarrow> time \<Rightarrow> dispatch_run list \<Rightarrow> db \<Rightarrow>
    (store_error list \<times> sent) \<times> db" where
  "dispatch_each flt k resolver failures sender now [] d = (([], []), d)"
| "dispatch_each flt k resolver failures sender now (r # rs) d =
     (case dispatch_one (flt k) resolver failures sender now r d of
        ((es, cs), d1) \<Rightarrow>
          (case dispatch_each flt (k + 1) resolver failures sender now rs d1 of
             ((es', cs'), d2) \<Rightarrow> ((es @ es', cs @ cs'), d2)))"

definition Dispatch :: "(nat \<Rightarrow> faults) \<Rightarrow> (ident \<Rightarrow> bool) \<Rightarrow> resolver \<Rightarrow> bool \<Rightarrow>
    (ident \<Rightarrow> assignment_command \<Rightarrow> bool) option \<Rightarrow> time \<Rightarrow> db \<Rightarrow> (store_error list \<times> sent) \<times> db" where
  "Dispatch flt locked resolver failures sender now d =
     (case Claim (flt 0) locked (now - DefaultRetryInterval) now DefaultBatchSize d of
        (Inl e, d1) \<Rightarrow> (([e], []), d1)
      | (Inr runs, d1) \<Rightarrow> dispatch_each flt 1 resolver failures sender now runs d1)"

end
