(* ===== verification/Cron.thy ===== *)
theory Cron
  imports Go_Prelude
begin

text \<open>
  Cron rules of the task schedules (\<^verbatim>\<open>internal/task/schedule.go\<close>): parsing of the five
  fields and the search for the next matching minute in a time zone. The civil calendar is that of
  Go's \<^verbatim>\<open>time\<close> package. The zone database is an argument: \<open>zones\<close> gives, for a name that
  \<^verbatim>\<open>time.LoadLocation\<close> knows, the offset in seconds east of UTC at an instant in seconds.
\<close>

section \<open>Library functions\<close>

text \<open>\<^verbatim>\<open>strings.Fields\<close>.\<close>

definition starts_space :: "string \<Rightarrow> bool" where
  "starts_space s \<longleftrightarrow> list_ex (\<lambda>e. e \<noteq> [] \<and> prefix e s) go_spaces"

fun take_word :: "string \<Rightarrow> string" where
  "take_word [] = []"
| "take_word (c # cs) = (if starts_space (c # cs) then [] else c # take_word cs)"

lemma find_spaces: "find (\<lambda>e. e \<noteq> [] \<and> prefix e s) go_spaces = None \<longleftrightarrow> \<not> starts_space s"
  by (auto simp: starts_space_def find_None_iff list_ex_iff)

lemma strip_front_no_space: "\<not> starts_space (strip_front go_spaces s)"
  by (induction go_spaces s rule: strip_front.induct)
    (subst strip_front.simps, auto split: option.splits simp: find_spaces)

lemma take_word_trim: "trim_left s \<noteq> [] \<Longrightarrow> take_word (trim_left s) \<noteq> []"
  using strip_front_no_space [of s] by (cases "trim_left s") (auto simp: trim_left_def)

lemma length_strip_front: "length (strip_front seps s) \<le> length s"
proof (induction seps s rule: strip_front.induct)
  case (1 seps s)
  then show ?case by (subst strip_front.simps) (fastforce split: option.splits)
qed

function str_fields :: "string \<Rightarrow> string list" where
  "str_fields s =
     (let t = trim_left s
      in if t = [] then [] else take_word t # str_fields (drop (length (take_word t)) t))"
  by pat_completeness auto
termination
proof (relation "measure length")
  fix s t :: string
  assume "t = trim_left s" "t \<noteq> []"
  then show "(drop (length (take_word t)) t, s) \<in> measure length"
    using take_word_trim [of s] length_strip_front [of go_spaces s]
    by (cases "take_word t"; cases "strip_front go_spaces s") (auto simp: trim_left_def)
qed simp

declare str_fields.simps [simp del]

text \<open>\<^verbatim>\<open>strconv.Atoi\<close>: an optional sign, decimal digits, the range of \<^verbatim>\<open>int64\<close>.\<close>

definition atoi_digits :: "string \<Rightarrow> int option" where
  "atoi_digits s = (if s \<noteq> [] \<and> list_all is_digit s then Some (int (decimal_value s)) else None)"

definition atoi :: "string \<Rightarrow> int option" where
  "atoi s =
     (case (case s of
              [] \<Rightarrow> None
            | c # cs \<Rightarrow> if c = CHR ''-'' then map_option uminus (atoi_digits cs)
                       else if c = CHR ''+'' then atoi_digits cs
                       else atoi_digits s) of
        None \<Rightarrow> None
      | Some n \<Rightarrow> if - (2 ^ 63) \<le> n \<and> n < 2 ^ 63 then Some n else None)"

section \<open>Fields\<close>

text \<open>
  The loop \<^verbatim>\<open>for item := start; item <= end; item += step\<close> on 64-bit integers. The bounds in
  the guard hold at every call, since \<open>start\<close> and \<open>end\<close> lie in the field's range and \<open>step\<close> is a
  positive \<^verbatim>\<open>int64\<close>; they make the recursion well founded even where the addition wraps.
\<close>

definition loop_bounds :: "int \<Rightarrow> int \<Rightarrow> int \<Rightarrow> bool" where
  "loop_bounds item stop step \<longleftrightarrow> - (2 ^ 63) \<le> item \<and> 0 \<le> stop \<and> stop < 2 ^ 31 \<and> 0 < step \<and> step < 2 ^ 63"

definition loop_measure :: "int \<Rightarrow> int \<Rightarrow> int \<Rightarrow> nat" where
  "loop_measure item stop step =
     (if item > stop then 0
      else if stop + step < 2 ^ 63 then nat (stop - item + 1)
      else if 0 \<le> item then nat (2 * item + 4)
      else if item + step > stop then 1
      else if 0 \<le> item + step then nat (2 * (item + step) + 5)
      else 2)"

lemma i64_wrap: "2 ^ 63 \<le> x \<Longrightarrow> x < 2 ^ 63 + 2 ^ 64 \<Longrightarrow> i64 x = x - 2 ^ 64"
proof -
  assume a: "2 ^ 63 \<le> x" "x < 2 ^ 63 + 2 ^ 64"
  have "(x + 2 ^ 63) mod 2 ^ 64 = (x + 2 ^ 63 - 2 ^ 64) mod 2 ^ 64"
    by (metis mod_add_self2 diff_add_cancel)
  also have "\<dots> = x + 2 ^ 63 - 2 ^ 64" using a by (intro mod_pos_pos_trivial) auto
  finally show ?thesis by (simp add: i64_def)
qed

lemma loop_measure_decreases:
  assumes "loop_bounds item stop step" "item \<le> stop"
  shows "loop_measure (i64 (item + step)) stop step < loop_measure item stop step"
proof (cases "item + step < 2 ^ 63")
  case True
  then have i: "i64 (item + step) = item + step" using assms by (intro i64_id) (auto simp: loop_bounds_def)
  show ?thesis
    using assms True unfolding i by (auto simp: loop_bounds_def loop_measure_def)
next
  case False
  then have i: "i64 (item + step) = item + step - 2 ^ 64"
    using assms by (intro i64_wrap) (auto simp: loop_bounds_def)
  show ?thesis
    using assms False unfolding i by (auto simp: loop_bounds_def loop_measure_def)
qed

function cron_items :: "int \<Rightarrow> int \<Rightarrow> int \<Rightarrow> int list" where
  "cron_items item stop step =
     (if loop_bounds item stop step \<and> item \<le> stop
      then item # cron_items (i64 (item + step)) stop step
      else [])"
  by pat_completeness auto
termination
  by (relation "measure (\<lambda>(item, stop, step). loop_measure item stop step)")
    (simp_all add: loop_measure_decreases)

declare cron_items.simps [simp del]

text \<open>One part of a field: the range it names and the step.\<close>

definition cron_step :: "string \<Rightarrow> (string \<times> int) option" where
  "cron_step part =
     (if CHR ''/'' \<in> set part
      then (case split_on CHR ''/'' part of
              [base, st] \<Rightarrow>
                (case atoi st of
                   None \<Rightarrow> None
                 | Some n \<Rightarrow> if n \<le> 0 then None else Some (base, n))
            | _ \<Rightarrow> None)
      else Some (part, 1))"

definition cron_range :: "string \<Rightarrow> int \<Rightarrow> int \<Rightarrow> int \<Rightarrow> (int \<times> int) option" where
  "cron_range base step lo hi =
     (if base = ''*'' then Some (lo, hi)
      else if CHR ''-'' \<in> set base
      then (case split_on CHR ''-'' base of
              [a, b] \<Rightarrow> (case (atoi a, atoi b) of (Some x, Some y) \<Rightarrow> Some (x, y) | _ \<Rightarrow> None)
            | _ \<Rightarrow> None)
      else (case atoi base of
              None \<Rightarrow> None
            | Some n \<Rightarrow> if step \<noteq> 1 then None else Some (n, n)))"

definition cron_part :: "int \<Rightarrow> int \<Rightarrow> bool \<Rightarrow> string \<Rightarrow> int list option" where
  "cron_part lo hi normalizeSunday part =
     (case cron_step part of
        None \<Rightarrow> None
      | Some (base, step) \<Rightarrow>
          (case cron_range base step lo hi of
             None \<Rightarrow> None
           | Some (start, stop) \<Rightarrow>
               if start < lo \<or> stop > hi \<or> start > stop then None
               else Some (map (\<lambda>n. if normalizeSunday \<and> n = 7 then 0 else n) (cron_items start stop step))))"

fun cron_parts :: "int \<Rightarrow> int \<Rightarrow> bool \<Rightarrow> string list \<Rightarrow> int list \<Rightarrow> int list option" where
  "cron_parts lo hi sunday [] selected = Some selected"
| "cron_parts lo hi sunday (part # parts) selected =
     (case cron_part lo hi sunday part of
        None \<Rightarrow> None
      | Some ns \<Rightarrow> cron_parts lo hi sunday parts (selected @ ns))"

definition parseCronField :: "string \<Rightarrow> int \<Rightarrow> int \<Rightarrow> bool \<Rightarrow> (int list \<times> bool) option" where
  "parseCronField value lo hi sunday =
     (case cron_parts lo hi sunday (split_on CHR '','' value) [] of
        None \<Rightarrow> None
      | Some selected \<Rightarrow> if selected = [] then None else Some (selected, value = ''*''))"

record cron_spec =
  cs_minute :: "int list"
  cs_hour :: "int list"
  cs_day :: "int list"
  cs_month :: "int list"
  cs_weekday :: "int list"
  cs_day_wildcard :: bool
  cs_weekday_wildcard :: bool

definition parseCron :: "string \<Rightarrow> cron_spec option" where
  "parseCron expression =
     (case str_fields expression of
        [f0, f1, f2, f3, f4] \<Rightarrow>
          (case parseCronField f0 0 59 False of
             None \<Rightarrow> None
           | Some (mi, _) \<Rightarrow>
               (case parseCronField f1 0 23 False of
                  None \<Rightarrow> None
                | Some (ho, _) \<Rightarrow>
                    (case parseCronField f2 1 31 False of
                       None \<Rightarrow> None
                     | Some (da, dw) \<Rightarrow>
                         (case parseCronField f3 1 12 False of
                            None \<Rightarrow> None
                          | Some (mo, _) \<Rightarrow>
                              (case parseCronField f4 0 7 True of
                                 None \<Rightarrow> None
                               | Some (wd, ww) \<Rightarrow>
                                   Some \<lparr>cs_minute = mi, cs_hour = ho, cs_day = da, cs_month = mo,
                                         cs_weekday = wd, cs_day_wildcard = dw,
                                         cs_weekday_wildcard = ww\<rparr>)))))
      | _ \<Rightarrow> None)"

definition ValidateCron :: "(string \<Rightarrow> (int \<Rightarrow> int) option) \<Rightarrow> string \<Rightarrow> string \<Rightarrow> bool" where
  "ValidateCron zones expression timezone =
     (let tz = (if blank timezone then ''Asia/Shanghai'' else timezone)
      in tz \<noteq> ''Local'' \<and> zones tz \<noteq> None \<and> parseCron expression \<noteq> None)"

section \<open>The civil calendar\<close>

text \<open>Days are counted from 1 January of year 1, a Monday. The year of the algorithm starts in
  March, so that the leap day ends it.\<close>

definition civil_of_days :: "int \<Rightarrow> int \<times> int \<times> int" where
  "civil_of_days days =
     (let z = days + 306;
          era = z div 146097;
          doe = z mod 146097;
          yoe = (doe - doe div 1460 + doe div 36524 - doe div 146096) div 365;
          doy = doe - (365 * yoe + yoe div 4 - yoe div 100);
          mp = (5 * doy + 2) div 153;
          d = doy - (153 * mp + 2) div 5 + 1;
          m = (if mp < 10 then mp + 3 else mp - 9)
      in (yoe + era * 400 + (if m \<le> 2 then 1 else 0), m, d))"

definition days_of_civil :: "int \<Rightarrow> int \<Rightarrow> int \<Rightarrow> int" where
  "days_of_civil y m d =
     (let y' = (if m \<le> 2 then y - 1 else y);
          era = y' div 400;
          yoe = y' mod 400;
          doy = (153 * (if m > 2 then m - 3 else m + 9) + 2) div 5 + d - 1;
          doe = yoe * 365 + yoe div 4 - yoe div 100 + doy
      in era * 146097 + doe - 306)"

text \<open>The wall clock of an instant in a zone.\<close>

definition local_seconds :: "(int \<Rightarrow> int) \<Rightarrow> time \<Rightarrow> int" where
  "local_seconds zone t = t div second + zone (t div second)"

definition clock_day :: "(int \<Rightarrow> int) \<Rightarrow> time \<Rightarrow> int" where
  "clock_day zone t = local_seconds zone t div 86400"

definition Minute :: "(int \<Rightarrow> int) \<Rightarrow> time \<Rightarrow> int" where
  "Minute zone t = local_seconds zone t mod 3600 div 60"

definition Hour :: "(int \<Rightarrow> int) \<Rightarrow> time \<Rightarrow> int" where
  "Hour zone t = local_seconds zone t mod 86400 div 3600"

definition Weekday :: "(int \<Rightarrow> int) \<Rightarrow> time \<Rightarrow> int" where
  "Weekday zone t = (clock_day zone t + 1) mod 7"

definition Month :: "(int \<Rightarrow> int) \<Rightarrow> time \<Rightarrow> int" where
  "Month zone t = fst (snd (civil_of_days (clock_day zone t)))"

definition Day :: "(int \<Rightarrow> int) \<Rightarrow> time \<Rightarrow> int" where
  "Day zone t = snd (snd (civil_of_days (clock_day zone t)))"

text \<open>\<^verbatim>\<open>time.Date\<close> looks the zone up twice to turn a wall clock into an instant.\<close>

definition instant_of_local :: "(int \<Rightarrow> int) \<Rightarrow> int \<Rightarrow> int" where
  "instant_of_local zone l = (let off = zone l in if off = 0 then l else l - zone (l - off))"

definition add_years :: "(int \<Rightarrow> int) \<Rightarrow> int \<Rightarrow> time \<Rightarrow> time" where
  "add_years zone n t =
     (case civil_of_days (clock_day zone t) of
        (y, m, d) \<Rightarrow>
          instant_of_local zone (days_of_civil (y + n) m d * 86400 + local_seconds zone t mod 86400) * second
          + t mod second)"

section \<open>The next matching minute\<close>

definition cron_matches :: "cron_spec \<Rightarrow> (int \<Rightarrow> int) \<Rightarrow> time \<Rightarrow> bool" where
  "cron_matches spec zone t =
     (let dayMatches = Day zone t \<in> set (cs_day spec);
          weekdayMatches = Weekday zone t \<in> set (cs_weekday spec);
          calendarMatches =
            (if cs_day_wildcard spec \<and> cs_weekday_wildcard spec then True
             else if cs_day_wildcard spec then weekdayMatches
             else if cs_weekday_wildcard spec then dayMatches
             else dayMatches \<or> weekdayMatches)
      in Minute zone t \<in> set (cs_minute spec) \<and> Hour zone t \<in> set (cs_hour spec) \<and>
         Month zone t \<in> set (cs_month spec) \<and> calendarMatches)"

function cron_search :: "cron_spec \<Rightarrow> (int \<Rightarrow> int) \<Rightarrow> time \<Rightarrow> time \<Rightarrow> time option" where
  "cron_search spec zone candidate limit =
     (if candidate < limit
      then if cron_matches spec zone candidate then Some candidate
           else cron_search spec zone (candidate + minute) limit
      else None)"
  by pat_completeness auto
termination
  by (relation "measure (\<lambda>(spec, zone, candidate, limit). nat (limit - candidate))")
    (auto simp: minute_def second_def)

declare cron_search.simps [simp del]

definition nextCronTime ::
  "(string \<Rightarrow> (int \<Rightarrow> int) option) \<Rightarrow> string \<Rightarrow> string \<Rightarrow> time \<Rightarrow> time option" where
  "nextCronTime zones expression timezone after =
     (case parseCron expression of
        None \<Rightarrow> None
      | Some spec \<Rightarrow>
          (case zones timezone of
             None \<Rightarrow> None
           | Some zone \<Rightarrow>
               (let candidate = after - after mod minute + minute
                in cron_search spec zone candidate (add_years zone 5 candidate))))"

section \<open>Calendar lemmas\<close>

lemma yoe_range:
  fixes doe :: int
  assumes "0 \<le> doe" "doe < 146097" "yoe = (doe - doe div 1460 + doe div 36524 - doe div 146096) div 365"
  shows "0 \<le> yoe \<and> yoe < 400 \<and> 0 \<le> doe - (365 * yoe + yoe div 4 - yoe div 100) \<and> doe - (365 * yoe + yoe div 4 - yoe div 100) < 366"
proof -
  define a where "a = doe div 1460"
  define b where "b = doe div 36524"
  define c where "c = doe div 146096"
  have a: "1460 * a \<le> doe" "doe < 1460 * a + 1460" by (auto simp: a_def)
  have b: "36524 * b \<le> doe" "doe < 36524 * b + 36524" by (auto simp: b_def)
  have c: "146096 * c \<le> doe" "doe < 146096 * c + 146096" by (auto simp: c_def)
  have y: "365 * yoe \<le> doe - a + b - c" "doe - a + b - c < 365 * yoe + 365" 
  proof -
    have "365 * (x div 365) \<le> x" "x < 365 * (x div 365) + 365" for x :: int by simp_all
    then show "365 * yoe \<le> doe - a + b - c" "doe - a + b - c < 365 * yoe + 365"
      unfolding assms(3) a_def b_def c_def by blast+
  qed
  have cc: "c = 0 \<or> c = 1" using c assms by auto
  have bb: "b \<in> {0,1,2,3,4}" using b assms by auto
  define e where "e = yoe div 4"
  define f where "f = yoe div 100"
  have e: "4 * e \<le> yoe" "yoe < 4 * e + 4" by (auto simp: e_def)
  have f: "100 * f \<le> yoe" "yoe < 100 * f + 100" by (auto simp: f_def)
  have yr: "0 \<le> yoe" "yoe < 400" using a b c y cc bb assms(1,2) by auto
  have fb: "f = b - c" using a b c y cc bb f assms(1,2) by auto
  have ab: "b \<le> a" using a b bb by auto
  have ea: "e \<le> a" using a b c y cc bb e ab assms(1,2) by auto
  have ae: "a \<le> e + 1" using a b c y cc bb e yr assms(1,2) by auto
  show ?thesis unfolding e_def [symmetric] f_def [symmetric]
    using yr fb ea ae y by linarith
qed

lemma month_range:
  fixes doy :: int
  assumes "0 \<le> doy" "doy < 366" "mp = (5 * doy + 2) div 153"
  shows "0 \<le> mp \<and> mp < 12 \<and> 0 \<le> doy - (153 * mp + 2) div 5 \<and> doy - (153 * mp + 2) div 5 < 31"
proof -
  have m: "153 * mp \<le> 5 * doy + 2" "5 * doy + 2 < 153 * mp + 153"
    unfolding assms(3) by simp_all
  define q where "q = (153 * mp + 2) div 5"
  have q: "5 * q \<le> 153 * mp + 2" "153 * mp + 2 < 5 * q + 5" by (simp_all add: q_def)
  show ?thesis unfolding q_def [symmetric] using m q assms(1,2) by linarith
qed

lemma civil_round_trip:
  assumes "civil_of_days n = (y, m, d)"
  shows "days_of_civil y m d = n" "1 \<le> m" "m \<le> 12" "1 \<le> d" "d \<le> 31"
proof -
  define z where "z = n + 306"
  define doe where "doe = z mod 146097"
  define yoe where "yoe = (doe - doe div 1460 + doe div 36524 - doe div 146096) div 365"
  define doy where "doy = doe - (365 * yoe + yoe div 4 - yoe div 100)"
  define mp where "mp = (5 * doy + 2) div 153"
  have doe: "0 \<le> doe" "doe < 146097" by (simp_all add: doe_def)
  have r: "0 \<le> yoe" "yoe < 400" "0 \<le> doy" "doy < 366"
    using yoe_range [OF doe yoe_def] by (auto simp: doy_def)
  have mr: "0 \<le> mp" "mp < 12" "0 \<le> doy - (153 * mp + 2) div 5" "doy - (153 * mp + 2) div 5 < 31"
    using month_range [OF r(3,4) mp_def] by auto
  have mdef: "m = (if mp < 10 then mp + 3 else mp - 9)" and ddef: "d = doy - (153 * mp + 2) div 5 + 1"
    and ydef: "y = yoe + z div 146097 * 400 + (if m \<le> 2 then 1 else 0)"
  proof -
    have "civil_of_days n = (let m = (if mp < 10 then mp + 3 else mp - 9)
        in (yoe + z div 146097 * 400 + (if m \<le> 2 then 1 else 0), m, doy - (153 * mp + 2) div 5 + 1))"
      unfolding civil_of_days_def Let_def z_def doe_def yoe_def doy_def mp_def by (rule refl)
    then show "m = (if mp < 10 then mp + 3 else mp - 9)" "d = doy - (153 * mp + 2) div 5 + 1"
      "y = yoe + z div 146097 * 400 + (if m \<le> 2 then 1 else 0)"
      unfolding assms Let_def prod.inject by blast+
  qed
  show mm: "1 \<le> m" "m \<le> 12" and "1 \<le> d" "d \<le> 31" using mr mdef ddef by (auto split: if_splits)
  have y': "(if m \<le> 2 then y - 1 else y) = yoe + z div 146097 * 400" using ydef by simp
  have mp': "(if m > 2 then m - 3 else m + 9) = mp" using mdef mr by (auto split: if_splits)
  have e: "(yoe + z div 146097 * 400) div 400 = z div 146097" "(yoe + z div 146097 * 400) mod 400 = yoe"
    using r by simp_all
  have "z div 146097 * 146097 + doe = z" by (simp add: doe_def)
  then show "days_of_civil y m d = n"
    unfolding days_of_civil_def y' mp' Let_def e using ddef doy_def z_def by simp
qed

section \<open>Field lemmas\<close>

lemma cron_items_unfold:
  assumes "loop_bounds item stop step"
  shows "cron_items item stop step =
    (if item \<le> stop then item # cron_items (i64 (item + step)) stop step else [])"
  using assms by (subst cron_items.simps) simp

lemma cron_items_set:
  assumes "0 \<le> start" "0 \<le> stop" "0 < step" "stop < 2 ^ 31" "stop + step < 2 ^ 63"
  shows "n \<in> set (cron_items start stop step) \<longleftrightarrow> start \<le> n \<and> n \<le> stop \<and> step dvd (n - start)"
  using assms
proof (induction "nat (stop - start + 1)" arbitrary: start rule: less_induct)
  case less
  have b: "loop_bounds start stop step" using less.prems by (auto simp: loop_bounds_def)
  show ?case
  proof (cases "start \<le> stop")
    case True
    have i: "i64 (start + step) = start + step" using less.prems True by (intro i64_id) auto
    have IH: "n \<in> set (cron_items (start + step) stop step) \<longleftrightarrow>
        start + step \<le> n \<and> n \<le> stop \<and> step dvd (n - (start + step))"
      using less.prems True by (intro less.hyps) auto
    have "step dvd (n - (start + step)) \<longleftrightarrow> step dvd (n - start)"
      using dvd_add_times_triv_right_iff [of step "n - start" "-1"] by (simp add: algebra_simps)
    moreover have "step dvd (n - start) \<Longrightarrow> start < n \<Longrightarrow> start + step \<le> n"
      by (drule zdvd_imp_le) auto
    ultimately show ?thesis
      using IH True less.prems by (subst cron_items_unfold [OF b]) (auto simp: i)
  next
    case False
    then show ?thesis by (subst cron_items_unfold [OF b]) auto
  qed
qed

lemma atoi_bound: "atoi s = Some n \<Longrightarrow> length s \<le> 18 \<Longrightarrow> n < 10 ^ 18"
proof -
  have digits: "int (decimal_value t) < 10 ^ 18" if "list_all is_digit t" "length t \<le> 18" for t
  proof -
    have "decimal_value t < 10 ^ length t" using that by (simp add: decimal_value_bound)
    also have "\<dots> \<le> (10::nat) ^ 18" using that by (intro power_increasing) auto
    finally show ?thesis by simp
  qed
  assume "atoi s = Some n" "length s \<le> 18"
  then show ?thesis
    using digits [of s] digits [of "tl s"]
    by (cases s) (auto simp: atoi_def atoi_digits_def split: if_splits option.splits)
qed

lemma split_on_length: "p \<in> set (split_on c s) \<Longrightarrow> length p \<le> length s"
  by (induction s arbitrary: p) (fastforce split: if_splits list.splits)+

lemma cron_step_bound: "cron_step part = Some (base, step) \<Longrightarrow> length part \<le> 18 \<Longrightarrow> 0 < step \<and> step < 10 ^ 18"
  using split_on_length [of _ "CHR ''/''" part]
  by (fastforce simp: cron_step_def split: if_splits list.splits option.splits dest: atoi_bound)

lemma cron_part_range:
  assumes "cron_part lo hi sunday part = Some ns" "length part \<le> 18" "0 \<le> lo" "hi \<le> 59" "n \<in> set ns"
  shows "lo \<le> n \<and> n \<le> hi \<or> sunday \<and> n = 0"
proof -
  obtain base step start stop where
    st: "cron_step part = Some (base, step)" and
    r: "\<not> start < lo" "\<not> stop > hi" "\<not> start > stop"
    and ns: "ns = map (\<lambda>n. if sunday \<and> n = 7 then 0 else n) (cron_items start stop step)"
    using assms(1) by (auto simp: cron_part_def split: option.splits if_splits prod.splits)
  have "k \<in> set (cron_items start stop step) \<Longrightarrow> start \<le> k \<and> k \<le> stop" for k
    using cron_items_set [of start stop step k] cron_step_bound [OF st assms(2)] r assms by auto
  then show ?thesis using ns assms(5) r by force
qed

lemma cron_parts_range:
  assumes "cron_parts lo hi sunday parts sel = Some ns" "\<forall>p \<in> set parts. length p \<le> 18"
    "0 \<le> lo" "hi \<le> 59" "n \<in> set ns"
  shows "n \<in> set sel \<or> lo \<le> n \<and> n \<le> hi \<or> sunday \<and> n = 0"
  using assms
proof (induction parts arbitrary: sel)
  case (Cons part parts)
  then obtain ms where m: "cron_part lo hi sunday part = Some ms"
    "cron_parts lo hi sunday parts (sel @ ms) = Some ns"
    by (auto split: option.splits)
  then show ?case using Cons.IH [OF m(2)] Cons.prems cron_part_range [OF m(1)] by auto
qed simp

section \<open>Search lemmas\<close>

lemma cron_search_Some:
  "cron_search spec zone c limit = Some t \<Longrightarrow>
   c \<le> t \<and> t < limit \<and> minute dvd (t - c) \<and> cron_matches spec zone t \<and>
   (\<forall>u. c \<le> u \<and> u < t \<and> minute dvd (u - c) \<longrightarrow> \<not> cron_matches spec zone u)"
proof (induction spec zone c limit rule: cron_search.induct)
  case (1 spec zone c limit)
  have pos: "0 < minute" by (simp add: minute_def second_def)
  show ?case
  proof (cases "c < limit \<and> \<not> cron_matches spec zone c")
    case True
    then have IH: "c + minute \<le> t \<and> t < limit \<and> minute dvd (t - (c + minute)) \<and> cron_matches spec zone t \<and>
        (\<forall>u. c + minute \<le> u \<and> u < t \<and> minute dvd (u - (c + minute)) \<longrightarrow> \<not> cron_matches spec zone u)"
      using 1 by (subst (asm) cron_search.simps) simp
    have shift: "minute dvd (u - (c + minute)) \<longleftrightarrow> minute dvd (u - c)" for u
      using dvd_add_times_triv_right_iff [of minute "u - c" "-1"] by (simp add: algebra_simps)
    have "u = c \<or> c + minute \<le> u" if "c \<le> u" "minute dvd (u - c)" for u
      using that zdvd_imp_le [of minute "u - c"] by force
    then show ?thesis using IH True pos unfolding shift by auto
  next
    case False
    then show ?thesis using 1(2) by (subst (asm) cron_search.simps) (auto split: if_splits)
  qed
qed

lemma cron_search_complete:
  "c \<le> u \<Longrightarrow> u < limit \<Longrightarrow> minute dvd (u - c) \<Longrightarrow> cron_matches spec zone u \<Longrightarrow>
   \<exists>t. cron_search spec zone c limit = Some t \<and> t \<le> u"
proof (induction spec zone c limit rule: cron_search.induct)
  case (1 spec zone c limit)
  show ?case
  proof (cases "cron_matches spec zone c")
    case True
    then show ?thesis using 1 by (subst cron_search.simps) simp
  next
    case False
    then have "c < u" using 1 by (cases "c = u") auto
    then have "c + minute \<le> u" using 1(4) zdvd_imp_le [of minute "u - c"] by force
    moreover have "minute dvd (u - (c + minute))"
      using 1(4) dvd_add_times_triv_right_iff [of minute "u - c" "-1"] by (simp add: algebra_simps)
    ultimately show ?thesis using 1 False by (subst cron_search.simps) simp
  qed
qed

lemma first_candidate:
  "after < after - after mod minute + minute" "after - after mod minute + minute \<le> after + minute"
  "minute dvd (after - after mod minute + minute)"
  by (simp_all add: minute_def second_def dvd_minus_mod)

lemma aligned_after:
  assumes "minute dvd u" "after < u"
  shows "after - after mod minute + minute \<le> u"
proof -
  have "minute dvd (u - (after - after mod minute))"
    using assms(1) by (simp add: dvd_minus_mod)
  moreover have "0 < u - (after - after mod minute)"
    using assms(2) pos_mod_sign [of minute after] by (simp add: minute_def second_def)
  ultimately show ?thesis using zdvd_imp_le by fastforce
qed

section \<open>Properties\<close>

text \<open>C7. The next fire time of a schedule lies strictly after the given instant, on a whole
  minute, matches the rule on the zone's wall clock, and no earlier whole minute after that
  instant matches.\<close>

theorem next_cron_exact:
  assumes "parseCron expression = Some spec" "zones timezone = Some zone"
    "nextCronTime zones expression timezone after = Some t"
  shows "after < t \<and> minute dvd t \<and> cron_matches spec zone t \<and>
    (\<forall>u. after < u \<and> u < t \<and> minute dvd u \<longrightarrow> \<not> cron_matches spec zone u)"
proof -
  let ?c = "after - after mod minute + minute"
  have "cron_search spec zone ?c (add_years zone 5 ?c) = Some t"
    using assms by (simp add: nextCronTime_def Let_def)
  note s = cron_search_Some [OF this]
  have d: "minute dvd (u - ?c) \<longleftrightarrow> minute dvd u" for u
    using first_candidate(3) [of after] by (metis diff_add_cancel dvd_add dvd_diff)
  show ?thesis using s first_candidate(1) [of after] aligned_after unfolding d by fastforce
qed

definition utc_only :: "string \<Rightarrow> (int \<Rightarrow> int) option" where
  "utc_only name = (if name = ''UTC'' then Some (\<lambda>_. 0) else None)"

definition every_minute :: cron_spec where
  "every_minute = \<lparr>cs_minute = map int [0..<60], cs_hour = map int [0..<24],
     cs_day = map int [1..<32], cs_month = map int [1..<13],
     cs_weekday = map int [0..<7] @ [0], cs_day_wildcard = True, cs_weekday_wildcard = True\<rparr>"

lemma parse_every_minute: "parseCron ''* * * * *'' = Some every_minute"
proof -
  have "str_fields ''* * * * *'' = [''*'', ''*'', ''*'', ''*'', ''*'']" by code_simp
  moreover have "parseCronField ''*'' 0 59 False = Some (cs_minute every_minute, True)"
    "parseCronField ''*'' 0 23 False = Some (cs_hour every_minute, True)"
    "parseCronField ''*'' 1 31 False = Some (cs_day every_minute, True)"
    "parseCronField ''*'' 1 12 False = Some (cs_month every_minute, True)"
    "parseCronField ''*'' 0 7 True = Some (cs_weekday every_minute, True)" by code_simp+
  ultimately show ?thesis by (simp add: parseCron_def every_minute_def)
qed

theorem next_cron_exact_witness:
  "nextCronTime utc_only ''* * * * *'' ''UTC'' 0 = Some minute \<and> 0 < minute \<and>
   cron_matches every_minute (\<lambda>_. 0) minute"
proof -
  have n: "nextCronTime utc_only ''* * * * *'' ''UTC'' 0 = Some minute"
    unfolding nextCronTime_def parse_every_minute by code_simp
  show ?thesis
    using n next_cron_exact [OF parse_every_minute _ n, of "\<lambda>_. 0"] by (simp add: utc_only_def)
qed

text \<open>C8. The search for the next fire time always ends, and it fails only if no whole minute of
  the five years after the given instant matches the rule.\<close>

theorem next_cron_complete:
  assumes "parseCron expression = Some spec" "zones timezone = Some zone"
  shows "(\<exists>t. nextCronTime zones expression timezone after = Some t) \<longleftrightarrow>
    (\<exists>u. after < u \<and> u < add_years zone 5 (after - after mod minute + minute) \<and> minute dvd u \<and>
       cron_matches spec zone u)"
proof -
  let ?c = "after - after mod minute + minute"
  have n: "nextCronTime zones expression timezone after = cron_search spec zone ?c (add_years zone 5 ?c)"
    using assms by (simp add: nextCronTime_def Let_def)
  have d: "minute dvd (u - ?c) \<longleftrightarrow> minute dvd u" for u
    using first_candidate(3) [of after] by (metis diff_add_cancel dvd_add dvd_diff)
  show ?thesis
  proof
    assume "\<exists>t. nextCronTime zones expression timezone after = Some t"
    then obtain t where "cron_search spec zone ?c (add_years zone 5 ?c) = Some t" by (auto simp: n)
    note s = cron_search_Some [OF this]
    have "after < t \<and> t < add_years zone 5 ?c \<and> minute dvd t \<and> cron_matches spec zone t"
      using s d [of t] first_candidate(1) [of after] by auto
    then show "\<exists>u. after < u \<and> u < add_years zone 5 ?c \<and> minute dvd u \<and> cron_matches spec zone u" by blast
  next
    assume "\<exists>u. after < u \<and> u < add_years zone 5 ?c \<and> minute dvd u \<and> cron_matches spec zone u"
    then obtain u where u: "after < u" "u < add_years zone 5 ?c" "minute dvd u" "cron_matches spec zone u" by blast
    have "minute dvd (u - ?c)" using u(3) by (simp only: d)
    then show "\<exists>t. nextCronTime zones expression timezone after = Some t"
      using cron_search_complete [OF aligned_after [OF u(3,1)] u(2) _ u(4)] by (auto simp: n)
  qed
qed

theorem next_cron_complete_witness:
  "\<exists>t. nextCronTime utc_only ''* * * * *'' ''UTC'' 0 = Some t"
proof -
  have "0 < minute \<and> minute < add_years (\<lambda>_. 0) 5 (0 - 0 mod minute + minute) \<and> minute dvd minute \<and>
      cron_matches every_minute (\<lambda>_. 0) minute" by code_simp
  then show ?thesis
    using next_cron_complete [OF parse_every_minute, of utc_only "''UTC''" "\<lambda>_. 0" 0]
    by (auto simp: utc_only_def)
qed

text \<open>Every number that a field of fewer than nineteen characters selects lies in the range of
  that field, with 7 read as 0 where Sunday is normalised.\<close>

lemma cron_field_in_range:
  assumes "parseCronField v lo hi sunday = Some (selected, wildcard)" "length v < 19"
    "0 \<le> lo" "hi \<le> 59" "n \<in> set selected"
  shows "lo \<le> n \<and> n \<le> hi \<or> sunday \<and> n = 0"
proof -
  have "cron_parts lo hi sunday (split_on CHR '','' v) [] = Some selected"
    using assms(1) by (auto simp: parseCronField_def split: option.splits if_splits)
  moreover have "\<forall>p \<in> set (split_on CHR '','' v). length p \<le> 18"
    using assms(2) split_on_length by fastforce
  ultimately show ?thesis using cron_parts_range assms(3-5) by fastforce
qed

lemma cron_field_in_range_witness:
  "parseCronField ''*/15,7'' 0 59 False = Some ([0, 15, 30, 45, 7], False) \<and>
   (0 \<le> (45::int) \<and> 45 \<le> (59::int))"
proof -
  have p: "parseCronField ''*/15,7'' 0 59 False = Some ([0, 15, 30, 45, 7], False)" by code_simp
  show ?thesis using p cron_field_in_range [OF p, of 45] by simp
qed

text \<open>C9. Longer steps are accepted too and overflow the loop variable: the range 5-10 with the
  largest step selects the minutes 3 and 1, below its start.\<close>

theorem cron_step_overflow:
  "\<exists>selected. parseCronField ''5-10/9223372036854775807'' 0 59 False = Some (selected, False) \<and>
     {1, 3, 5} \<subseteq> set selected"
proof -
  have a: "atoi ''9223372036854775807'' = Some 9223372036854775807" "atoi ''5'' = Some 5" "atoi ''10'' = Some 10"
    by (simp_all add: atoi_def atoi_digits_def decimal_value_def digit_value_def is_digit_def)
  have "cron_items 5 10 9223372036854775807 = [5, -9223372036854775804, 3,
      -9223372036854775806, 1, -9223372036854775808, -1]"
    by (simp add: cron_items.simps loop_bounds_def i64_def)
  then have "parseCronField ''5-10/9223372036854775807'' 0 59 False = Some ([5, -9223372036854775804, 3,
      -9223372036854775806, 1, -9223372036854775808, -1], False)"
    by (simp add: parseCronField_def cron_part_def cron_step_def cron_range_def a)
  then show ?thesis by simp
qed

text \<open>The calendar is exact: counting the days of the date that a day number has gives the day
  number back, and the date has a month of the year and a day of a month.\<close>

lemma civil_dates_exact:
  "case civil_of_days n of (y, m, d) \<Rightarrow>
     days_of_civil y m d = n \<and> 1 \<le> m \<and> m \<le> 12 \<and> 1 \<le> d \<and> d \<le> 31"
  using civil_round_trip by (auto split: prod.splits)

end
