(* ===== verification/Task_Service.thy ===== *)
theory Task_Service
  imports Run_Events Cron
begin

text \<open>
  Task definitions, their schedules and the creation of runs
  (\<^verbatim>\<open>internal/task/service.go\<close>, \<^verbatim>\<open>internal/task/schedule.go\<close>,
  \<^verbatim>\<open>internal/task/parameter_validation.go\<close>). Every operation reads the clock once. The
  zone database of \<open>Cron\<close> is the argument \<open>zones\<close>.
\<close>

section \<open>Inputs\<close>

record create_input =
  ci_name :: string
  ci_description :: string
  ci_script :: ident
  ci_policy :: version_policy
  ci_pinned :: ident
  ci_params :: "params option"
  ci_secret_refs :: "labels option"
  ci_priority :: int
  ci_labels :: "labels option"
  ci_runtime :: string
  ci_resources :: resources
  ci_max_concurrency :: int
  ci_timeout :: int
  ci_max_wait :: int
  ci_retry :: retry_policy
  ci_idempotent :: bool
  ci_enabled :: bool
  ci_created_by :: ident

record trigger_request =
  tg_type :: trigger_type
  tg_requested_by :: ident
  tg_params :: params
  tg_scheduled_for :: "time option"

record due_schedule =
  du_id :: ident
  du_def :: ident
  du_expression :: string
  du_timezone :: string
  du_fire :: time
  du_updated :: time

record schedule_input =
  si_def :: ident
  si_cron :: string
  si_timezone :: string
  si_enabled :: bool

definition nullableUUID :: "string \<Rightarrow> ident option" where
  "nullableUUID v = (if blank v then None else Some v)"

definition normalizeInput :: "create_input \<Rightarrow> create_input" where
  "normalizeInput i = i\<lparr>ci_name := trim_space (ci_name i),
     ci_description := trim_space (ci_description i),
     ci_script := trim_space (ci_script i),
     ci_pinned := trim_space (ci_pinned i),
     ci_runtime := to_lower (trim_space (ci_runtime i)),
     ci_policy := (if ci_policy i = VersionUnset then VersionLatest else ci_policy i),
     ci_params := Some (case ci_params i of None \<Rightarrow> [] | Some p \<Rightarrow> p),
     ci_secret_refs := Some (case ci_secret_refs i of None \<Rightarrow> [] | Some p \<Rightarrow> p),
     ci_labels := Some (case ci_labels i of None \<Rightarrow> [] | Some p \<Rightarrow> p),
     ci_max_concurrency := (if ci_max_concurrency i = 0 then 1 else ci_max_concurrency i),
     ci_timeout := (if ci_timeout i = 0 then 3600 else ci_timeout i)\<rparr>"

definition validateInput :: "create_input \<Rightarrow> bool" where
  "validateInput i =
     (if ci_name i = [] \<or> ci_script i = [] \<or> ci_runtime i = [] \<or>
         cpu_millicores (ci_resources i) \<le> 0 \<or> memory_bytes (ci_resources i) \<le> 0 \<or>
         disk_bytes (ci_resources i) \<le> 0 \<or> ci_priority i < 0 \<or> ci_priority i > 100 \<or>
         ci_max_concurrency i \<le> 0 \<or> ci_timeout i \<le> 0 \<or> ci_max_wait i < 0 \<or>
         max_retries (ci_retry i) < 0 \<or> backoff_seconds (ci_retry i) < 0 then False
      else if ci_policy i = VersionLatest \<and> ci_pinned i = [] then True
      else if ci_policy i = VersionPinned \<and> ci_pinned i \<noteq> [] then True
      else False)"

definition validateReferences :: "faults \<Rightarrow> create_input \<Rightarrow> db \<Rightarrow> store_error + unit" where
  "validateReferences flt i d = stmt flt 0 ErrStore
     (case row_by sr_id (ci_script i) (db_scripts d) of
        None \<Rightarrow> Inl ErrInvalidDefinition
      | Some sc \<Rightarrow>
          if to_lower (sr_runtime sc) \<noteq> ci_runtime i then Inl ErrInvalidDefinition
          else if ci_policy i = VersionPinned
          then stmt flt 1 ErrStore
            (if list_ex (\<lambda>v. vr_id v = ci_pinned i \<and> vr_script v = ci_script i) (db_versions d)
             then Inr () else Inl ErrInvalidDefinition)
          else Inr ())"

section \<open>Definitions\<close>

definition spec_of_input :: "create_input \<Rightarrow> run_spec" where
  "spec_of_input i =
     \<lparr>sp_params = (case ci_params i of None \<Rightarrow> [] | Some p \<Rightarrow> p),
      sp_labels = (case ci_labels i of None \<Rightarrow> [] | Some p \<Rightarrow> p),
      sp_runtime = ci_runtime i, sp_priority = ci_priority i, sp_resources = ci_resources i,
      sp_max_concurrency = ci_max_concurrency i, sp_timeout = ci_timeout i,
      sp_max_wait = ci_max_wait i, sp_max_retries = max_retries (ci_retry i),
      sp_backoff = backoff_seconds (ci_retry i), sp_idempotent = ci_idempotent i\<rparr>"

definition def_of_input :: "ident \<Rightarrow> time \<Rightarrow> create_input \<Rightarrow> def_row" where
  "def_of_input did dbnow i =
     \<lparr>df_id = did, df_name = ci_name i, df_description = ci_description i, df_script = ci_script i,
      df_policy = ci_policy i, df_pinned = nullableUUID (ci_pinned i), df_enabled = ci_enabled i,
      df_secret_refs = (case ci_secret_refs i of None \<Rightarrow> [] | Some p \<Rightarrow> p),
      df_spec = spec_of_input i, df_created_by = nullableUUID (ci_created_by i),
      df_created_at = dbnow, df_updated_at = dbnow\<rparr>"

text \<open>\<^verbatim>\<open>definitionSelect\<close> joins the script.\<close>

definition GetDefinition :: "faults \<Rightarrow> ident \<Rightarrow> db \<Rightarrow> store_error + def_row" where
  "GetDefinition flt did d = stmt flt 2 ErrStore
     (case row_by df_id did (db_defs d) of
        None \<Rightarrow> Inl ErrDefinitionNotFound
      | Some df \<Rightarrow> if row_by sr_id (df_script df) (db_scripts d) = None then Inl ErrDefinitionNotFound
                  else Inr df)"

definition ListDefinitions :: "faults \<Rightarrow> db \<Rightarrow> store_error + def_row list" where
  "ListDefinitions flt d = stmt flt 0 ErrStore
     (Inr (slice_stable (\<lambda>a b. df_created_at a > df_created_at b)
        (filter (\<lambda>df. row_by sr_id (df_script df) (db_scripts d) \<noteq> None) (db_defs d))))"

text \<open>The insert and the update commit on their own; the row is read back afterwards.\<close>

definition CreateDefinition ::
  "faults \<Rightarrow> ident \<Rightarrow> time \<Rightarrow> create_input \<Rightarrow> db \<Rightarrow> (store_error + def_row) \<times> db" where
  "CreateDefinition flt fresh dbnow i0 d =
     (let i = normalizeInput i0 in
      if \<not> validateInput i then (Inl ErrInvalidDefinition, d)
      else (case validateReferences flt i d of
              Inl e \<Rightarrow> (Inl e, d)
            | Inr _ \<Rightarrow>
                if flt 3 \<or> row_by df_id fresh (db_defs d) \<noteq> None \<or>
                   row_by df_name (ci_name i) (db_defs d) \<noteq> None
                then (Inl ErrStore, d)
                else (let d1 = d\<lparr>db_defs := db_defs d @ [def_of_input fresh dbnow i]\<rparr>
                      in (GetDefinition flt fresh d1, d1))))"

definition update_def :: "time \<Rightarrow> create_input \<Rightarrow> def_row \<Rightarrow> def_row" where
  "update_def now i df = df\<lparr>df_name := ci_name i, df_description := ci_description i,
     df_script := ci_script i, df_policy := ci_policy i, df_pinned := nullableUUID (ci_pinned i),
     df_enabled := ci_enabled i,
     df_secret_refs := (case ci_secret_refs i of None \<Rightarrow> [] | Some p \<Rightarrow> p),
     df_spec := spec_of_input i, df_updated_at := now\<rparr>"

definition UpdateDefinition ::
  "faults \<Rightarrow> time \<Rightarrow> ident \<Rightarrow> create_input \<Rightarrow> db \<Rightarrow> (store_error + def_row) \<times> db" where
  "UpdateDefinition flt now did i0 d =
     (let i = normalizeInput i0 in
      if \<not> validateInput i then (Inl ErrInvalidDefinition, d)
      else (case validateReferences flt i d of
              Inl e \<Rightarrow> (Inl e, d)
            | Inr _ \<Rightarrow>
                if flt 3 then (Inl ErrStore, d)
                else if row_by df_id did (db_defs d) = None then (Inl ErrDefinitionNotFound, d)
                else if list_ex (\<lambda>df. df_name df = ci_name i \<and> df_id df \<noteq> did) (db_defs d)
                then (Inl ErrStore, d)
                else (let d1 = d\<lparr>db_defs := update_where (\<lambda>df. df_id df = did) (update_def now i) (db_defs d)\<rparr>
                      in (GetDefinition flt did d1, d1))))"

text \<open>Runs restrict the deletion of their definition; schedules go with it.\<close>

definition DeleteDefinition :: "faults \<Rightarrow> ident \<Rightarrow> db \<Rightarrow> (store_error + unit) \<times> db" where
  "DeleteDefinition flt did d = tx d (stmt flt 0 ErrStore
     (if row_by df_id did (db_defs d) = None then Inl ErrDefinitionNotFound
      else if list_ex (\<lambda>r. tr_def r = did) (db_runs d) then Inl ErrStore
      else Inr ((), d\<lparr>db_defs := filter (\<lambda>df. df_id df \<noteq> did) (db_defs d),
                      db_schedules := filter (\<lambda>s. sc_def s \<noteq> did) (db_schedules d)\<rparr>)))"

text \<open>\<^verbatim>\<open>SetEnabled\<close>. Statements: 0 begin, 1 update, 2 cancel the queued runs, 3 commit,
  \<open>4 + i\<close> the events.\<close>

definition disable_row :: "time \<Rightarrow> run_row \<Rightarrow> run_row" where
  "disable_row now r = r\<lparr>tr_state := Cancelled, tr_finished_at := Some now, tr_updated_at := now\<rparr>"

fun append_disabled :: "faults \<Rightarrow> nat \<Rightarrow> time \<Rightarrow> ident list \<Rightarrow> db \<Rightarrow> store_error + db" where
  "append_disabled flt k now [] d = Inr d"
| "append_disabled flt k now (rid # rids) d = stmt flt k ErrStore
     (append_disabled flt (k + 1) now rids
        (append_event rid ''run.cancelled'' Cancelled (message_payload MsgDisabledCancelled) now d))"

definition SetEnabled ::
  "faults \<Rightarrow> time \<Rightarrow> ident \<Rightarrow> bool \<Rightarrow> bool \<Rightarrow> db \<Rightarrow> (store_error + unit) \<times> db" where
  "SetEnabled flt now did enabled cancelQueued d = tx d (stmt flt 0 ErrStore (stmt flt 1 ErrStore
     (if row_by df_id did (db_defs d) = None then Inl ErrDefinitionNotFound
      else
        (let d1 = d\<lparr>db_defs := update_where (\<lambda>df. df_id df = did)
                     (\<lambda>df. df\<lparr>df_enabled := enabled, df_updated_at := now\<rparr>) (db_defs d)\<rparr>
         in if \<not> enabled \<and> cancelQueued
            then stmt flt 2 ErrStore
              (let p = (\<lambda>r. tr_def r = did \<and> tr_state r = Queued);
                   rids = map tr_id (filter p (db_runs d1));
                   d2 = set_runs p (disable_row now) d1
               in case append_disabled flt 4 now rids d2 of
                    Inl e \<Rightarrow> Inl e
                  | Inr d3 \<Rightarrow> stmt flt 3 ErrStore (Inr ((), d3)))
            else stmt flt 3 ErrStore (Inr ((), d1))))))"

section \<open>Parameter validation\<close>

definition param_ok :: "string \<Rightarrow> json \<Rightarrow> bool" where
  "param_ok ty v =
     (if ty = ''string'' then (case v of JStr _ \<Rightarrow> True | _ \<Rightarrow> False)
      else if ty = ''boolean'' then (case v of JBool _ \<Rightarrow> True | _ \<Rightarrow> False)
      else if ty = ''number'' then (case v of JNum _ \<Rightarrow> True | _ \<Rightarrow> False)
      else False)"

fun validateParameters :: "param_def list \<Rightarrow> params \<Rightarrow> labels \<Rightarrow> bool" where
  "validateParameters [] values refs = True"
| "validateParameters (pd # pds) values refs =
     (if \<not> blank (str_at refs (pd_name pd))
      then (if pd_type pd \<noteq> ''string'' then False
            else if map_of values (pd_name pd) \<noteq> None then False
            else validateParameters pds values refs)
      else (case map_of values (pd_name pd) of
              None \<Rightarrow> if pd_required pd then False else validateParameters pds values refs
            | Some v \<Rightarrow>
                if v = JNull
                then if pd_required pd then False else validateParameters pds values refs
                else if \<not> param_ok (pd_type pd) v then False
                else validateParameters pds values refs))"

definition validateVersionParameters ::
  "ident \<Rightarrow> ident \<Rightarrow> params \<Rightarrow> labels \<Rightarrow> db \<Rightarrow> store_error + unit" where
  "validateVersionParameters scriptID versionID values refs d =
     (case find (\<lambda>v. vr_id v = versionID \<and> vr_script v = scriptID) (db_versions d) of
        None \<Rightarrow> Inl ErrVersionUnavailable
      | Some v \<Rightarrow> if validateParameters (vr_params v) values refs then Inr () else Inl ErrInvalidParameters)"

section \<open>Triggering a run\<close>

definition lockDueSchedule ::
  "(string \<Rightarrow> (int \<Rightarrow> int) option) \<Rightarrow> due_schedule option \<Rightarrow> db \<Rightarrow> store_error + time option" where
  "lockDueSchedule zones expected d =
     (case expected of
        None \<Rightarrow> Inr None
      | Some e \<Rightarrow>
          (case find (\<lambda>s. sc_id s = du_id e \<and> sc_def s = du_def e) (db_schedules d) of
             None \<Rightarrow> Inl ErrScheduleChanged
           | Some s \<Rightarrow>
               if \<not> sc_enabled s \<or> sc_next s \<noteq> Some (du_fire e) \<or> sc_cron s \<noteq> du_expression e \<or>
                  sc_timezone s \<noteq> du_timezone e \<or> sc_updated_at s \<noteq> du_updated e
               then Inl ErrScheduleChanged
               else (case nextCronTime zones (sc_cron s) (sc_timezone s) (du_fire e) of
                       None \<Rightarrow> Inl ErrInvalidCron
                     | Some t \<Rightarrow> Inr (Some t))))"

definition advanceDueSchedule :: "due_schedule option \<Rightarrow> time option \<Rightarrow> time \<Rightarrow> db \<Rightarrow> db" where
  "advanceDueSchedule schedule nxt now d =
     (case schedule of
        None \<Rightarrow> d
      | Some e \<Rightarrow> d\<lparr>db_schedules := update_where (\<lambda>s. sc_id s = du_id e)
                      (\<lambda>s. s\<lparr>sc_next := nxt, sc_updated_at := now\<rparr>) (db_schedules d)\<rparr>)"

definition latest_version :: "db \<Rightarrow> ident \<Rightarrow> version_row option" where
  "latest_version d scriptID =
     (case slice_stable (\<lambda>a b. vr_number a > vr_number b)
             (filter (\<lambda>v. vr_script v = scriptID) (db_versions d)) of
        [] \<Rightarrow> None
      | v # _ \<Rightarrow> Some v)"

definition resolve_version :: "faults \<Rightarrow> def_row \<Rightarrow> db \<Rightarrow> store_error + ident" where
  "resolve_version flt df d =
     (if df_policy df = VersionPinned \<and> df_pinned df \<noteq> None then Inr (the (df_pinned df))
      else stmt flt 3 ErrStore
        (case latest_version d (df_script df) of
           None \<Rightarrow> Inl ErrVersionUnavailable
         | Some v \<Rightarrow> Inr (vr_id v)))"

definition merge_params :: "params \<Rightarrow> params \<Rightarrow> params" where
  "merge_params base over = foldr (\<lambda>(k, v). AList.update k v) over base"

definition queued_row :: "ident \<Rightarrow> def_row \<Rightarrow> ident \<Rightarrow> params \<Rightarrow> trigger_request \<Rightarrow> time \<Rightarrow> run_row" where
  "queued_row fresh df vid ps tg now =
     \<lparr>tr_id = fresh, tr_def = df_id df, tr_version = vid, tr_spec = (df_spec df)\<lparr>sp_params := ps\<rparr>,
      tr_requested_by = nullableUUID (tg_requested_by tg), tr_trigger = tg_type tg, tr_state = Queued,
      tr_server = None, tr_token = None, tr_gone = False, tr_scheduled_for = tg_scheduled_for tg,
      tr_queued_at = now, tr_assigned_at = None, tr_started_at = None, tr_finished_at = None,
      tr_exit_code = None, tr_attempt = 1, tr_retry_of = None, tr_summary = Text [],
      tr_dispatch_attempts = 0, tr_last_dispatch = None, tr_dispatch_error = Text [],
      tr_created_at = now, tr_updated_at = now\<rparr>"

definition run_of_trigger :: "run_row \<Rightarrow> run" where
  "run_of_trigger r = scanRun r \<lparr>vr_id = tr_version r, vr_script = [], vr_number = 0, vr_sha = [],
     vr_entrypoint = [], vr_artifacts = None, vr_params = []\<rparr>"

definition schedule_clash :: "db \<Rightarrow> run_row \<Rightarrow> bool" where
  "schedule_clash d r \<longleftrightarrow> tr_scheduled_for r \<noteq> None \<and>
     list_ex (\<lambda>q. tr_def q = tr_def r \<and> tr_scheduled_for q = tr_scheduled_for r) (db_runs d)"

definition queued_event :: "ident \<Rightarrow> labels \<Rightarrow> time \<Rightarrow> event_row" where
  "queued_event rid refs now = \<lparr>er_run = rid, er_seq = 0, er_type = ''run.queued'', er_state = Queued,
     er_payload = (message_payload MsgRunQueued)\<lparr>pl_secret_refs := Some refs\<rparr>, er_at = now,
     er_token = None, er_agent_seq = None\<rparr>"

text \<open>
  \<^verbatim>\<open>trigger\<close>. Statements: 0 begin, 1 read the definition, 2 lock the schedule, 3 latest
  version, 4 manifest, 5 insert the run, 6 event, 7 advance the schedule, 8 commit. A run that the
  unique index refuses still commits the advanced schedule and is reported as a duplicate.
\<close>

definition trigger_body :: "faults \<Rightarrow> (string \<Rightarrow> (int \<Rightarrow> int) option) \<Rightarrow> ident \<Rightarrow> time \<Rightarrow> ident \<Rightarrow>
    trigger_request \<Rightarrow> due_schedule option \<Rightarrow> db \<Rightarrow> store_error + ((store_error + run) \<times> db)" where
  "trigger_body flt zones fresh now did tg schedule d =
     stmt flt 0 ErrStore (stmt flt 1 ErrStore
     (case row_by df_id did (db_defs d) of
        None \<Rightarrow> Inl ErrDefinitionNotFound
      | Some df \<Rightarrow>
          if \<not> df_enabled df then Inl ErrDefinitionDisabled
          else (if schedule = None then id else stmt flt 2 ErrStore)
            (case lockDueSchedule zones schedule d of
               Inl e \<Rightarrow> Inl e
             | Inr nxt \<Rightarrow>
                 (case resolve_version flt df d of
                    Inl e \<Rightarrow> Inl e
                  | Inr vid \<Rightarrow>
                      (let ps = merge_params (sp_params (df_spec df)) (tg_params tg) in
                       stmt flt 4 ErrStore
                       (case validateVersionParameters (df_script df) vid ps (df_secret_refs df) d of
                          Inl e \<Rightarrow> Inl e
                        | Inr _ \<Rightarrow>
                            (let row = queued_row fresh df vid ps tg now in
                             stmt flt 5 ErrStore
                             (if run_row_of d fresh \<noteq> None then Inl ErrStore
                              else if schedule_clash d row
                              then (if schedule = None then id else stmt flt 7 ErrStore)
                                (stmt flt 8 ErrStore
                                  (Inr (Inl ErrDuplicateRun, advanceDueSchedule schedule nxt now d)))
                              else stmt flt 6 ErrStore
                                ((if schedule = None then id else stmt flt 7 ErrStore)
                                  (stmt flt 8 ErrStore
                                    (Inr (Inr (run_of_trigger row),
                                      advanceDueSchedule schedule nxt now
                                        (d\<lparr>db_runs := db_runs d @ [row],
                                           db_events := db_events d @ [queued_event fresh (df_secret_refs df) now]\<rparr>)))))))))))))"

definition flatten_result :: "('e + ('e + 'a)) \<times> 'd \<Rightarrow> ('e + 'a) \<times> 'd" where
  "flatten_result rd = (case rd of (Inl e, d) \<Rightarrow> (Inl e, d) | (Inr x, d) \<Rightarrow> (x, d))"

definition trigger :: "faults \<Rightarrow> (string \<Rightarrow> (int \<Rightarrow> int) option) \<Rightarrow> ident \<Rightarrow> time \<Rightarrow> ident \<Rightarrow>
    trigger_request \<Rightarrow> due_schedule option \<Rightarrow> db \<Rightarrow> (store_error + run) \<times> db" where
  "trigger flt zones fresh now did tg0 schedule d =
     (let tg = (if tg_type tg0 = TriggerUnset then tg0\<lparr>tg_type := TriggerManual\<rparr> else tg0) in
      if tg_type tg \<noteq> TriggerManual \<and> tg_type tg \<noteq> TriggerSchedule \<and> tg_type tg \<noteq> TriggerRetry
      then (Inl ErrInvalidDefinition, d)
      else flatten_result (tx d (trigger_body flt zones fresh now did tg schedule d)))"

definition Trigger :: "faults \<Rightarrow> (string \<Rightarrow> (int \<Rightarrow> int) option) \<Rightarrow> ident \<Rightarrow> time \<Rightarrow> ident \<Rightarrow>
    trigger_request \<Rightarrow> db \<Rightarrow> (store_error + run) \<times> db" where
  "Trigger flt zones fresh now did tg d = trigger flt zones fresh now did tg None d"

section \<open>Schedules\<close>

definition default_timezone :: string where
  "default_timezone = ''Asia/Shanghai''"

definition CreateSchedule :: "faults \<Rightarrow> (string \<Rightarrow> (int \<Rightarrow> int) option) \<Rightarrow> ident \<Rightarrow> time \<Rightarrow> time \<Rightarrow>
    schedule_input \<Rightarrow> db \<Rightarrow> (store_error + schedule_row) \<times> db" where
  "CreateSchedule flt zones fresh now dbnow i0 d =
     (let did = trim_space (si_def i0);
          cron = trim_space (si_cron i0);
          tz0 = trim_space (si_timezone i0);
          tz = (if tz0 = [] then default_timezone else tz0)
      in if did = [] \<or> \<not> ValidateCron zones cron tz then (Inl ErrInvalidCron, d)
         else (case nextCronTime zones cron tz now of
                 None \<Rightarrow> (Inl ErrInvalidCron, d)
               | Some nxt \<Rightarrow>
                   if flt 0 \<or> row_by df_id did (db_defs d) = None \<or>
                      row_by sc_id fresh (db_schedules d) \<noteq> None
                   then (Inl ErrStore, d)
                   else (let row = \<lparr>sc_id = fresh, sc_def = did, sc_cron = cron, sc_timezone = tz,
                                    sc_enabled = si_enabled i0, sc_next = Some nxt,
                                    sc_created_at = dbnow, sc_updated_at = dbnow\<rparr>
                         in (Inr row, d\<lparr>db_schedules := db_schedules d @ [row]\<rparr>))))"

definition ListSchedules :: "faults \<Rightarrow> ident \<Rightarrow> db \<Rightarrow> store_error + schedule_row list" where
  "ListSchedules flt did d = stmt flt 0 ErrStore
     (Inr (slice_stable (\<lambda>a b. sc_created_at a < sc_created_at b)
        (filter (\<lambda>s. sc_def s = did) (db_schedules d))))"

definition UpdateSchedule :: "faults \<Rightarrow> (string \<Rightarrow> (int \<Rightarrow> int) option) \<Rightarrow> time \<Rightarrow> ident \<Rightarrow>
    schedule_input \<Rightarrow> db \<Rightarrow> (store_error + schedule_row) \<times> db" where
  "UpdateSchedule flt zones now sid i0 d =
     (let did = si_def i0;
          cron = trim_space (si_cron i0);
          tz0 = trim_space (si_timezone i0);
          tz = (if tz0 = [] then default_timezone else tz0)
      in if did = [] \<or> \<not> ValidateCron zones cron tz then (Inl ErrInvalidCron, d)
         else (case nextCronTime zones cron tz now of
                 None \<Rightarrow> (Inl ErrInvalidCron, d)
               | Some nxt \<Rightarrow>
                   if flt 0 then (Inl ErrStore, d)
                   else
                     (let p = (\<lambda>s. sc_id s = sid \<and> sc_def s = did);
                          upd = (\<lambda>s. s\<lparr>sc_cron := cron, sc_timezone := tz, sc_enabled := si_enabled i0,
                                       sc_next := Some nxt, sc_updated_at := now\<rparr>)
                      in case find p (db_schedules d) of
                           None \<Rightarrow> (Inl ErrDefinitionNotFound, d)
                         | Some s \<Rightarrow> (Inr (upd s), d\<lparr>db_schedules := update_where p upd (db_schedules d)\<rparr>))))"

definition DeleteSchedule :: "faults \<Rightarrow> ident \<Rightarrow> ident \<Rightarrow> db \<Rightarrow> (store_error + unit) \<times> db" where
  "DeleteSchedule flt did sid d =
     (let p = (\<lambda>s. sc_id s = sid \<and> sc_def s = did) in
      if flt 0 then (Inl ErrStore, d)
      else if \<not> list_ex p (db_schedules d) then (Inl ErrDefinitionNotFound, d)
      else (Inr (), d\<lparr>db_schedules := filter (\<lambda>s. \<not> p s) (db_schedules d)\<rparr>))"

definition due_less :: "schedule_row \<Rightarrow> schedule_row \<Rightarrow> bool" where
  "due_less a b =
     (case (sc_next a, sc_next b) of
        (Some s, Some t) \<Rightarrow> if s \<noteq> t then s < t else sc_id a < sc_id b
      | (Some s, None) \<Rightarrow> True
      | (None, Some t) \<Rightarrow> False
      | (None, None) \<Rightarrow> sc_id a < sc_id b)"

definition due_schedules :: "time \<Rightarrow> db \<Rightarrow> due_schedule list" where
  "due_schedules now d =
     map (\<lambda>s. \<lparr>du_id = sc_id s, du_def = sc_def s, du_expression = sc_cron s,
               du_timezone = sc_timezone s, du_fire = the (sc_next s), du_updated = sc_updated_at s\<rparr>)
       (slice_stable due_less
         (filter (\<lambda>s. sc_enabled s \<and>
             (case row_by df_id (sc_def s) (db_defs d) of None \<Rightarrow> False | Some df \<Rightarrow> df_enabled df) \<and>
             (case sc_next s of None \<Rightarrow> False | Some t \<Rightarrow> t \<le> now)) (db_schedules d)))"

text \<open>The loop of \<^verbatim>\<open>ScheduleDue\<close>: item \<open>k\<close> runs its own transaction; \<open>stopped k\<close> says that the
  context has ended before it. The result is the runs created and the failures collected.\<close>

fun schedule_each :: "(nat \<Rightarrow> faults) \<Rightarrow> (nat \<Rightarrow> bool) \<Rightarrow> (string \<Rightarrow> (int \<Rightarrow> int) option) \<Rightarrow> (nat \<Rightarrow> ident) \<Rightarrow>
    nat \<Rightarrow> time \<Rightarrow> due_schedule list \<Rightarrow> db \<Rightarrow> (run list \<times> store_error list) \<times> db" where
  "schedule_each flt stopped zones fresh k now [] d = (([], []), d)"
| "schedule_each flt stopped zones fresh k now (item # items) d =
     (if stopped k then (([], [ErrStore]), d)
      else
        (case trigger (flt k) zones (fresh k) now (du_def item)
                \<lparr>tg_type = TriggerSchedule, tg_requested_by = [], tg_params = [],
                 tg_scheduled_for = Some (du_fire item)\<rparr> (Some item) d of
           (res, d1) \<Rightarrow>
             (case schedule_each flt stopped zones fresh (k + 1) now items d1 of
                ((runs, fails), d2) \<Rightarrow>
                  (case res of
                     Inr r \<Rightarrow> ((r # runs, fails), d2)
                   | Inl e \<Rightarrow>
                       if e \<noteq> ErrDuplicateRun \<and> e \<noteq> ErrScheduleChanged \<and>
                          e \<noteq> ErrDefinitionDisabled \<and> e \<noteq> ErrDefinitionNotFound
                       then ((runs, e # fails), d2)
                       else ((runs, fails), d2)))))"

definition ScheduleDue :: "(nat \<Rightarrow> faults) \<Rightarrow> (nat \<Rightarrow> bool) \<Rightarrow> (string \<Rightarrow> (int \<Rightarrow> int) option) \<Rightarrow>
    (nat \<Rightarrow> ident) \<Rightarrow> time \<Rightarrow> db \<Rightarrow> (run list \<times> store_error list) \<times> db" where
  "ScheduleDue flt stopped zones fresh now d =
     (if flt 0 0 then (([], [ErrStore]), d)
      else schedule_each flt stopped zones fresh 1 now (due_schedules now d) d)"

end
