(* ===== verification/Run_Machine.thy ===== *)
theory Run_Machine
  imports Dispatch Task_Service
begin

text \<open>
  The run state machine as a whole: an abstract life cycle of runs, the invariant of the run
  tables, and the proof that every transaction of \<open>Run_Store\<close>, \<open>Run_Events\<close>, \<open>Task_Service\<close> and
  \<open>Dispatch\<close> keeps the invariant and moves runs only along the life cycle. Reachable databases
  are those that these transactions produce from empty run tables, in any interleaving and with
  any statements failing.
\<close>

section \<open>The life cycle\<close>

fun stage :: "run_state \<Rightarrow> nat" where
  "stage Queued = 0"
| "stage Scheduling = 0"
| "stage Assigned = 1"
| "stage Syncing = 2"
| "stage Running = 3"
| "stage Unknown = 3"
| "stage _ = 4"

text \<open>A run only moves to later stages, or between running and unknown; only a queued run expires.\<close>

definition lifecycle :: "run_state \<Rightarrow> run_state \<Rightarrow> bool" where
  "lifecycle s s' \<longleftrightarrow> s = s' \<or>
     (stage s < stage s' \<or> stage s = 3 \<and> stage s' = 3) \<and> (s' = Expired \<longrightarrow> s = Queued)"

lemma lifecycle_refl [simp]: "lifecycle s s"
  by (simp add: lifecycle_def)

lemma lifecycle_trans: "lifecycle s t \<Longrightarrow> lifecycle t u \<Longrightarrow> lifecycle s u"
  by (cases t; cases u; cases s; simp add: lifecycle_def)

lemma lifecycle_terminal: "Terminal s \<Longrightarrow> lifecycle s s' \<Longrightarrow> s' = s"
  by (cases s; cases s'; simp add: lifecycle_def)

abbreviation live :: "run_state \<Rightarrow> bool" where
  "live s \<equiv> s \<in> {Assigned, Syncing, Running, Unknown}"

definition same_keys :: "run_row \<Rightarrow> run_row \<Rightarrow> bool" where
  "same_keys r r' \<longleftrightarrow> tr_id r' = tr_id r \<and> tr_def r' = tr_def r \<and> tr_version r' = tr_version r \<and>
     tr_spec r' = tr_spec r \<and> tr_attempt r' = tr_attempt r \<and> tr_retry_of r' = tr_retry_of r \<and>
     tr_scheduled_for r' = tr_scheduled_for r \<and> tr_queued_at r' = tr_queued_at r \<and>
     tr_created_at r' = tr_created_at r"

definition row_evolves :: "run_row \<Rightarrow> run_row \<Rightarrow> bool" where
  "row_evolves r r' \<longleftrightarrow> same_keys r r' \<and> lifecycle (tr_state r) (tr_state r') \<and>
     (tr_token r \<noteq> None \<longrightarrow> tr_token r' = tr_token r) \<and> (tr_server r \<noteq> None \<longrightarrow> tr_server r' = tr_server r)"

text \<open>Runs are never dropped, keep their identity and their snapshot, and move along the life
  cycle; events are only appended.\<close>

definition evolves :: "db \<Rightarrow> db \<Rightarrow> bool" where
  "evolves d d' \<longleftrightarrow>
     (\<forall>rid r. run_row_of d rid = Some r \<longrightarrow> (\<exists>r'. run_row_of d' rid = Some r' \<and> row_evolves r r')) \<and>
     prefix (db_events d) (db_events d')"

lemma row_evolves_refl [simp]: "row_evolves r r"
  by (simp add: row_evolves_def same_keys_def)

lemma row_evolves_trans: "row_evolves r s \<Longrightarrow> row_evolves s t \<Longrightarrow> row_evolves r t"
  by (auto simp: row_evolves_def same_keys_def intro: lifecycle_trans)

lemma evolves_refl [simp]: "evolves d d"
  by (auto simp: evolves_def)

lemma evolves_trans: "evolves d e \<Longrightarrow> evolves e f \<Longrightarrow> evolves d f"
  unfolding evolves_def by (meson row_evolves_trans prefix_order.trans)

section \<open>The invariant\<close>

definition row_ok :: "run_row \<Rightarrow> bool" where
  "row_ok r \<longleftrightarrow>
     (tr_state r = Queued \<longrightarrow> tr_token r = None \<and> tr_server r = None) \<and>
     (live (tr_state r) \<longrightarrow> tr_token r \<noteq> None \<and> tr_server r \<noteq> None) \<and>
     (Terminal (tr_state r) \<longrightarrow> tr_finished_at r \<noteq> None)"

definition runs_ok :: "db \<Rightarrow> bool" where
  "runs_ok d \<longleftrightarrow> distinct (map tr_id (db_runs d)) \<and> (\<forall>r \<in> set (db_runs d). row_ok r)"

definition lease_fits :: "lease_row \<Rightarrow> run_row \<Rightarrow> bool" where
  "lease_fits l r \<longleftrightarrow> tr_server r = Some (lr_server l) \<and> tr_state r \<noteq> Queued \<and>
     (lr_released l = None \<longrightarrow> live (tr_state r))"

definition leases_ok :: "db \<Rightarrow> bool" where
  "leases_ok d \<longleftrightarrow> distinct (map lr_run (db_leases d)) \<and>
     (\<forall>l \<in> set (db_leases d). \<exists>r. run_row_of d (lr_run l) = Some r \<and> lease_fits l r)"

definition run_log :: "db \<Rightarrow> ident \<Rightarrow> event_row list" where
  "run_log d rid = filter (\<lambda>e. er_run e = rid) (db_events d)"

definition events_ok :: "db \<Rightarrow> bool" where
  "events_ok d \<longleftrightarrow> (\<forall>rid. map er_seq (run_log d rid) = map int [0..<length (run_log d rid)]) \<and>
     (\<forall>e \<in> set (db_events d). run_row_of d (er_run e) \<noteq> None)"

definition attempt_ok :: "db \<Rightarrow> run_row \<Rightarrow> bool" where
  "attempt_ok d r \<longleftrightarrow>
     (case tr_retry_of r of
        None \<Rightarrow> tr_attempt r = 1
      | Some p \<Rightarrow> 2 \<le> tr_attempt r \<and> tr_attempt r \<le> sp_max_retries (tr_spec r) + 1 \<and>
                 (\<exists>q. run_row_of d p = Some q \<and> tr_retry_of q = None))"

definition lineage_ok :: "db \<Rightarrow> bool" where
  "lineage_ok d \<longleftrightarrow> (\<forall>r \<in> set (db_runs d). attempt_ok d r) \<and>
     (\<forall>r \<in> set (db_runs d). \<forall>q \<in> set (db_runs d).
        root_of r = root_of q \<and> tr_attempt r = tr_attempt q \<longrightarrow> tr_id r = tr_id q)"

definition slots_ok :: "db \<Rightarrow> bool" where
  "slots_ok d \<longleftrightarrow> (\<forall>r \<in> set (db_runs d). \<forall>q \<in> set (db_runs d).
     tr_scheduled_for r \<noteq> None \<and> tr_def r = tr_def q \<and> tr_scheduled_for r = tr_scheduled_for q \<longrightarrow>
     tr_id r = tr_id q)"

definition store_ok :: "db \<Rightarrow> bool" where
  "store_ok d \<longleftrightarrow> runs_ok d \<and> leases_ok d \<and> events_ok d \<and> lineage_ok d \<and> slots_ok d"

definition safe :: "db \<Rightarrow> db \<Rightarrow> bool" where
  "safe d d' \<longleftrightarrow> (store_ok d \<longrightarrow> store_ok d' \<and> evolves d d')"

lemma safe_refl [simp, intro]: "safe d d"
  by (simp add: safe_def)

lemma safe_trans: "safe d e \<Longrightarrow> safe e f \<Longrightarrow> safe d f"
  unfolding safe_def by (blast intro: evolves_trans)

lemma safe_tx: "(\<And>a d'. body = Inr (a, d') \<Longrightarrow> safe d d') \<Longrightarrow> safe d (snd (tx d body))"
  by (auto simp: tx_snd split: sum.splits)

section \<open>Building blocks\<close>

lemma run_row_of_in: "run_row_of d rid = Some r \<Longrightarrow> r \<in> set (db_runs d) \<and> tr_id r = rid"
  unfolding run_row_of_def by (rule row_by_Some)

lemma run_row_of_distinct:
  "runs_ok d \<Longrightarrow> r \<in> set (db_runs d) \<Longrightarrow> run_row_of d (tr_id r) = Some r"
  unfolding run_row_of_def runs_ok_def by (blast intro: row_by_distinct)

text \<open>The invariant reads the runs, events and leases only.\<close>

lemma run_row_of_cong: "db_runs d' = db_runs d \<Longrightarrow> run_row_of d' = run_row_of d"
  by (simp add: run_row_of_def fun_eq_iff)

lemma frame_runs:
  assumes "db_runs d' = db_runs d"
  shows "runs_ok d' = runs_ok d" "lineage_ok d' = lineage_ok d" "slots_ok d' = slots_ok d"
  unfolding runs_ok_def lineage_ok_def attempt_ok_def slots_ok_def assms run_row_of_cong [OF assms] by (rule refl)+

lemma frame_leases:
  assumes "db_runs d' = db_runs d" "db_leases d' = db_leases d"
  shows "leases_ok d' = leases_ok d"
  unfolding leases_ok_def assms run_row_of_cong [OF assms(1)] by (rule refl)

lemma frame_events:
  assumes "db_runs d' = db_runs d" "db_events d' = db_events d"
  shows "events_ok d' = events_ok d"
  unfolding events_ok_def run_log_def assms run_row_of_cong [OF assms(1)] by (rule refl)

lemma frame_evolves:
  assumes "db_runs d' = db_runs d" "prefix (db_events d) (db_events d')"
  shows "evolves d d'"
  unfolding evolves_def run_row_of_cong [OF assms(1)] using assms(2) by auto

lemma safe_other_tables:
  assumes "db_runs d' = db_runs d" "db_events d' = db_events d" "db_leases d' = db_leases d"
  shows "safe d d'"
  using frame_runs [OF assms(1)] frame_leases [OF assms(1,3)] frame_events [OF assms(1,2)]
    frame_evolves [OF assms(1)] assms(2)
  by (simp add: safe_def store_ok_def)

lemma max_col_upt: "max_col (-1) (map int [0..<n]) = int n - 1"
proof (cases n)
  case (Suc m)
  have "max_col (-1) (map int [0..<n]) \<in> set (map int [0..<n])" using Suc by (intro max_col_in) simp
  moreover have "int m \<le> max_col (-1) (map int [0..<n])" using Suc by (intro max_col_ge) auto
  ultimately show ?thesis using Suc by auto
qed simp

lemma next_seq_length: "events_ok d \<Longrightarrow> next_seq d rid = int (length (run_log d rid))"
  by (simp add: next_seq_def events_ok_def run_log_def [symmetric] max_col_upt)

lemma safe_event:
  assumes "run_row_of d (er_run e) \<noteq> None" "er_seq e = next_seq d (er_run e)"
  shows "safe d (d\<lparr>db_events := db_events d @ [e]\<rparr>)"
proof -
  let ?d = "d\<lparr>db_events := db_events d @ [e]\<rparr>"
  have rr: "run_row_of ?d = run_row_of d" by (simp add: run_row_of_def fun_eq_iff)
  have log: "run_log ?d rid = run_log d rid @ (if er_run e = rid then [e] else [])" for rid
    by (simp add: run_log_def)
  have "events_ok ?d" if "store_ok d"
    using that assms next_seq_length [of d "er_run e"]
    by (auto simp: events_ok_def store_ok_def rr log)
  then show ?thesis
    using frame_runs [of ?d d] frame_leases [of ?d d] frame_evolves [of ?d d]
    by (simp add: safe_def store_ok_def)
qed

lemma safe_append_event: "run_row_of d rid \<noteq> None \<Longrightarrow> safe d (append_event rid ty st pl at d)"
  unfolding append_event_def by (rule safe_event) simp_all

lemma safe_append_agent_event:
  "run_row_of d (ev_run ev) \<noteq> None \<Longrightarrow> safe d (append_agent_event ev st pl d)"
  unfolding append_agent_event_def by (rule safe_event) simp_all

lemma safe_release: "safe d (release_leases rid at d)"
proof -
  let ?d = "release_leases rid at d"
  have rr: "run_row_of ?d = run_row_of d" by (simp add: release_leases_def run_row_of_def fun_eq_iff)
  have "map lr_run (db_leases ?d) = map lr_run (db_leases d)"
    by (simp add: release_leases_def map_update_where)
  moreover have "\<exists>r. run_row_of d (lr_run l) = Some r \<and> lease_fits l r"
    if "leases_ok d" "l \<in> set (db_leases ?d)" for l
    using that by (fastforce simp: release_leases_def set_update_where leases_ok_def lease_fits_def)
  ultimately have "leases_ok ?d" if "leases_ok d"
    using that by (simp add: leases_ok_def rr)
  moreover have "db_runs ?d = db_runs d" "db_events ?d = db_events d" by (simp_all add: release_leases_def)
  ultimately show ?thesis
    using frame_runs [of ?d d] frame_events [of ?d d] frame_evolves [of ?d d]
    by (simp add: safe_def store_ok_def)
qed

text \<open>An update of run rows is good if each row it changes evolves, stays well formed and fits the
  leases of the run.\<close>

definition good_row :: "db \<Rightarrow> run_row \<Rightarrow> run_row \<Rightarrow> bool" where
  "good_row d r r' \<longleftrightarrow> row_evolves r r' \<and> row_ok r' \<and>
     (\<forall>l \<in> set (db_leases d). lr_run l = tr_id r \<longrightarrow> lease_fits l r \<longrightarrow> lease_fits l r')"

lemma run_row_of_map:
  assumes "runs_ok d" "db_runs d' = map g (db_runs d)" "\<And>r. r \<in> set (db_runs d) \<Longrightarrow> tr_id (g r) = tr_id r"
  shows "run_row_of d' rid = map_option g (run_row_of d rid)"
proof -
  have ids: "map tr_id (map g (db_runs d)) = map tr_id (db_runs d)" using assms(3) by simp
  show ?thesis
  proof (cases "run_row_of d rid")
    case None
    then have "rid \<notin> set (map tr_id (db_runs d))" by (simp add: run_row_of_def row_by_None)
    then have "rid \<notin> set (map tr_id (map g (db_runs d)))" unfolding ids .
    then have "row_by tr_id rid (map g (db_runs d)) = None" by (auto simp: row_by_None)
    then show ?thesis using None by (simp add: run_row_of_def assms(2))
  next
    case (Some r)
    then have r: "r \<in> set (db_runs d)" "tr_id r = rid" using run_row_of_in by blast+
    have "distinct (map tr_id (map g (db_runs d)))" using assms(1) unfolding ids by (simp add: runs_ok_def)
    then have "row_by tr_id (tr_id (g r)) (map g (db_runs d)) = Some (g r)"
      using r(1) by (intro row_by_distinct) auto
    then show ?thesis using Some assms(3) [OF r(1)] r(2) by (simp add: run_row_of_def assms(2))
  qed
qed

lemma lineage_map:
  assumes lo: "lineage_ok d" and runs: "db_runs d' = map g (db_runs d)"
    and keys: "\<And>r. r \<in> set (db_runs d) \<Longrightarrow> same_keys r (g r)"
    and rr: "\<And>rid. run_row_of d' rid = map_option g (run_row_of d rid)"
  shows "lineage_ok d'"
proof -
  have k: "tr_retry_of (g r) = tr_retry_of r" "tr_attempt (g r) = tr_attempt r" "tr_spec (g r) = tr_spec r"
    "tr_id (g r) = tr_id r" "root_of (g r) = root_of r" if "r \<in> set (db_runs d)" for r
    using keys [OF that] by (simp_all add: same_keys_def root_of_def split: option.splits)
  have par: "\<exists>q. run_row_of d' p = Some q \<and> tr_retry_of q = None"
    if "run_row_of d p = Some q" "tr_retry_of q = None" for p q
    using that k(1) run_row_of_in [OF that(1)] by (simp add: rr)
  have "attempt_ok d' (g r)" if r: "r \<in> set (db_runs d)" for r
  proof (cases "tr_retry_of r")
    case None
    then show ?thesis
      using bspec [OF conjunct1 [OF lo [unfolded lineage_ok_def]] r] by (simp add: attempt_ok_def k [OF r])
  next
    case (Some p)
    then have a: "2 \<le> tr_attempt r" "tr_attempt r \<le> sp_max_retries (tr_spec r) + 1"
      and "\<exists>q. run_row_of d p = Some q \<and> tr_retry_of q = None"
      using bspec [OF conjunct1 [OF lo [unfolded lineage_ok_def]] r] by (simp_all add: attempt_ok_def)
    then show ?thesis using par Some by (auto simp: attempt_ok_def k [OF r])
  qed
  moreover have "tr_id (g r) = tr_id (g q)"
    if rq: "r \<in> set (db_runs d)" "q \<in> set (db_runs d)" "root_of (g r) = root_of (g q)"
      "tr_attempt (g r) = tr_attempt (g q)" for r q
    using lo rq unfolding k [OF rq(1)] k [OF rq(2)] lineage_ok_def by blast
  ultimately show ?thesis unfolding lineage_ok_def runs set_map by blast
qed

lemma safe_set_runs:
  assumes "\<And>r. store_ok d \<Longrightarrow> r \<in> set (db_runs d) \<Longrightarrow> p r \<Longrightarrow> good_row d r (f r)"
  shows "safe d (set_runs p f d)"
proof (unfold safe_def, intro impI)
  assume ok: "store_ok d"
  define g where "g r = (if p r then f r else r)" for r
  let ?d = "set_runs p f d"
  have runs: "db_runs ?d = map g (db_runs d)" by (simp add: set_runs_def update_where_def g_def)
  have same: "db_events ?d = db_events d" "db_leases ?d = db_leases d" by (simp_all add: set_runs_def)
  have ev: "row_evolves r (g r)" if "r \<in> set (db_runs d)" for r
    using assms [OF ok that] by (auto simp: g_def good_row_def)
  have keys: "same_keys r (g r)" if "r \<in> set (db_runs d)" for r
    using ev [OF that] by (simp add: row_evolves_def)
  have rok: "runs_ok d" using ok by (simp add: store_ok_def)
  have rr: "run_row_of ?d rid = map_option g (run_row_of d rid)" for rid
    using keys by (intro run_row_of_map [OF rok runs]) (simp add: same_keys_def)
  have ids: "map tr_id (map g (db_runs d)) = map tr_id (db_runs d)"
    using keys by (simp add: same_keys_def)
  have "runs_ok ?d"
    using rok assms [OF ok] unfolding runs_ok_def runs ids by (auto simp: g_def good_row_def)
  moreover have "leases_ok ?d"
    unfolding leases_ok_def same
  proof (intro conjI ballI)
    show "distinct (map lr_run (db_leases d))" using ok by (simp add: store_ok_def leases_ok_def)
    fix l
    assume l: "l \<in> set (db_leases d)"
    then obtain r where r: "run_row_of d (lr_run l) = Some r" "lease_fits l r"
      using ok by (auto simp: store_ok_def leases_ok_def)
    have "r \<in> set (db_runs d)" "lr_run l = tr_id r" using run_row_of_in [OF r(1)] by auto
    then have "lease_fits l (g r)" using assms [OF ok, of r] l r(2) by (auto simp: g_def good_row_def)
    then show "\<exists>r. run_row_of ?d (lr_run l) = Some r \<and> lease_fits l r" using r(1) by (simp add: rr)
  qed
  moreover have "events_ok ?d" using ok by (simp add: store_ok_def events_ok_def run_log_def same rr)
  moreover have "lineage_ok ?d" using ok lineage_map [OF _ runs keys rr] by (simp add: store_ok_def)
  moreover have "slots_ok ?d"
    using ok keys unfolding store_ok_def slots_ok_def runs by (simp add: same_keys_def) blast
  moreover have "evolves d ?d"
    unfolding evolves_def rr same using ev run_row_of_in by auto
  ultimately show "store_ok ?d \<and> evolves d ?d" by (simp add: store_ok_def)
qed

lemma store_okD:
  assumes "store_ok d"
  shows "runs_ok d" "leases_ok d" "events_ok d" "lineage_ok d" "slots_ok d"
  using assms by (simp_all add: store_ok_def)

lemma row_okD: "store_ok d \<Longrightarrow> r \<in> set (db_runs d) \<Longrightarrow> row_ok r"
  by (simp add: store_ok_def runs_ok_def)

lemma row_of_id:
  "store_ok d \<Longrightarrow> r \<in> set (db_runs d) \<Longrightarrow> tr_id r = rid \<Longrightarrow> run_row_of d rid = Some r"
  using run_row_of_distinct [of d r] by (auto simp: store_ok_def)

lemma no_lease_of_queued:
  assumes "store_ok d" "run_row_of d rid = Some r" "tr_state r = Queued" "l \<in> set (db_leases d)"
  shows "lr_run l \<noteq> rid"
  using assms by (auto simp: store_ok_def leases_ok_def lease_fits_def)

text \<open>A change of columns that the invariant does not read.\<close>

lemma good_row_quiet:
  assumes "store_ok d" "r \<in> set (db_runs d)" "same_keys r r'" "tr_state r' = tr_state r"
    "tr_server r' = tr_server r" "tr_token r' = tr_token r" "tr_finished_at r' = tr_finished_at r"
  shows "good_row d r r'"
  using row_okD [OF assms(1,2)] assms(3-7)
  by (simp add: good_row_def row_evolves_def row_ok_def lease_fits_def)

lemma run_row_of_set_runs:
  "(\<And>r. tr_id (f r) = tr_id r) \<Longrightarrow>
   run_row_of (set_runs p f d) rid = map_option (\<lambda>r. if p r then f r else r) (run_row_of d rid)"
  by (simp add: run_row_of_def set_runs_def row_by_update_where)

lemma run_row_of_event [simp]:
  "run_row_of (append_event rid ty st pl at d) = run_row_of d"
  "run_row_of (append_agent_event ev st pl d) = run_row_of d"
  "run_row_of (release_leases rid at d) = run_row_of d"
  "run_row_of (insert_lease a d) = run_row_of d"
  by (simp_all add: append_event_def append_agent_event_def release_leases_def insert_lease_def
      run_row_of_def fun_eq_iff)

text \<open>Updates of one run, followed by an event of that run.\<close>

lemma safe_update_event:
  assumes "\<And>r. tr_id (f r) = tr_id r" "run_row_of d rid \<noteq> None"
    "\<And>r. store_ok d \<Longrightarrow> r \<in> set (db_runs d) \<Longrightarrow> p r \<Longrightarrow> good_row d r (f r)"
  shows "safe d (append_event rid ty st pl at (set_runs p f d))"
  by (rule safe_trans [OF safe_set_runs [OF assms(3)] safe_append_event])
    (use assms(1,2) in \<open>simp_all add: run_row_of_set_runs\<close>)

section \<open>The scheduler's transactions\<close>

lemma good_take_run:
  assumes "store_ok d" "r \<in> set (db_runs d)" "tr_state r = Queued"
  shows "good_row d r (take_run a r)"
proof -
  have n: "tr_token r = None" "tr_server r = None" using row_okD [OF assms(1,2)] assms(3) by (auto simp: row_ok_def)
  have "row_evolves r (take_run a r)"
    using assms(3) n by (simp add: row_evolves_def same_keys_def take_run_def lifecycle_def)
  moreover have "row_ok (take_run a r)" by (simp add: row_ok_def take_run_def)
  moreover have "\<not> lease_fits l r" for l using assms(3) by (simp add: lease_fits_def)
  ultimately show ?thesis by (simp add: good_row_def)
qed

lemma leases_ok_snoc:
  assumes "leases_ok d" "run_row_of d (lr_run l) = Some r" "lease_fits l r"
    "lr_run l \<notin> lr_run ` set (db_leases d)"
  shows "leases_ok (d\<lparr>db_leases := db_leases d @ [l]\<rparr>)"
proof -
  have "run_row_of (d\<lparr>db_leases := db_leases d @ [l]\<rparr>) = run_row_of d" by (rule run_row_of_cong) simp
  then show ?thesis using assms by (auto simp: leases_ok_def)
qed

lemma safe_assign:
  assumes "run_row_of d (as_run a) = Some r" "tr_state r = Queued"
  shows "safe d (insert_lease a (set_runs (\<lambda>r. tr_id r = as_run a \<and> tr_state r = Queued) (take_run a) d))"
proof (unfold safe_def, intro impI)
  assume ok: "store_ok d"
  let ?d = "set_runs (\<lambda>r. tr_id r = as_run a \<and> tr_state r = Queued) (take_run a) d"
  have "safe d ?d" using good_take_run by (intro safe_set_runs) blast
  then have s: "store_ok ?d" "evolves d ?d" using ok by (auto simp: safe_def)
  have ids: "tr_id (take_run a q) = tr_id q" for q by (simp add: take_run_def)
  have row: "run_row_of ?d (as_run a) = Some (take_run a r)"
    using assms run_row_of_in [OF assms(1)] by (simp add: run_row_of_set_runs ids)
  have le: "db_leases ?d = db_leases d" by (simp add: set_runs_def)
  have same: "db_runs (insert_lease a ?d) = db_runs ?d" "db_events (insert_lease a ?d) = db_events ?d"
    by (simp_all add: insert_lease_def)
  have nl: "as_run a \<notin> lr_run ` set (db_leases ?d)"
    unfolding le using no_lease_of_queued [OF ok assms] by (metis imageE)
  have "leases_ok (insert_lease a ?d)"
    unfolding insert_lease_def
    by (rule leases_ok_snoc [where r = "take_run a r", OF store_okD(2) [OF s(1)]])
      (use row nl in simp, simp add: lease_fits_def take_run_def, use nl in simp)
  then have "store_ok (insert_lease a ?d)"
    using s(1) frame_runs [OF same(1)] frame_events [OF same] by (simp add: store_ok_def)
  moreover have "evolves ?d (insert_lease a ?d)" using frame_evolves [OF same(1)] same(2) by simp
  ultimately show "store_ok (insert_lease a ?d) \<and> evolves d (insert_lease a ?d)"
    using s(2) evolves_trans by blast
qed

lemma ensure_sync_other: "db_runs (ensure_sync s v at d) = db_runs d"
  "db_events (ensure_sync s v at d) = db_events d" "db_leases (ensure_sync s v at d) = db_leases d"
  by (simp_all add: ensure_sync_def)

definition taken :: "assignment \<Rightarrow> db \<Rightarrow> db" where
  "taken a d = set_runs (\<lambda>r. tr_id r = as_run a \<and> tr_state r = Queued) (take_run a) d"

lemma assign_verified_Inr:
  assumes "assign_verified flt a r d d1 = Inr (b, d')"
  shows "\<not> b \<and> d' = d \<or> b \<and> int (active_count d1 (tr_def r)) < sp_max_concurrency (tr_spec r) \<and>
    d' = append_event (as_run a) ''run.assigned'' Assigned (assigned_payload a) (as_at a)
           (insert_lease a (taken a d1))"
  using assms by (auto simp: assign_verified_def taken_def Let_def not_le split: if_splits)

lemma Assign_cases:
  assumes "Assign flt a d = (res, d')"
  obtains (same) "d' = d" "res \<noteq> Inr True"
  | (pending) r where "run_row_of d (as_run a) = Some r" "tr_state r = Queued" "res = Inr False"
      "d' = ensure_sync (as_server a) (tr_version r) (as_at a) d"
  | (assigned) r d1 where "run_row_of d (as_run a) = Some r" "tr_state r = Queued"
      "tr_queued_at r \<le> as_at a" "res = Inr True"
      "d1 = ensure_sync (as_server a) (tr_version r) (as_at a) d"
      "sync_verified d1 (as_server a) (tr_version r) = Some True"
      "int (active_count d1 (tr_def r)) < sp_max_concurrency (tr_spec r)"
      "d' = append_event (as_run a) ''run.assigned'' Assigned (assigned_payload a) (as_at a)
              (insert_lease a (taken a d1))"
proof (cases res)
  case (Inl e)
  then have "d' = d" using assms by (auto simp: Assign_def tx_def split: sum.splits)
  then show ?thesis using same Inl by simp
next
  case (Inr b)
  have body: "Assign flt a d = (Inr b, d')" using assms Inr by simp
  show ?thesis
  proof (cases "run_row_of d (as_run a)")
    case None
    then show ?thesis using body same Inr by (simp add: Assign_def)
  next
    case (Some r)
    let ?d1 = "ensure_sync (as_server a) (tr_version r) (as_at a) d"
    show ?thesis
    proof (cases "tr_state r \<noteq> Queued \<or> tr_queued_at r > as_at a")
      case True
      then show ?thesis using body same Inr Some by (simp add: Assign_def)
    next
      case False
      then have "sync_verified ?d1 (as_server a) (tr_version r) = Some True \<and> assign_verified flt a r d ?d1 = Inr (b, d')
          \<or> \<not> b \<and> d' = ?d1"
        using body Some by (simp add: Assign_def Let_def split: if_splits option.splits)
      then show ?thesis
        using assign_verified_Inr [of flt a r d ?d1 b d'] Some False same pending [of r] assigned [of r ?d1] Inr
        by auto
    qed
  qed
qed

lemma safe_Assign: "safe d (snd (Assign flt a d))"
proof (cases "Assign flt a d")
  case (Pair res d')
  then show ?thesis
  proof (cases rule: Assign_cases)
    case same
    then show ?thesis using Pair by simp
  next
    case (pending r)
    then show ?thesis using Pair by (simp add: safe_other_tables ensure_sync_other)
  next
    case (assigned r d1)
    have e: "run_row_of d1 = run_row_of d"
      unfolding assigned(5) by (rule run_row_of_cong) (rule ensure_sync_other(1))
    have "safe d d1" using assigned(5) by (simp add: safe_other_tables ensure_sync_other)
    moreover have "safe d1 (insert_lease a (taken a d1))"
      unfolding taken_def using assigned(1,2) e by (intro safe_assign) simp_all
    moreover have "run_row_of (insert_lease a (taken a d1)) (as_run a) \<noteq> None"
      using assigned(1) e by (simp add: taken_def run_row_of_set_runs take_run_def)
    ultimately show ?thesis
      unfolding Pair snd_conv assigned(8) by (blast intro: safe_trans safe_append_event)
  qed
qed

lemma good_expire:
  "store_ok d \<Longrightarrow> tr_state r = Queued \<Longrightarrow> good_row d r (expire_run at r)"
  by (simp add: good_row_def row_evolves_def same_keys_def expire_run_def lifecycle_def row_ok_def lease_fits_def)

lemma safe_Expire: "safe d (snd (Expire flt rid at d))"
proof -
  have "safe d (append_event rid ty st pl at
      (set_runs (\<lambda>r. tr_id r = rid \<and> tr_state r = Queued) (expire_run at) d))"
    if "run_row_of d rid = Some r" for ty st pl r
    by (rule safe_update_event)
      (simp add: expire_run_def, use that in simp, blast intro: good_expire)
  then show ?thesis
    unfolding Expire_def by (intro safe_tx) (auto simp: Let_def split: option.splits if_splits)
qed

lemma safe_SetQueueReason: "safe d (snd (SetQueueReason flt dbnow rid reason d))"
proof -
  let ?p = "\<lambda>r. tr_id r = rid \<and> tr_state r = Queued \<and> tr_summary r \<noteq> reason"
  have "safe d (append_event rid ty st pl at (set_runs ?p (\<lambda>r. r\<lparr>tr_summary := reason\<rparr>) d))"
    if "list_ex ?p (db_runs d)" for ty st pl at
  proof (rule safe_update_event)
    show "run_row_of d rid \<noteq> None"
      using that by (auto simp: run_row_of_def row_by_None list_ex_iff)
    show "good_row d r (r\<lparr>tr_summary := reason\<rparr>)" if "store_ok d" "r \<in> set (db_runs d)" for r
      using that by (rule good_row_quiet) (simp_all add: same_keys_def)
  qed simp
  then show ?thesis
    unfolding SetQueueReason_def by (intro safe_tx) (auto simp: Let_def split: if_splits)
qed

section \<open>Agent events\<close>

lemma agent_state_cases:
  "stateForAgentEvent ty = Some st \<Longrightarrow> st = Running \<or> st = Succeeded \<or> st = Failed \<or> st = TimedOut \<or> st = Cancelled"
  by (auto split: if_splits)

lemma agent_transition:
  "validAgentTransition s st \<Longrightarrow> stateForAgentEvent ty = Some st \<Longrightarrow> lifecycle s st \<and> s \<noteq> Queued"
  using agent_state_cases [of ty st]
  by (cases s; cases st; simp add: validAgentTransition_def lifecycle_def)

lemma agent_update_fields:
  "tr_id (agent_update ev st r) = tr_id r" "tr_state (agent_update ev st r) = st"
  "tr_server (agent_update ev st r) = tr_server r" "tr_token (agent_update ev st r) = tr_token r"
  "same_keys r (agent_update ev st r)"
  "tr_finished_at (agent_update ev st r) = (if Terminal st then Some (ev_occurred ev) else tr_finished_at r)"
  by (simp_all add: agent_update_def Let_def same_keys_def)

lemma good_agent_update:
  assumes "store_ok d" "r \<in> set (db_runs d)" "validAgentTransition (tr_state r) st"
    "stateForAgentEvent ty = Some st" "tr_token r \<noteq> None"
    "Terminal st \<longrightarrow> (\<forall>l \<in> set (db_leases d). lr_run l = tr_id r \<longrightarrow> lr_released l \<noteq> None)"
  shows "good_row d r (agent_update ev st r)"
proof -
  have l: "lifecycle (tr_state r) st" "tr_state r \<noteq> Queued" using agent_transition [OF assms(3,4)] by auto
  have "live (tr_state r)" if "st = Running"
    using assms(3) that by (auto simp: validAgentTransition_def split: if_splits)
  then have "row_ok (agent_update ev st r)"
    using row_okD [OF assms(1,2)] agent_state_cases [OF assms(4)] assms(5)
    by (auto simp: row_ok_def agent_update_fields)
  moreover have "lease_fits l' (agent_update ev st r)"
    if "l' \<in> set (db_leases d)" "lr_run l' = tr_id r" "lease_fits l' r" for l'
    using that assms(6) agent_state_cases [OF assms(4)] by (auto simp: lease_fits_def agent_update_fields)
  ultimately show ?thesis
    using l by (simp add: good_row_def row_evolves_def agent_update_fields)
qed

lemma released_leases:
  assumes "l \<in> set (db_leases (release_leases rid at d))" "lr_run l = rid"
  shows "lr_released l \<noteq> None"
proof -
  have "db_leases (release_leases rid at d) =
      update_where (\<lambda>l. lr_run l = rid \<and> lr_released l = None) (\<lambda>l. l\<lparr>lr_released := Some at\<rparr>) (db_leases d)"
    by (simp add: release_leases_def)
  then have "l \<in> (\<lambda>k. if lr_run k = rid \<and> lr_released k = None then k\<lparr>lr_released := Some at\<rparr> else k) `
      set (db_leases d)"
    using assms(1) by (simp only: set_update_where)
  then obtain k where "l = (if lr_run k = rid \<and> lr_released k = None then k\<lparr>lr_released := Some at\<rparr> else k)"
    by blast
  then show ?thesis using assms(2) by (cases "lr_run k = rid \<and> lr_released k = None") auto
qed

lemma release_commutes:
  "release_leases rid at (set_runs p f (append_agent_event ev st pl d)) =
   set_runs p f (append_agent_event ev st pl (release_leases rid at d))"
  by (simp add: release_leases_def set_runs_def append_agent_event_def next_seq_def)

lemma db_runs_agent_event [simp]: "db_runs (append_agent_event ev st pl d) = db_runs d"
  "db_leases (append_agent_event ev st pl d) = db_leases d"
  "db_runs (release_leases rid at d) = db_runs d"
  by (simp_all add: append_agent_event_def release_leases_def)

lemma safe_agent_change:
  assumes "run_row_of d (ev_run ev) = Some r" "validAgentTransition (tr_state r) st"
    "stateForAgentEvent ty = Some st" "tr_token r \<noteq> None"
    "Terminal st \<longrightarrow> (\<forall>l \<in> set (db_leases d). lr_run l = ev_run ev \<longrightarrow> lr_released l \<noteq> None)"
  shows "safe d (set_runs (\<lambda>r. tr_id r = ev_run ev) (agent_update ev st) (append_agent_event ev st pl d))"
proof (rule safe_trans [OF safe_append_agent_event safe_set_runs])
  let ?d = "append_agent_event ev st pl d"
  show "run_row_of d (ev_run ev) \<noteq> None" using assms(1) by simp
  show "good_row ?d q (agent_update ev st q)"
    if "store_ok ?d" "q \<in> set (db_runs ?d)" "tr_id q = ev_run ev" for q
  proof -
    have "q = r" using row_of_id [OF that] assms(1) by simp
    then show ?thesis using that assms by (intro good_agent_update) simp_all
  qed
qed

lemma safe_ApplyRunEvent:
  assumes "stateForAgentEvent ty = Some st" "ev_token ev \<noteq> []"
  shows "safe d (snd (ApplyRunEvent flt ev st d))"
proof -
  have "safe d d'"
    if r: "run_row_of d (ev_run ev) = Some r" "token_of r = ev_token ev" "validAgentTransition (tr_state r) st"
      and d': "d' = (let d2 = set_runs (\<lambda>r. tr_id r = ev_run ev) (agent_update ev st)
                 (append_agent_event ev st (agent_payload ev (tr_state r) st) d)
               in if Terminal st then release_leases (ev_run ev) (ev_occurred ev) d2 else d2)" for r d'
  proof -
    have t: "tr_token r \<noteq> None" using r(2) assms(2) by (cases "tr_token r") (simp_all add: token_of_def)
    show ?thesis
    proof (cases "Terminal st")
      case True
      then have "d' = set_runs (\<lambda>r. tr_id r = ev_run ev) (agent_update ev st)
          (append_agent_event ev st (agent_payload ev (tr_state r) st)
             (release_leases (ev_run ev) (ev_occurred ev) d))"
        using d' by (simp add: release_commutes)
      moreover have "safe (release_leases (ev_run ev) (ev_occurred ev) d) \<dots>"
        using r t assms(1) released_leases by (intro safe_agent_change) auto
      ultimately show ?thesis using safe_release safe_trans by blast
    next
      case False
      then show ?thesis unfolding d' using r t assms(1) by (simp add: safe_agent_change)
    qed
  qed
  then show ?thesis
    unfolding ApplyRunEvent_def by (intro safe_tx) (auto simp: Let_def split: option.splits if_splits)
qed

lemma blank_Nil: "blank []"
  by code_simp

lemma safe_Apply: "safe d (snd (Apply flt now ev d))"
proof -
  have "ev_token ev \<noteq> []" if "\<not> blank (ev_token ev)" using that blank_Nil by metis
  then show ?thesis
    unfolding Apply_def Let_def
    by (auto split: option.splits intro!: safe_ApplyRunEvent simp del: stateForAgentEvent.simps)
qed

end
