(* ===== verification/Run_System.thy ===== *)
theory Run_System
  imports Run_Machine
begin

text \<open>
  The remaining transactions on the run tables (lost servers, running reports, retries,
  cancellation, triggering, dispatching) keep the invariant of \<open>Run_Machine\<close>; the system of all of
  them, in any order and with any statements failing, and what holds in every database it reaches.
\<close>

section \<open>Lost servers\<close>

lemma safe_append_unknown:
  "append_unknown flt k at rids d = Inr d' \<Longrightarrow> \<forall>rid \<in> set rids. run_row_of d rid \<noteq> None \<Longrightarrow> safe d d'"
proof (induction flt k at rids d rule: append_unknown.induct)
  case (2 flt k at rid rids d)
  let ?d = "append_event rid ''run.unknown'' Unknown (message_payload MsgServerLost) at d"
  have "safe d ?d" using 2(3) by (intro safe_append_event) simp
  moreover have "safe ?d d'" using 2 by (cases "flt k") simp_all
  ultimately show ?case by (rule safe_trans)
qed simp

lemma safe_append_disabled:
  "append_disabled flt k at rids d = Inr d' \<Longrightarrow> \<forall>rid \<in> set rids. run_row_of d rid \<noteq> None \<Longrightarrow> safe d d'"
proof (induction flt k at rids d rule: append_disabled.induct)
  case (2 flt k at rid rids d)
  let ?d = "append_event rid ''run.cancelled'' Cancelled (message_payload MsgDisabledCancelled) at d"
  have "safe d ?d" using 2(3) by (intro safe_append_event) simp
  moreover have "safe ?d d'" using 2 by (cases "flt k") simp_all
  ultimately show ?case by (rule safe_trans)
qed simp

text \<open>The rows an update has returned are still there.\<close>

lemma updated_rows_present:
  assumes "\<And>r. tr_id (f r) = tr_id r" "rid \<in> set (map tr_id (filter p (db_runs d)))"
  shows "run_row_of (set_runs q f d) rid \<noteq> None"
proof -
  have "run_row_of d rid \<noteq> None" using assms(2) by (auto simp: run_row_of_def row_by_None)
  then show ?thesis using assms(1) by (simp add: run_row_of_set_runs)
qed

lemma good_row_live:
  assumes "store_ok d" "r \<in> set (db_runs d)" "live (tr_state r)" "tr_state r' = Running \<or> tr_state r' = Unknown"
    "same_keys r r'" "tr_server r' = tr_server r" "tr_token r' = tr_token r"
  shows "good_row d r r'"
proof -
  have "tr_token r \<noteq> None" "tr_server r \<noteq> None"
    using row_okD [OF assms(1,2)] assms(3) unfolding row_ok_def by blast+
  then have "row_ok r'" using assms(4,6,7) by (elim disjE) (simp_all add: row_ok_def)
  moreover have "lifecycle (tr_state r) (tr_state r')"
    using assms(3,4) by (elim disjE insertE) (simp_all add: lifecycle_def)
  moreover have "lease_fits l r'" if "lease_fits l r" for l
    using that assms(4,6) by (elim disjE) (simp_all add: lease_fits_def)
  ultimately show ?thesis using assms(5-7) by (simp add: good_row_def row_evolves_def)
qed

lemma safe_MarkServerRunsUnknown: "safe d (snd (MarkServerRunsUnknown flt sid at d))"
proof -
  let ?p = "\<lambda>r. tr_server r = Some sid \<and> active_state (tr_state r)"
  let ?f = "\<lambda>r. r\<lparr>tr_state := Unknown, tr_gone := False, tr_updated_at := at\<rparr>"
  let ?ids = "map tr_id (filter ?p (db_runs d))"
  have s: "safe d (set_runs ?p ?f d)"
  proof (rule safe_set_runs)
    show "good_row d r (?f r)" if "store_ok d" "r \<in> set (db_runs d)" "?p r" for r
      using that by (intro good_row_live) (auto simp: same_keys_def)
  qed
  have "safe (set_runs ?p ?f d) d'" if "append_unknown flt 3 at ?ids (set_runs ?p ?f d) = Inr d'" for d'
    using that by (rule safe_append_unknown) (intro ballI, rule updated_rows_present, simp, assumption)
  then show ?thesis
    unfolding MarkServerRunsUnknown_def
    by (intro safe_tx) (auto simp: Let_def split: sum.splits intro: safe_trans [OF s])
qed

section \<open>Running reports\<close>

lemma safe_saveRunUsage:
  assumes "saveRunUsage flt k rid u d = Inr d'" "run_row_of d rid \<noteq> None"
  shows "safe d d' \<and> run_row_of d' = run_row_of d"
  using assms by (auto simp: saveRunUsage_def safe_append_event split: option.splits if_splits)

text \<open>A candidate of a report is a live run of the database.\<close>

definition current_item :: "db \<Rightarrow> run_row \<Rightarrow> bool" where
  "current_item d item \<longleftrightarrow> run_row_of d (tr_id item) = Some item \<and> live (tr_state item)"

definition only_row :: "ident \<Rightarrow> db \<Rightarrow> db \<Rightarrow> bool" where
  "only_row rid d d' \<longleftrightarrow> (\<forall>x. x \<noteq> rid \<longrightarrow> run_row_of d' x = run_row_of d x)"

lemma only_row_set_runs:
  "(\<And>r. tr_id (f r) = tr_id r) \<Longrightarrow> only_row rid d (set_runs (\<lambda>r. tr_id r = rid) f d)"
  using run_row_of_in by (auto simp: only_row_def run_row_of_set_runs intro!: option.map_ident_strong)

lemma safe_set_item:
  assumes "current_item d item" "\<And>r. same_keys r (f r) \<and> tr_server (f r) = tr_server r \<and> tr_token (f r) = tr_token r"
    "\<And>r. tr_state (f r) = Running \<or> tr_state (f r) = Unknown"
  shows "safe d (set_runs (\<lambda>r. tr_id r = tr_id item) f d)"
proof (rule safe_set_runs)
  show "good_row d r (f r)" if r: "store_ok d" "r \<in> set (db_runs d)" "tr_id r = tr_id item" for r
  proof -
    have "r = item" using row_of_id [OF r] assms(1) by (simp add: current_item_def)
    then show ?thesis using r assms by (intro good_row_live) (auto simp: current_item_def)
  qed
qed

lemma current_item_cong: "run_row_of d' = run_row_of d \<Longrightarrow> current_item d' = current_item d"
  by (simp add: current_item_def fun_eq_iff)

lemma safe_set_item_event:
  assumes "current_item d item" "\<And>r. same_keys r (f r) \<and> tr_server (f r) = tr_server r \<and> tr_token (f r) = tr_token r"
    "\<And>r. tr_state (f r) = Running \<or> tr_state (f r) = Unknown"
  shows "safe d (append_event (tr_id item) ty st pl at (set_runs (\<lambda>r. tr_id r = tr_id item) f d))"
proof -
  have "\<And>r. tr_id (f r) = tr_id r" using assms(2) by (simp add: same_keys_def)
  then have "run_row_of (set_runs (\<lambda>r. tr_id r = tr_id item) f d) (tr_id item) \<noteq> None"
    using assms(1) by (simp add: run_row_of_set_runs current_item_def)
  then show ?thesis using safe_trans [OF safe_set_item [OF assms] safe_append_event] by blast
qed

lemma only_row_refl [simp]: "only_row rid d d"
  by (simp add: only_row_def)

lemma reconcile_absent_safe:
  assumes "reconcile_absent flt k rep at item d = Inr d'" "current_item d item"
  shows "safe d d' \<and> only_row (tr_id item) d d'"
proof -
  let ?d = "release_leases (tr_id item) at d"
  let ?e = "append_event (tr_id item) ''run.process_absent'' Unknown (message_payload MsgProcessAbsent) at
              (set_runs (\<lambda>r. tr_id r = tr_id item) (confirm_gone at) ?d)"
  have cur: "current_item ?d item" using assms(2) current_item_cong [of ?d d] by simp
  have "safe ?d ?e" by (rule safe_set_item_event [OF cur]) (simp_all add: confirm_gone_def same_keys_def)
  then have "safe d ?d" "safe d ?e" using safe_release safe_trans by blast+
  moreover have "only_row (tr_id item) d ?e"
    using only_row_set_runs [of "confirm_gone at" "tr_id item" ?d] by (simp add: only_row_def confirm_gone_def)
  moreover have "only_row (tr_id item) d ?d" by (simp add: only_row_def)
  moreover have "d' = d \<or> d' = ?d \<or> d' = ?e"
    using assms(1) by (auto simp: reconcile_absent_def Let_def split: if_splits)
  ultimately show ?thesis by (elim disjE) simp_all
qed

lemma reconcile_item_safe:
  assumes "reconcile_item flt k rep at item d = Inr d'" "current_item d item"
  shows "safe d d' \<and> only_row (tr_id item) d d'"
proof (cases "reconcile_absent flt k rep at item d = Inr d'")
  case True
  then show ?thesis using assms(2) by (rule reconcile_absent_safe)
next
  case False
  then obtain proc :: running_process and d1 where d1: "saveRunUsage flt k (tr_id item) (rp_usage proc) d = Inr d1"
    and d': "d' = set_runs (\<lambda>r. tr_id r = tr_id item) (revive_run at) d1 \<or>
      d' = append_event (tr_id item) ''run.reconciled'' Running (message_payload MsgReconciled) at
             (set_runs (\<lambda>r. tr_id r = tr_id item) (revive_run at) d1)"
    using assms(1)
    by (auto simp: reconcile_item_def Let_def split: option.splits if_splits sum.splits)
  have u: "safe d d1" "run_row_of d1 = run_row_of d"
    using safe_saveRunUsage [OF d1] assms(2) by (auto simp: current_item_def)
  have cur: "current_item d1 item" using assms(2) current_item_cong [OF u(2)] by simp
  have "safe d1 d'"
    using d' safe_set_item [OF cur, of "revive_run at"] safe_set_item_event [OF cur, of "revive_run at"]
    by (auto simp: revive_run_def same_keys_def)
  moreover have "only_row (tr_id item) d d'"
    using d' only_row_set_runs [of "revive_run at" "tr_id item" d1] u(2) by (auto simp: only_row_def revive_run_def)
  ultimately show ?thesis using u(1) safe_trans by blast
qed

lemma safe_reconcile_items:
  assumes "reconcile_items flt k rep at items d = Inr d'" "distinct (map tr_id items)"
    "\<forall>item \<in> set items. current_item d item"
  shows "safe d d'"
  using assms
proof (induction flt k rep at items d rule: reconcile_items.induct)
  case (2 flt k rep at item items d)
  obtain d1 where d1: "reconcile_item flt k rep at item d = Inr d1"
    and rest: "reconcile_items flt (k + 8) rep at items d1 = Inr d'"
    using 2(2) by (auto split: sum.splits)
  have s: "safe d d1" "only_row (tr_id item) d d1" using reconcile_item_safe [OF d1] 2(4) by auto
  have "current_item d1 i" if "i \<in> set items" for i
  proof -
    have "tr_id i \<noteq> tr_id item" using imageI [OF that, of tr_id] 2(3) by auto
    then show ?thesis using 2(4) that s(2) by (simp add: current_item_def only_row_def)
  qed
  then have "safe d1 d'" using 2(1) [OF d1 rest] 2(3) by simp
  then show ?case using s(1) safe_trans by blast
qed simp

lemma safe_ReconcileRunning: "safe d (snd (ReconcileRunning flt rep at d))"
proof (cases "store_ok d")
  case True
  let ?items = "filter (\<lambda>r. tr_server r = Some (rr_server rep) \<and>
                (active_state (tr_state r) \<or> tr_state r = Unknown)) (db_runs d)"
  have "distinct (map tr_id ?items)"
    using store_okD(1) [OF True] by (simp add: runs_ok_def distinct_map_filter)
  moreover have "\<forall>item \<in> set ?items. current_item d item"
    using run_row_of_distinct [OF store_okD(1) [OF True]] by (auto simp: current_item_def)
  ultimately have "safe d d'" if "reconcile_items flt 3 rep at ?items d = Inr d'" for d'
    using safe_reconcile_items [OF that] by blast
  then show ?thesis
    unfolding ReconcileRunning_def by (intro safe_tx) (auto split: sum.splits)
qed (simp add: safe_def)

section \<open>New runs\<close>

definition fresh_run :: "db \<Rightarrow> run_row \<Rightarrow> bool" where
  "fresh_run d q \<longleftrightarrow> run_row_of d (tr_id q) = None \<and> tr_state q = Queued \<and> tr_token q = None \<and>
     tr_server q = None \<and> attempt_ok d q \<and>
     (\<forall>r \<in> set (db_runs d). root_of r = root_of q \<longrightarrow> tr_attempt r \<noteq> tr_attempt q) \<and>
     (\<forall>r \<in> set (db_runs d). tr_scheduled_for q \<noteq> None \<longrightarrow> tr_def r = tr_def q \<longrightarrow>
        tr_scheduled_for r \<noteq> tr_scheduled_for q)"

lemma safe_add_run:
  assumes "store_ok d \<Longrightarrow> fresh_run d q"
  shows "safe d (d\<lparr>db_runs := db_runs d @ [q]\<rparr>)"
proof (unfold safe_def, intro impI)
  assume ok: "store_ok d"
  let ?d = "d\<lparr>db_runs := db_runs d @ [q]\<rparr>"
  have f: "fresh_run d q" using assms ok by blast
  have runs: "set (db_runs ?d) = insert q (set (db_runs d))" by simp
  have rr: "run_row_of ?d rid = (if rid = tr_id q then Some q else run_row_of d rid)" for rid
    using f by (simp add: run_row_of_def row_by_append fresh_run_def split: option.splits)
  have old: "run_row_of ?d rid = Some r" if "run_row_of d rid = Some r" for rid r
    using that f by (auto simp: rr fresh_run_def)
  have new: "tr_id q \<notin> tr_id ` set (db_runs d)" using f by (auto simp: fresh_run_def run_row_of_def row_by_None)
  have "runs_ok ?d" using store_okD(1) [OF ok] new f by (simp add: runs_ok_def row_ok_def fresh_run_def)
  moreover have "leases_ok ?d" using store_okD(2) [OF ok] old by (fastforce simp: leases_ok_def)
  moreover have "events_ok ?d"
    using store_okD(3) [OF ok] old by (fastforce simp: events_ok_def run_log_def)
  moreover have "attempt_ok ?d r" if "attempt_ok d r" for r
    using that old by (fastforce simp: attempt_ok_def split: option.splits)
  then have att: "\<forall>r \<in> insert q (set (db_runs d)). attempt_ok ?d r"
    using store_okD(4) [OF ok] f unfolding lineage_ok_def fresh_run_def by blast
  have "tr_id r = tr_id s" if "r \<in> insert q (set (db_runs d))" "s \<in> insert q (set (db_runs d))"
    "root_of r = root_of s \<and> tr_attempt r = tr_attempt s" for r s
  proof (cases "r = q \<or> s = q")
    case True
    then show ?thesis using that f unfolding fresh_run_def by (metis insert_iff)
  next
    case False
    then show ?thesis using that store_okD(4) [OF ok] unfolding lineage_ok_def by blast
  qed
  then have "lineage_ok ?d" using att unfolding lineage_ok_def runs by blast
  moreover have "tr_id r = tr_id s" if "r \<in> insert q (set (db_runs d))" "s \<in> insert q (set (db_runs d))"
    "tr_scheduled_for r \<noteq> None \<and> tr_def r = tr_def s \<and> tr_scheduled_for r = tr_scheduled_for s" for r s
  proof (cases "r = q \<or> s = q")
    case True
    then show ?thesis using that f unfolding fresh_run_def by (metis insert_iff)
  next
    case False
    then show ?thesis using that store_okD(5) [OF ok] unfolding slots_ok_def by blast
  qed
  then have "slots_ok ?d" unfolding slots_ok_def runs by blast
  moreover have "evolves d ?d" using old by (auto simp: evolves_def)
  ultimately show "store_ok ?d \<and> evolves d ?d" by (simp add: store_ok_def)
qed

lemma attempt_okD: "store_ok d \<Longrightarrow> r \<in> set (db_runs d) \<Longrightarrow> attempt_ok d r"
  unfolding store_ok_def lineage_ok_def by blast

lemma root_of_fresh:
  assumes "store_ok d" "run_row_of d rid = None" "r \<in> set (db_runs d)"
  shows "root_of r \<noteq> rid"
proof (cases "tr_retry_of r")
  case None
  then show ?thesis using assms row_of_id [OF assms(1,3)] by (auto simp: root_of_def)
next
  case (Some p)
  then show ?thesis
    using assms(2) attempt_okD [OF assms(1,3)] by (auto simp: root_of_def attempt_ok_def)
qed

lemma run_log_fresh: "store_ok d \<Longrightarrow> run_row_of d rid = None \<Longrightarrow> run_log d rid = []"
  by (auto simp: store_ok_def events_ok_def run_log_def filter_empty_conv)

subsection \<open>Retries\<close>

lemma retry_row_fresh:
  assumes "store_ok d" "run_row_of d rid = Some r" "retryable r" "successors d r = []" "run_row_of d new = None"
  shows "fresh_run d (retry_row new at r)"
proof -
  have r: "r \<in> set (db_runs d)" "tr_id r = rid" using run_row_of_in [OF assms(2)] by auto
  have a: "attempt_ok d r" using attempt_okD [OF assms(1) r(1)] .
  then have one: "1 \<le> tr_attempt r" by (auto simp: attempt_ok_def split: option.splits)
  have "\<exists>q. run_row_of d (root_of r) = Some q \<and> tr_retry_of q = None"
    using a assms(2) r(2) by (auto simp: attempt_ok_def root_of_def split: option.splits)
  then have "attempt_ok d (retry_row new at r)"
    using one assms(3) by (simp add: attempt_ok_def retry_row_def retryable_def)
  moreover have "tr_attempt c \<noteq> tr_attempt r + 1" if c: "c \<in> set (db_runs d)" "root_of c = root_of r" for c
  proof (cases "tr_retry_of c")
    case None
    then show ?thesis using attempt_okD [OF assms(1) c(1)] one by (simp add: attempt_ok_def)
  next
    case (Some p)
    then have "tr_retry_of c = Some (root_of r)" using c(2) by (simp add: root_of_def)
    then have "\<not> tr_attempt c > tr_attempt r"
      using assms(4) c(1) by (auto simp: successors_def filter_empty_conv)
    then show ?thesis by simp
  qed
  ultimately show ?thesis using assms(5) by (simp add: fresh_run_def retry_row_def root_of_def)
qed

lemma retry_insert_Inr:
  assumes "retry_insert flt new rid at df r d = Inr (i, d')"
  shows "(\<exists>c cs. successors d r = c # cs \<and> i = tr_id c \<and> d' = d) \<or>
    successors d r = [] \<and> run_row_of d new = None \<and> i = new \<and>
    (\<exists>refs. d' = append_event new ''run.queued'' Queued (retry_payload rid refs) at
        (d\<lparr>db_runs := db_runs d @ [retry_row new at r]\<rparr>))"
  using assms by (auto simp: retry_insert_def Let_def split: list.splits if_splits)

lemma retryRun_cases:
  assumes "retryRun flt new rid at automatic d = (Inr i, d')"
  obtains r df where "run_row_of d rid = Some r" "retryable r"
      "row_by df_id (tr_def r) (db_defs d) = Some df" "df_enabled df"
      "automatic \<longrightarrow> auto_intent d rid \<and> (tr_state r = Failed \<or> tr_state r = TimedOut)"
      "retry_insert flt new rid at df r (release_leases rid at d) = Inr (i, d')"
proof -
  obtain r where r: "run_row_of d rid = Some r"
    using assms by (cases "run_row_of d rid") (auto simp: retryRun_def)
  obtain df where df: "row_by df_id (tr_def r) (db_defs d) = Some df" "df_enabled df" "retryable r"
    using assms r by (cases "row_by df_id (tr_def r) (db_defs d)") (auto simp: retryRun_def split: if_splits)
  have "retry_insert flt new rid at df r (release_leases rid at d) = Inr (i, d')"
    "automatic \<longrightarrow> auto_intent d rid \<and> (tr_state r = Failed \<or> tr_state r = TimedOut)"
    using assms r df by (auto simp: retryRun_def split: if_splits)
  then show ?thesis using that r df by blast
qed

lemma safe_retryRun: "safe d (snd (retryRun flt new rid at automatic d))"
proof (cases "retryRun flt new rid at automatic d")
  case (Pair res d')
  show ?thesis
  proof (cases res)
    case (Inl e)
    then show ?thesis using Pair by (auto simp: retryRun_def tx_def split: sum.splits)
  next
    case (Inr i)
    then have "retryRun flt new rid at automatic d = (Inr i, d')" using Pair by simp
    then obtain r df where r: "run_row_of d rid = Some r" "retryable r"
      and ins: "retry_insert flt new rid at df r (release_leases rid at d) = Inr (i, d')"
      by (rule retryRun_cases)
    let ?d = "release_leases rid at d"
    let ?e = "?d\<lparr>db_runs := db_runs ?d @ [retry_row new at r]\<rparr>"
    have "safe ?d d'"
    proof (cases "successors ?d r")
      case Nil
      then have n: "run_row_of ?d new = None" using retry_insert_Inr [OF ins] by simp
      have "safe ?d ?e"
        using r Nil n by (intro safe_add_run retry_row_fresh [where rid = rid]) simp_all
      moreover have "run_row_of ?e new \<noteq> None"
        by (auto simp: run_row_of_def row_by_None retry_row_def)
      moreover have "\<exists>refs. d' = append_event new ''run.queued'' Queued (retry_payload rid refs) at ?e"
        using retry_insert_Inr [OF ins] Nil by simp
      ultimately show ?thesis by (blast intro: safe_append_event safe_trans)
    next
      case (Cons c cs)
      then show ?thesis using retry_insert_Inr [OF ins] by simp
    qed
    then show ?thesis using Pair safe_release safe_trans by fastforce
  qed
qed

lemma safe_retry_each: "safe d (snd (retry_each flt new k at rids d))"
proof (induction flt new k at rids d rule: retry_each.induct)
  case (2 flt new k at rid rids d)
  obtain res d1 where r: "retryRun (flt k) (new k) rid at True d = (res, d1)" by fastforce
  have "safe d d1" using safe_retryRun [of d "flt k" "new k" rid at True] r by simp
  then show ?case using 2 r safe_trans by (auto split: sum.splits)
qed simp

lemma safe_RetryFailed: "safe d (snd (RetryFailed flt new at d))"
  by (simp add: RetryFailed_def safe_retry_each)

subsection \<open>Cancellation and disabled definitions\<close>

lemma good_row_cancel:
  assumes "tr_state r = Queued" "row_ok r" "same_keys r r'" "tr_state r' = Cancelled" "tr_finished_at r' \<noteq> None"
    "tr_server r' = tr_server r" "tr_token r' = tr_token r"
  shows "good_row d r r'"
  using assms by (simp add: good_row_def row_evolves_def lifecycle_def row_ok_def lease_fits_def)

lemma safe_CancelRun: "safe d (snd (fst (CancelRun flt sender now rid d)))"
proof -
  have "safe d (append_event rid ''run.cancelled'' Cancelled pl now
      (set_runs (\<lambda>r. tr_id r = rid) (cancel_queued_row now) d))"
    if "run_row_of d rid = Some r" "tr_state r = Queued" for r pl
  proof (rule safe_update_event)
    show "good_row d q (cancel_queued_row now q)"
      if "store_ok d" "q \<in> set (db_runs d)" "tr_id q = rid" for q
      using row_of_id [OF that] row_okD [OF that(1,2)] \<open>run_row_of d rid = Some r\<close> \<open>tr_state r = Queued\<close>
      by (intro good_row_cancel) (auto simp: cancel_queued_row_def same_keys_def)
  qed (use that in \<open>simp_all add: cancel_queued_row_def\<close>)
  then show ?thesis
    unfolding CancelRun_def
    by (auto simp: Let_def tx_snd safe_append_event split: option.splits sum.splits if_splits)
qed

lemma safe_SetEnabled: "safe d (snd (SetEnabled flt now did enabled cancelQueued d))"
proof -
  define d1 where "d1 = d\<lparr>db_defs := update_where (\<lambda>df. df_id df = did)
                     (\<lambda>df. df\<lparr>df_enabled := enabled, df_updated_at := now\<rparr>) (db_defs d)\<rparr>"
  let ?p = "\<lambda>r. tr_def r = did \<and> tr_state r = Queued"
  let ?d2 = "set_runs ?p (disable_row now) d1"
  have "safe d d1" by (simp add: d1_def safe_other_tables)
  moreover have "safe d1 ?d2"
  proof (rule safe_set_runs)
    show "good_row d1 r (disable_row now r)" if "store_ok d1" "r \<in> set (db_runs d1)" "?p r" for r
      using that row_okD [OF that(1,2)]
      by (intro good_row_cancel) (auto simp: disable_row_def same_keys_def)
  qed
  moreover have "safe ?d2 d3" if "append_disabled flt 4 now (map tr_id (filter ?p (db_runs d1))) ?d2 = Inr d3" for d3
    using that by (rule safe_append_disabled)
      (intro ballI, rule updated_rows_present, simp add: disable_row_def, assumption)
  ultimately have "safe d d1" "append_disabled flt 4 now (map tr_id (filter ?p (db_runs d1))) ?d2 = Inr d3 \<Longrightarrow> safe d d3" for d3
    using safe_trans by blast+
  then show ?thesis
    unfolding SetEnabled_def d1_def [symmetric]
    by (intro safe_tx) (auto simp: Let_def split: if_splits sum.splits)
qed

subsection \<open>Triggering\<close>

lemma safe_advance: "safe d (advanceDueSchedule sch nxt now d)"
  by (cases sch) (simp_all add: advanceDueSchedule_def safe_other_tables)

lemma queued_row_fresh:
  assumes "store_ok d" "run_row_of d new = None" "\<not> schedule_clash d (queued_row new df vid ps tg now)"
  shows "fresh_run d (queued_row new df vid ps tg now)"
  using assms root_of_fresh [OF assms(1,2)]
  by (auto simp: fresh_run_def queued_row_def attempt_ok_def root_of_def schedule_clash_def list_ex_iff)

lemma trigger_body_cases:
  assumes "trigger_body flt zones new now did tg sch d = Inr (res, d')"
  obtains (duplicate) nxt row where "res = Inl ErrDuplicateRun" "tr_scheduled_for row = tg_scheduled_for tg" "tr_def row = did"
      "schedule_clash d row" "lockDueSchedule zones sch d = Inr nxt" "d' = advanceDueSchedule sch nxt now d"
  | (queued) df vid ps nxt where "row_by df_id did (db_defs d) = Some df" "df_enabled df"
      "lockDueSchedule zones sch d = Inr nxt" "res = Inr (run_of_trigger (queued_row new df vid ps tg now))"
      "resolve_version flt df d = Inr vid" "ps = merge_params (sp_params (df_spec df)) (tg_params tg)"
      "validateVersionParameters (df_script df) vid ps (df_secret_refs df) d = Inr ()"
      "run_row_of d new = None" "\<not> schedule_clash d (queued_row new df vid ps tg now)"
      "d' = advanceDueSchedule sch nxt now (d\<lparr>db_runs := db_runs d @ [queued_row new df vid ps tg now],
              db_events := db_events d @ [queued_event new (df_secret_refs df) now]\<rparr>)"
proof -
  obtain df where df: "row_by df_id did (db_defs d) = Some df" "df_enabled df"
    using assms by (auto simp: trigger_body_def split: option.splits if_splits)
  have "df_id df = did" using row_by_Some [OF df(1)] by simp
  moreover obtain nxt vid where nv: "lockDueSchedule zones sch d = Inr nxt" "resolve_version flt df d = Inr vid"
    using assms df by (cases "sch = None") (auto simp: trigger_body_def split: sum.splits)
  moreover let ?ps = "merge_params (sp_params (df_spec df)) (tg_params tg)"
  let ?row = "queued_row new df vid ?ps tg now"
  have "validateVersionParameters (df_script df) vid ?ps (df_secret_refs df) d = Inr ()" "run_row_of d new = None"
    "schedule_clash d ?row \<and> res = Inl ErrDuplicateRun \<and> d' = advanceDueSchedule sch nxt now d \<or>
     \<not> schedule_clash d ?row \<and> res = Inr (run_of_trigger ?row) \<and>
     d' = advanceDueSchedule sch nxt now (d\<lparr>db_runs := db_runs d @ [?row],
              db_events := db_events d @ [queued_event new (df_secret_refs df) now]\<rparr>)"
    using assms df nv
    by (cases "sch = None"; auto simp: trigger_body_def Let_def split: sum.splits if_splits)+
  ultimately show thesis
    using duplicate [of ?row nxt] queued [of df nxt vid ?ps] df by (auto simp: queued_row_def)
qed

lemma safe_queue_run:
  assumes "run_row_of d new = None" "\<not> schedule_clash d (queued_row new df vid ps tg now)"
  shows "safe d (d\<lparr>db_runs := db_runs d @ [queued_row new df vid ps tg now],
              db_events := db_events d @ [queued_event new refs now]\<rparr>)"
proof (cases "store_ok d")
  case True
  let ?d = "d\<lparr>db_runs := db_runs d @ [queued_row new df vid ps tg now]\<rparr>"
  have s: "safe d ?d" using assms by (intro safe_add_run queued_row_fresh)
  have "next_seq ?d new = next_seq d new" by (simp add: next_seq_def)
  then have "next_seq ?d new = 0"
    using next_seq_length [OF store_okD(3) [OF True]] run_log_fresh [OF True assms(1)] by simp
  then have "safe ?d (?d\<lparr>db_events := db_events ?d @ [queued_event new refs now]\<rparr>)"
    by (intro safe_event) (auto simp: queued_event_def queued_row_def run_row_of_def row_by_None)
  then show ?thesis using s safe_trans by fastforce
qed (simp add: safe_def)

lemma safe_trigger: "safe d (snd (trigger flt zones new now did tg sch d))"
proof -
  have "safe d (snd (tx d (trigger_body flt zones new now did tg' sch d)))" for tg'
  proof (rule safe_tx)
    fix res d'
    assume "trigger_body flt zones new now did tg' sch d = Inr (res, d')"
    then show "safe d d'"
      by (cases rule: trigger_body_cases) (blast intro: safe_advance safe_queue_run safe_trans)+
  qed
  moreover have "snd (flatten_result x) = snd x" for x :: "(store_error + (store_error + run)) \<times> db"
    by (auto simp: flatten_result_def split: prod.splits sum.splits)
  ultimately show ?thesis by (simp add: trigger_def Let_def)
qed

lemma safe_schedule_each: "safe d (snd (schedule_each flt stopped zones new k now items d))"
proof (induction flt stopped zones new k now items d rule: schedule_each.induct)
  case (2 flt stopped zones new k now item items d)
  let ?t = "trigger (flt k) zones (new k) now (du_def item)
                \<lparr>tg_type = TriggerSchedule, tg_requested_by = [], tg_params = [],
                 tg_scheduled_for = Some (du_fire item)\<rparr> (Some item) d"
  obtain res d1 where t: "?t = (res, d1)" by fastforce
  obtain rs fs d2 where e: "schedule_each flt stopped zones new (k + 1) now items d1 = ((rs, fs), d2)"
    by (metis prod.exhaust)
  have "safe d d1" using safe_trigger t by (metis snd_conv)
  moreover have "safe d1 d2" if "\<not> stopped k" using 2 [OF that] t e by simp
  ultimately show ?case using t e safe_trans by (auto split: sum.splits)
qed simp

lemma safe_ScheduleDue: "safe d (snd (ScheduleDue flt stopped zones new now d))"
  by (simp add: ScheduleDue_def safe_schedule_each)

section \<open>Dispatching\<close>

lemma safe_Claim: "safe d (snd (Claim flt locked cutoff now lim d))"
proof -
  have "safe d (set_runs p (claim_row now) d)" for p
    by (rule safe_set_runs) (rule good_row_quiet, assumption+, simp_all add: claim_row_def same_keys_def)
  then show ?thesis unfolding Claim_def by (auto simp: tx_snd Let_def split: sum.splits)
qed

lemma safe_RecordResult: "safe d (snd (RecordResult flt dbnow rid tok err d))"
proof -
  have "safe d (set_runs p (\<lambda>r. r\<lparr>tr_dispatch_error := m, tr_updated_at := dbnow\<rparr>) d)" for p m
    by (rule safe_set_runs) (rule good_row_quiet, assumption+, simp_all add: same_keys_def)
  then show ?thesis unfolding RecordResult_def by (auto simp: tx_snd split: sum.splits)
qed

lemma safe_dispatch_one: "safe d (snd (dispatch_one flt resolver failures sender now r d))"
  using safe_Apply [of d flt now] safe_RecordResult [of d flt now]
  by (auto simp: dispatch_one_def split: sum.splits option.splits prod.splits) (metis snd_conv)+

lemma safe_dispatch_each: "safe d (snd (dispatch_each flt k resolver failures sender now rs d))"
proof (induction flt k resolver failures sender now rs d rule: dispatch_each.induct)
  case (2 flt k resolver failures sender now r rs d)
  obtain es cs d1 where one: "dispatch_one (flt k) resolver failures sender now r d = ((es, cs), d1)"
    by (metis prod.exhaust)
  then have "safe d d1" using safe_dispatch_one by (metis snd_conv)
  moreover have "safe d1 (snd (dispatch_each flt (k + 1) resolver failures sender now rs d1))"
    using 2 one by metis
  ultimately show ?case using one safe_trans by (auto split: prod.splits)
qed simp

lemma safe_Dispatch: "safe d (snd (Dispatch flt locked resolver failures sender now d))"
proof -
  obtain res d1 where c: "Claim (flt 0) locked (now - DefaultRetryInterval) now DefaultBatchSize d = (res, d1)"
    by fastforce
  then have "safe d d1" using safe_Claim by (metis snd_conv)
  then show ?thesis
    using c by (cases res) (auto simp: Dispatch_def intro: safe_trans [OF _ safe_dispatch_each])
qed

section \<open>The system\<close>

text \<open>
  One step is one call of a service, with any statements failing; \<open>elsewhere\<close> is anything that the
  rest of the platform does to the other tables.
\<close>

inductive run_step :: "db \<Rightarrow> db \<Rightarrow> bool" where
  assign: "run_step d (snd (Assign flt a d))"
| expire: "run_step d (snd (Expire flt rid at d))"
| queue_reason: "run_step d (snd (SetQueueReason flt dbnow rid reason d))"
| agent_event: "run_step d (snd (Apply flt now ev d))"
| server_offline: "run_step d (snd (ServerOffline flt now sid d))"
| running_report: "run_step d (snd (Reconcile flt now rep d))"
| retry: "run_step d (snd (Retry flt new now rid d))"
| retry_failed: "run_step d (snd (RetryFailed flts news now d))"
| cancel: "run_step d (snd (fst (CancelRun flt sender now rid d)))"
| set_enabled: "run_step d (snd (SetEnabled flt now did enabled cancelQueued d))"
| trigger_run: "run_step d (snd (Trigger flt zones new now did tg d))"
| schedule_due: "run_step d (snd (ScheduleDue flts stopped zones news now d))"
| dispatch_runs: "run_step d (snd (Dispatch flts locked resolver failures sender2 now d))"
| elsewhere: "db_runs d' = db_runs d \<Longrightarrow> db_events d' = db_events d \<Longrightarrow> db_leases d' = db_leases d \<Longrightarrow> run_step d d'"

inductive run_reachable :: "db \<Rightarrow> bool" where
  empty_tables: "db_runs d = [] \<Longrightarrow> db_events d = [] \<Longrightarrow> db_leases d = [] \<Longrightarrow> run_reachable d"
| further: "run_reachable d \<Longrightarrow> run_step d d' \<Longrightarrow> run_reachable d'"

lemmas safe_calls = safe_Assign safe_Expire safe_SetQueueReason safe_Apply safe_MarkServerRunsUnknown
  safe_ReconcileRunning safe_retryRun safe_RetryFailed safe_CancelRun safe_SetEnabled safe_trigger
  safe_ScheduleDue safe_Dispatch

lemma run_step_safe: "run_step d d' \<Longrightarrow> safe d d'"
  by (induction rule: run_step.induct)
    (simp_all add: safe_calls ServerOffline_def Reconcile_def Retry_def Trigger_def safe_other_tables)

lemma run_steps_safe: "run_step\<^sup>*\<^sup>* d d' \<Longrightarrow> safe d d'"
  by (induction rule: rtranclp_induct) (auto intro: safe_trans run_step_safe)

lemma run_reachable_ok: "run_reachable d \<Longrightarrow> store_ok d"
proof (induction rule: run_reachable.induct)
  case (empty_tables d)
  then show ?case
    by (simp add: store_ok_def runs_ok_def leases_ok_def events_ok_def lineage_ok_def slots_ok_def run_log_def)
next
  case (further d d')
  then show ?case using run_step_safe by (auto simp: safe_def)
qed

lemma run_reachable_steps: "run_reachable d \<Longrightarrow> run_step\<^sup>*\<^sup>* d d' \<Longrightarrow> run_reachable d'"
  by (rotate_tac, induction rule: rtranclp_induct) (auto intro: run_reachable.intros)

end
