(* ===== verification/Run_Theorems.thy ===== *)
theory Run_Theorems
  imports Run_System
begin

text \<open>
  What the run tables promise their readers: properties of every database that the system of
  \<open>Run_System\<close> reaches, and of the single transactions that agents, schedules and the dispatcher
  rely on.
\<close>

section \<open>Lemmas\<close>

lemma evolves_steps:
  assumes "run_reachable d" "run_step\<^sup>*\<^sup>* d d'"
  shows "evolves d d'"
  using run_steps_safe [OF assms(2)] run_reachable_ok [OF assms(1)] by (simp add: safe_def)

lemma find_SomeD: "find P xs = Some x \<Longrightarrow> x \<in> set xs \<and> P x"
  by (induction xs) (auto split: if_splits)

lemma usage_equal_refl [simp]: "usage_equal u u"
  by (cases u) simp_all

text \<open>An event that has been taken is stored, and the run still has its token.\<close>

definition event_taken :: "run_event \<Rightarrow> db \<Rightarrow> bool" where
  "event_taken ev d \<longleftrightarrow> (\<exists>r. run_row_of d (ev_run ev) = Some r \<and> tr_token r = Some (ev_token ev)) \<and>
     (\<exists>e. stored_event d ev = Some e \<and> same_event e ev)"

lemma token_of_nonempty: "token_of r = t \<Longrightarrow> t \<noteq> [] \<Longrightarrow> tr_token r = Some t"
  by (cases "tr_token r") (simp_all add: token_of_def)

lemma stored_event_cong: "db_events d' = db_events d \<Longrightarrow> stored_event d' ev = stored_event d ev"
  by (simp add: stored_event_def)

lemma stored_agent_event:
  assumes "stored_event d ev = None"
  shows "\<exists>e. stored_event (append_agent_event ev st (agent_payload ev cur st) d) ev = Some e \<and> same_event e ev"
  using assms by (simp add: stored_event_def append_agent_event_def find_append same_event_def agent_payload_def)

lemma ApplyRunEvent_taken:
  assumes "ApplyRunEvent flt ev st d = (Inr b, d')" "ev_token ev \<noteq> []"
  shows "event_taken ev d'"
proof -
  obtain r where r: "run_row_of d (ev_run ev) = Some r" "token_of r = ev_token ev"
    using assms(1) by (auto simp: ApplyRunEvent_def split: option.splits if_splits)
  note t = token_of_nonempty [OF r(2) assms(2)]
  show ?thesis
  proof (cases "stored_event d ev")
    case (Some e)
    then show ?thesis using assms(1) r t by (auto simp: ApplyRunEvent_def event_taken_def split: if_splits)
  next
    case None
    let ?d1 = "append_agent_event ev st (agent_payload ev (tr_state r) st) d"
    let ?d2 = "set_runs (\<lambda>r. tr_id r = ev_run ev) (agent_update ev st) ?d1"
    have d': "d' = ?d2 \<or> d' = release_leases (ev_run ev) (ev_occurred ev) ?d2"
      using assms(1) r None by (auto simp: ApplyRunEvent_def Let_def split: if_splits)
    have ev: "db_events d' = db_events ?d1" using d' by (auto simp: release_leases_def set_runs_def)
    have "run_row_of d' (ev_run ev) = run_row_of ?d2 (ev_run ev)" using d' by auto
    then have "\<exists>q. run_row_of d' (ev_run ev) = Some q \<and> tr_token q = Some (ev_token ev)"
      using r(1) t by (simp add: run_row_of_set_runs agent_update_fields)
    then show ?thesis
      using stored_agent_event [OF None] unfolding event_taken_def stored_event_cong [OF ev] by blast
  qed
qed

lemma event_taken_evolves:
  assumes "event_taken ev d" "evolves d d'"
  shows "event_taken ev d'"
proof -
  obtain r e where r: "run_row_of d (ev_run ev) = Some r" "tr_token r = Some (ev_token ev)"
    and e: "stored_event d ev = Some e" "same_event e ev"
    using assms(1) unfolding event_taken_def by blast
  obtain r' where r': "run_row_of d' (ev_run ev) = Some r'" "row_evolves r r'"
    using assms(2) r(1) unfolding evolves_def by blast
  have "tr_token r' = Some (ev_token ev)" using r'(2) r(2) by (simp add: row_evolves_def)
  moreover have "stored_event d' ev = Some e"
    using assms(2) e(1) by (auto simp: evolves_def prefix_def stored_event_def find_append)
  ultimately show ?thesis using r'(1) e(2) unfolding event_taken_def by blast
qed

lemma event_taken_again:
  assumes "event_taken ev d"
  shows "ApplyRunEvent no_faults ev st d = (Inr False, d)"
  using assms by (auto simp: event_taken_def ApplyRunEvent_def token_of_def)

lemma event_taken_time [simp]: "event_taken (ev\<lparr>ev_occurred := t\<rparr>) d = event_taken ev d"
  by (simp add: event_taken_def stored_event_def same_event_def)

lemma Apply_taken:
  assumes "Apply flt now ev d = (Inr (), d')"
  shows "event_taken ev d'" "event_taken ev e \<Longrightarrow> Apply no_faults now' ev e = (Inr (), e)"
proof -
  obtain st where st: "stateForAgentEvent (ev_type ev) = Some st"
    using assms by (cases "stateForAgentEvent (ev_type ev)") (simp_all add: Apply_def)
  have ok: "\<not> (blank (ev_run ev) \<or> blank (ev_token ev) \<or> ev_sequence ev = 0 \<or>
       (ev_usage ev \<noteq> None \<and> \<not> usage_valid (ev_usage ev)))"
    using assms unfolding Apply_def st option.case by (metis Inl_Inr_False Pair_inject)
  let ?ev = "\<lambda>now. if is_zero_time (ev_occurred ev) then ev\<lparr>ev_occurred := now\<rparr> else ev"
  have ap: "Apply g t ev x = map_prod (map_sum id (\<lambda>_. ())) id (ApplyRunEvent g (?ev t) st x)" for g t x
    unfolding Apply_def st using ok by (simp only: option.case if_False Let_def)
  have same: "event_taken (?ev t) x = event_taken ev x" for t x by simp
  obtain b where b: "ApplyRunEvent flt (?ev now) st d = (Inr b, d')"
    using assms unfolding ap by (cases "ApplyRunEvent flt (?ev now) st d"; cases "fst (ApplyRunEvent flt (?ev now) st d)") auto
  have "ev_token ev \<noteq> []" using ok blank_Nil by metis
  then have "ev_token (?ev now) \<noteq> []" by simp
  then show "event_taken ev d'" using ApplyRunEvent_taken [OF b] unfolding same by blast
  show "Apply no_faults now' ev e = (Inr (), e)" if "event_taken ev e"
    using event_taken_again [of "?ev now'" e st] that unfolding same by (simp add: ap)
qed

subsection \<open>Counting active runs\<close>

lemma length_filter_update:
  "length (filter P (update_where q f xs)) \<le> length (filter P xs) + length (filter q xs)"
  by (induction xs) auto

lemma length_filter_key: "distinct (map key xs) \<Longrightarrow> length (filter (\<lambda>x. key x = k \<and> Q x) xs) \<le> 1"
  by (induction xs) (auto simp: filter_empty_conv image_iff)

lemma active_count_taken:
  assumes "runs_ok d"
  shows "active_count (taken a d) did \<le> active_count d did + 1"
  using length_filter_update [of "\<lambda>r. tr_def r = did \<and> active_state (tr_state r)"
      "\<lambda>r. tr_id r = as_run a \<and> tr_state r = Queued" "take_run a" "db_runs d"]
    length_filter_key [of tr_id "db_runs d" "as_run a" "\<lambda>r. tr_state r = Queued"] assms
  by (simp add: active_count_def taken_def set_runs_def runs_ok_def)

lemma active_count_cong: "db_runs d' = db_runs d \<Longrightarrow> active_count d' = active_count d"
  by (simp add: active_count_def fun_eq_iff)

lemma sync_verified_ensured:
  "sync_verified (ensure_sync sid vid at d) sid vid = Some True \<Longrightarrow> sync_verified d sid vid = Some True"
  by (auto simp: sync_verified_def ensure_sync_def sync_row_of_def find_append split: if_splits option.splits)

lemma Assign_True:
  assumes "run_reachable d" "Assign flt a d = (Inr True, d')"
  shows "\<exists>r. run_row_of d (as_run a) = Some r \<and> tr_state r = Queued \<and> tr_queued_at r \<le> as_at a \<and>
    sync_verified d (as_server a) (tr_version r) = Some True \<and>
    run_row_of d' (as_run a) = Some (take_run a r) \<and>
    (\<exists>l \<in> set (db_leases d'). lr_run l = as_run a \<and> lr_server l = as_server a \<and> lr_id l = ls_id (as_lease a)) \<and>
    int (active_count d' (tr_def r)) \<le> sp_max_concurrency (tr_spec r)"
  using assms(2)
proof (cases rule: Assign_cases)
  case (assigned r d1)
  have e: "db_runs d1 = db_runs d" using assigned(5) by (simp add: ensure_sync_other)
  have row: "run_row_of d1 = run_row_of d" by (rule run_row_of_cong [OF e])
  have runs: "db_runs d' = db_runs (taken a d1)" "db_leases d' = db_leases (insert_lease a (taken a d1))"
    using assigned(8) by (simp_all add: append_event_def insert_lease_def)
  have "runs_ok d1" using store_okD(1) [OF run_reachable_ok [OF assms(1)]] frame_runs(1) [OF e] by simp
  then have "int (active_count d' (tr_def r)) \<le> sp_max_concurrency (tr_spec r)"
    using active_count_taken [of d1 a "tr_def r"] assigned(7) unfolding active_count_cong [OF runs(1)] by linarith
  moreover have "run_row_of d' (as_run a) = Some (take_run a r)"
    unfolding run_row_of_cong [OF runs(1)] taken_def
    using assigned(1,2) row run_row_of_in [OF assigned(1)]
    by (simp add: run_row_of_set_runs take_run_def)
  moreover have "\<exists>l \<in> set (db_leases d'). lr_run l = as_run a \<and> lr_server l = as_server a \<and> lr_id l = ls_id (as_lease a)"
    unfolding runs(2) by (simp add: insert_lease_def)
  ultimately show ?thesis
    using assigned sync_verified_ensured [of "as_server a" "tr_version r" "as_at a" d] by blast
qed simp_all

subsection \<open>Replayed retries\<close>

lemma release_again:
  "db_leases d' = db_leases (release_leases rid at d) \<Longrightarrow> release_leases rid at' d' = d'"
  by (cases d') (simp add: release_leases_def update_where_def)

lemma successors_release [simp]: "successors (release_leases rid at d) r = successors d r"
  by (simp add: successors_def release_leases_def)

lemma successors_in: "successors d r = q # cs \<Longrightarrow> q \<in> set (db_runs d) \<and> tr_retry_of q = Some (root_of r) \<and> tr_attempt q > tr_attempt r"
  unfolding successors_def
  by (drule arg_cong [where f = set]) auto

lemma retry_insert_rows:
  assumes "retry_insert flt new rid at df r (release_leases rid at d) = Inr (i, d')"
  shows "(\<exists>c cs. successors d r = c # cs \<and> i = tr_id c \<and> d' = release_leases rid at d) \<or>
    successors d r = [] \<and> run_row_of d new = None \<and> i = new \<and> db_runs d' = db_runs d @ [retry_row new at r] \<and>
    db_defs d' = db_defs d \<and> db_leases d' = db_leases (release_leases rid at d)"
  using retry_insert_Inr [OF assms]
  by (elim disjE exE conjE) (simp_all add: append_event_def, simp add: release_leases_def)

lemma retry_insert_successor:
  assumes "store_ok d" "run_row_of d rid = Some r" "retry_insert flt new rid at df r (release_leases rid at d) = Inr (i, d')"
  shows "\<exists>q cs. successors d' r = q # cs \<and> tr_id q = i \<and> run_row_of d' i = Some q \<and>
    (run_row_of d i = None \<longrightarrow> q = retry_row new at r)"
  using retry_insert_rows [OF assms(3)]
proof (elim disjE exE conjE)
  fix c cs
  assume c: "successors d r = c # cs" "i = tr_id c" "d' = release_leases rid at d"
  then have "run_row_of d i = Some c" using successors_in [OF c(1)] row_of_id [OF assms(1)] by blast
  then show ?thesis using c by simp
next
  assume n: "successors d r = []" "run_row_of d new = None" "i = new" "db_runs d' = db_runs d @ [retry_row new at r]"
  have "filter (\<lambda>c. tr_retry_of c = Some (root_of r) \<and> tr_attempt c > tr_attempt r) (db_runs d) = []"
    using n(1) by (simp add: successors_def)
  then have "successors d' r = [retry_row new at r]"
    using n(4) by (simp add: successors_def) (simp add: retry_row_def slice_stable_Cons)
  moreover have "run_row_of d' new = Some (retry_row new at r)"
    using n(2,4) by (simp add: run_row_of_def row_by_append) (simp add: retry_row_def)
  ultimately show ?thesis using n(3) by (simp add: retry_row_def)
qed

lemma retry_replayed:
  assumes "store_ok d" "run_row_of d rid = Some r" "retry_insert flt new rid at df r (release_leases rid at d) = Inr (i, d')"
    "retryable r" "row_by df_id (tr_def r) (db_defs d) = Some df" "df_enabled df" "successors d' r = q # cs"
  shows "retryRun no_faults new' rid at' False d' = (Inr (tr_id q), d')"
proof -
  have "run_row_of d' rid = Some r" "row_by df_id (tr_def r) (db_defs d') = Some df"
    using retry_insert_rows [OF assms(3)] assms(2,5)
    by (auto simp: run_row_of_def row_by_append release_leases_def)
  moreover have "release_leases rid at' d' = d'"
    using retry_insert_rows [OF assms(3)] release_again [of d' rid at d at'] by auto
  ultimately show ?thesis
    using assms(4,6,7) by (simp add: retryRun_def retry_insert_def)
qed

subsection \<open>Due schedules\<close>

lemma nextCronTime_after: "nextCronTime zones expression timezone after = Some t \<Longrightarrow> after < t"
  using cron_search_Some first_candidate(1) [of after]
  by (fastforce simp: nextCronTime_def Let_def split: option.splits)

lemma lockDueSchedule_Some:
  assumes "lockDueSchedule zones (Some e) d = Inr nxt"
  shows "\<exists>s t. s \<in> set (db_schedules d) \<and> sc_id s = du_id e \<and> sc_def s = du_def e \<and> sc_enabled s \<and> nxt = Some t \<and> du_fire e < t"
proof (cases "find (\<lambda>s. sc_id s = du_id e \<and> sc_def s = du_def e) (db_schedules d)")
  case None
  then show ?thesis using assms by (simp add: lockDueSchedule_def)
next
  case (Some s)
  then have "\<exists>t. nxt = Some t \<and> du_fire e < t" "sc_enabled s"
    using assms
    by (cases "nextCronTime zones (sc_cron s) (sc_timezone s) (du_fire e)";
        simp add: lockDueSchedule_def nextCronTime_after split: if_splits)+
  then show ?thesis using find_SomeD [OF Some] by blast
qed

lemma trigger_body_error:
  assumes "trigger_body flt zones new now did tg sch d = Inl e"
  shows "e \<noteq> ErrDuplicateRun"
proof -
  have 1: "x \<noteq> ErrDuplicateRun" if "lockDueSchedule zones sch d = Inl x" for x
    using that by (auto simp: lockDueSchedule_def split: option.splits if_splits)
  have 2: "x \<noteq> ErrDuplicateRun" if "resolve_version flt df d = Inl x" for x df
    using that by (auto simp: resolve_version_def stmt_def split: option.splits if_splits)
  have 3: "x \<noteq> ErrDuplicateRun" if "validateVersionParameters a b c f d = Inl x" for x a b c f
    using that by (auto simp: validateVersionParameters_def split: option.splits if_splits)
  show ?thesis
    using assms 1 2 3 unfolding trigger_body_def stmt_def Let_def id_def
    by (fastforce split: option.splits if_splits sum.splits)
qed

lemma trigger_result:
  assumes "trigger flt zones new now did tg sch d = (res, d')"
  shows "trigger_body flt zones new now did (if tg_type tg = TriggerUnset then tg\<lparr>tg_type := TriggerManual\<rparr> else tg) sch d
      = Inr (res, d') \<or> d' = d \<and> (\<exists>e. res = Inl e \<and> e \<noteq> ErrDuplicateRun)"
proof -
  let ?tg = "if tg_type tg = TriggerUnset then tg\<lparr>tg_type := TriggerManual\<rparr> else tg"
  show ?thesis
  proof (cases "trigger_body flt zones new now did ?tg sch d")
    case (Inl e)
    then have "e \<noteq> ErrDuplicateRun" by (rule trigger_body_error)
    then show ?thesis using assms Inl by (auto simp: trigger_def Let_def tx_def flatten_result_def split: if_splits)
  next
    case (Inr x)
    then show ?thesis
      using assms by (cases x) (auto simp: trigger_def Let_def tx_def flatten_result_def split: if_splits)
  qed
qed

lemma trigger_slot:
  assumes "trigger_body flt zones new now did tg sch d = Inr (res, d')"
  shows "\<exists>r \<in> set (db_runs d'). tr_def r = did \<and> tr_scheduled_for r = tg_scheduled_for tg"
  using assms
proof (cases rule: trigger_body_cases)
  case (duplicate nxt row)
  then show ?thesis by (auto simp: schedule_clash_def list_ex_iff advanceDueSchedule_def split: option.splits)
next
  case (queued df vid ps nxt)
  have "df_id df = did" using row_by_Some [OF queued(1)] by simp
  then show ?thesis using queued(10) by (auto simp: advanceDueSchedule_def queued_row_def split: option.splits)
qed

lemma trigger_advances:
  assumes "trigger_body flt zones new now did tg (Some e) d = Inr (res, d')"
  shows "\<exists>s \<in> set (db_schedules d'). sc_id s = du_id e \<and> (\<exists>t. sc_next s = Some t \<and> du_fire e < t)"
proof -
  obtain nxt d1 where n: "lockDueSchedule zones (Some e) d = Inr nxt" "d' = advanceDueSchedule (Some e) nxt now d1"
    "db_schedules d1 = db_schedules d"
    using assms by (cases rule: trigger_body_cases) (auto intro: that)
  obtain s t where "s \<in> set (db_schedules d)" "sc_id s = du_id e" "nxt = Some t" "du_fire e < t"
    using lockDueSchedule_Some [OF n(1)] by blast
  then show ?thesis using n(2,3)
    by (intro bexI [of _ "s\<lparr>sc_next := nxt, sc_updated_at := now\<rparr>"])
      (auto simp: advanceDueSchedule_def set_update_where image_iff intro!: bexI [of _ s])
qed

section \<open>A sample history\<close>

text \<open>One definition, one script version that is ready on one server, and a run that is triggered,
  assigned, started, fails and is retried.\<close>

definition sample_spec :: run_spec where
  "sample_spec = \<lparr>sp_params = [], sp_labels = [], sp_runtime = ''sh'', sp_priority = 1,
     sp_resources = \<lparr>cpu_millicores = 1, memory_bytes = 1, disk_bytes = 1\<rparr>, sp_max_concurrency = 1,
     sp_timeout = 60, sp_max_wait = 0, sp_max_retries = 2, sp_backoff = 10, sp_idempotent = True\<rparr>"

definition sample_db :: db where
  "sample_db = \<lparr>db_runs = [], db_events = [], db_leases = [],
     db_syncs = [\<lparr>sy_server = ''a'', sy_version = ''v'', sy_status = SyncReady, sy_sha = Some ''h'',
                  sy_created = 1, sy_updated = 1\<rparr>],
     db_scripts = [\<lparr>sr_id = ''s'', sr_runtime = ''sh''\<rparr>],
     db_versions = [\<lparr>vr_id = ''v'', vr_script = ''s'', vr_number = 1, vr_sha = ''h'', vr_entrypoint = ''m'',
                     vr_artifacts = None, vr_params = []\<rparr>],
     db_defs = [\<lparr>df_id = ''d'', df_name = ''n'', df_description = [], df_script = ''s'',
                 df_policy = VersionLatest, df_pinned = None, df_enabled = True, df_secret_refs = [],
                 df_spec = sample_spec, df_created_by = None, df_created_at = 1, df_updated_at = 1\<rparr>],
     db_servers = [\<lparr>sv_id = ''a'', sv_status = StatusOnline, sv_enabled = True, sv_drain = False,
                    sv_labels = [], sv_runtimes = [''sh''], sv_capabilities = [], sv_max_concurrency = 4,
                    sv_weight = 100\<rparr>],
     db_snapshots = [],
     db_schedules = [\<lparr>sc_id = ''c'', sc_def = ''d'', sc_cron = ''* * * * *'', sc_timezone = ''UTC'',
                      sc_enabled = True, sc_next = Some minute, sc_created_at = 1, sc_updated_at = 1\<rparr>]\<rparr>"

definition sample_queued :: db where
  "sample_queued = snd (Trigger no_faults utc_only ''r'' 100 ''d''
     \<lparr>tg_type = TriggerManual, tg_requested_by = [], tg_params = [], tg_scheduled_for = None\<rparr> sample_db)"

definition sample_assignment :: assignment where
  "sample_assignment = \<lparr>as_run = ''r'', as_server = ''a'', as_version = ''v'', as_token = ''t'',
     as_lease = \<lparr>ls_id = ''l'', ls_run = ''r'', ls_server = ''a'',
                 ls_resources = \<lparr>cpu_millicores = 1, memory_bytes = 1, disk_bytes = 1\<rparr>,
                 ls_expires = 1000\<rparr>, as_at = 200\<rparr>"

definition sample_assigned :: db where
  "sample_assigned = snd (Assign no_faults sample_assignment sample_queued)"

definition sample_event :: "nat \<Rightarrow> string \<Rightarrow> time \<Rightarrow> run_event" where
  "sample_event k ty at = \<lparr>ev_usage = None, ev_run = ''r'', ev_token = ''t'', ev_sequence = k,
     ev_type = ty, ev_occurred = at, ev_exit_code = 1, ev_message = Text []\<rparr>"

definition sample_started :: db where
  "sample_started = snd (Apply no_faults 300 (sample_event 1 ''started'' 300) sample_assigned)"

definition sample_failed :: db where
  "sample_failed = snd (Apply no_faults 400 (sample_event 2 ''failed'' 400) sample_started)"

definition sample_retried :: db where
  "sample_retried = snd (Retry no_faults ''q'' 500 ''r'' sample_failed)"

lemma sample_states:
  "map (\<lambda>r. (tr_id r, tr_state r)) (db_runs sample_assigned) = [(''r'', Assigned)]"
  "map (\<lambda>r. (tr_id r, tr_state r)) (db_runs sample_failed) = [(''r'', Failed)]"
  "map (\<lambda>r. (tr_id r, tr_state r)) (db_runs sample_retried) = [(''r'', Failed), (''q'', Queued)]"
  by code_simp+

lemma sample_reachable: "run_reachable sample_assigned"
proof -
  have "run_reachable sample_db" by (rule empty_tables) (simp_all add: sample_db_def)
  then have "run_reachable sample_queued" unfolding sample_queued_def by (blast intro: further trigger_run)
  then show ?thesis unfolding sample_assigned_def by (blast intro: further assign)
qed

lemma sample_steps: "run_step\<^sup>*\<^sup>* sample_assigned sample_failed" "run_step\<^sup>*\<^sup>* sample_failed sample_retried"
proof -
  have "run_step sample_assigned sample_started" "run_step sample_started sample_failed"
    "run_step sample_failed sample_retried"
    unfolding sample_started_def sample_failed_def sample_retried_def
    by (blast intro: agent_event retry)+
  then show "run_step\<^sup>*\<^sup>* sample_assigned sample_failed" "run_step\<^sup>*\<^sup>* sample_failed sample_retried" by auto
qed

lemma sample_reachable_retried: "run_reachable sample_retried" "run_reachable sample_failed"
  using run_reachable_steps sample_reachable sample_steps by blast+

section \<open>Properties\<close>

text \<open>C11. The database refines the life cycle of runs. Whatever the services do, in any order and
  with any statements failing, a run stays in its table with the same definition, version,
  specification, attempt and queueing time; its state only moves along the life cycle, so that a
  finished run keeps its final state for ever; and once it has a server and an execution token,
  they never change.\<close>

theorem run_refines_lifecycle:
  assumes "run_reachable d" "run_step\<^sup>*\<^sup>* d d'" "run_row_of d rid = Some r"
  shows "\<exists>r'. run_row_of d' rid = Some r' \<and> same_keys r r' \<and> lifecycle (tr_state r) (tr_state r') \<and>
    (Terminal (tr_state r) \<longrightarrow> tr_state r' = tr_state r) \<and>
    (tr_token r \<noteq> None \<longrightarrow> tr_token r' = tr_token r) \<and> (tr_server r \<noteq> None \<longrightarrow> tr_server r' = tr_server r)"
proof -
  obtain r' where "run_row_of d' rid = Some r'" "row_evolves r r'"
    using evolves_steps [OF assms(1,2)] assms(3) unfolding evolves_def by blast
  then show ?thesis using lifecycle_terminal unfolding row_evolves_def by blast
qed

theorem run_refines_lifecycle_witness:
  "run_reachable sample_assigned \<and> run_step\<^sup>*\<^sup>* sample_assigned sample_failed \<and>
   (\<exists>r r'. run_row_of sample_assigned ''r'' = Some r \<and> tr_state r = Assigned \<and>
      run_row_of sample_failed ''r'' = Some r' \<and> lifecycle (tr_state r) (tr_state r') \<and> tr_token r' = Some ''t'')"
proof -
  obtain r where r: "run_row_of sample_assigned ''r'' = Some r"
    by (cases "run_row_of sample_assigned ''r''") (code_simp, blast)
  have "map_option (\<lambda>r. (tr_state r, tr_token r)) (run_row_of sample_assigned ''r'') = Some (Assigned, Some ''t'')"
    by code_simp
  then have "tr_state r = Assigned" "tr_token r = Some ''t''" using r by auto
  then show ?thesis
    using run_refines_lifecycle [OF sample_reachable sample_steps(1) r] r sample_reachable sample_steps(1) by auto
qed

text \<open>C12. In every reachable database an unreleased lease belongs to a run that is assigned,
  syncing, running or unknown, on the server that the run is assigned to; and no run ever has two
  leases. A run that is queued or finished holds no resources.\<close>

theorem leases_belong_to_live_runs:
  assumes "run_reachable d" "l \<in> set (db_leases d)"
  shows "\<exists>r. run_row_of d (lr_run l) = Some r \<and> tr_server r = Some (lr_server l) \<and>
    (lr_released l = None \<longrightarrow> live (tr_state r)) \<and>
    (\<forall>l' \<in> set (db_leases d). lr_run l' = lr_run l \<longrightarrow> l' = l)"
proof -
  note ok = store_okD(2) [OF run_reachable_ok [OF assms(1)]]
  obtain r where "run_row_of d (lr_run l) = Some r" "lease_fits l r"
    using ok assms(2) unfolding leases_ok_def by blast
  moreover have "\<forall>l' \<in> set (db_leases d). lr_run l' = lr_run l \<longrightarrow> l' = l"
    using ok assms(2) by (auto simp: leases_ok_def distinct_map inj_on_def)
  ultimately show ?thesis unfolding lease_fits_def by (intro exI [of _ r] conjI) simp_all
qed

theorem leases_belong_to_live_runs_witness:
  "\<exists>l r. l \<in> set (db_leases sample_assigned) \<and> lr_released l = None \<and>
     run_row_of sample_assigned (lr_run l) = Some r \<and> live (tr_state r)"
proof -
  have "db_leases sample_assigned \<noteq> [] \<and> lr_released (hd (db_leases sample_assigned)) = None" by code_simp
  then obtain l where "l \<in> set (db_leases sample_assigned)" "lr_released l = None" using hd_in_set by blast
  then show ?thesis using leases_belong_to_live_runs [OF sample_reachable] by blast
qed

text \<open>C13. The events of each run are numbered 0, 1, 2, ... without gaps or repetitions in every
  reachable database, although several services append them independently; and the log only grows:
  every later log of the run starts with the present one.\<close>

theorem event_log_contiguous:
  assumes "run_reachable d" "run_step\<^sup>*\<^sup>* d d'"
  shows "map er_seq (run_log d rid) = map int [0..<length (run_log d rid)] \<and>
    prefix (run_log d rid) (run_log d' rid)"
proof -
  have "prefix (db_events d) (db_events d')" using evolves_steps [OF assms] by (simp add: evolves_def)
  then have "prefix (run_log d rid) (run_log d' rid)" by (auto simp: prefix_def run_log_def)
  then show ?thesis using store_okD(3) [OF run_reachable_ok [OF assms(1)]] by (simp add: events_ok_def)
qed

theorem event_log_contiguous_witness:
  "map er_seq (run_log sample_failed ''r'') = [0, 1, 2, 3] \<and>
   prefix (run_log sample_failed ''r'') (run_log sample_retried ''r'')"
proof -
  have "length (run_log sample_failed ''r'') = 4" by code_simp
  then show ?thesis
    using event_log_contiguous [OF sample_reachable_retried(2) sample_steps(2), of "''r''"]
    by (simp add: eval_nat_numeral)
qed

text \<open>C14. Retries form chains: a run that is not a retry is attempt one; a retry points to such a
  root run, its attempt number lies between two and one more than the allowed retries, and no two
  runs of a chain have the same attempt number, so no attempt is ever repeated twice.\<close>

theorem retry_chains:
  assumes "run_reachable d" "r \<in> set (db_runs d)"
  shows "(case tr_retry_of r of
        None \<Rightarrow> tr_attempt r = 1
      | Some p \<Rightarrow> 2 \<le> tr_attempt r \<and> tr_attempt r \<le> sp_max_retries (tr_spec r) + 1 \<and>
                 (\<exists>q. run_row_of d p = Some q \<and> tr_retry_of q = None)) \<and>
    (\<forall>q \<in> set (db_runs d). root_of r = root_of q \<and> tr_attempt r = tr_attempt q \<longrightarrow> tr_id r = tr_id q)"
  using attempt_okD [OF run_reachable_ok [OF assms(1)] assms(2)]
    store_okD(4) [OF run_reachable_ok [OF assms(1)]] assms(2)
  unfolding lineage_ok_def attempt_ok_def by blast

theorem retry_chains_witness:
  "\<exists>r \<in> set (db_runs sample_retried). tr_retry_of r = Some ''r'' \<and> 2 \<le> tr_attempt r \<and> tr_attempt r \<le> 3"
proof -
  have f: "list_ex (\<lambda>r. tr_retry_of r = Some ''r'' \<and> sp_max_retries (tr_spec r) = 2) (db_runs sample_retried)"
    by code_simp
  then obtain r where r: "r \<in> set (db_runs sample_retried)" "tr_retry_of r = Some ''r''" "sp_max_retries (tr_spec r) = 2"
    unfolding list_ex_iff by blast
  then show ?thesis using retry_chains [OF sample_reachable_retried(1) r(1)] by auto
qed

text \<open>C15. A scheduled slot produces exactly one run. When a due schedule is triggered, whether the
  run is created or found to exist already, afterwards exactly one run of the definition stands for
  that fire time, and the schedule's next fire time has moved past it.\<close>

theorem due_slot_fires_once:
  assumes "run_reachable d" "tg_scheduled_for tg = Some (du_fire e)"
    "trigger flt zones new now (du_def e) tg (Some e) d = (res, d')" "res = Inr run \<or> res = Inl ErrDuplicateRun"
  shows "(\<exists>!r. r \<in> set (db_runs d') \<and> tr_def r = du_def e \<and> tr_scheduled_for r = Some (du_fire e)) \<and>
    (\<exists>s \<in> set (db_schedules d'). sc_id s = du_id e \<and> (\<exists>t. sc_next s = Some t \<and> du_fire e < t))"
proof -
  define tg' where "tg' = (if tg_type tg = TriggerUnset then tg\<lparr>tg_type := TriggerManual\<rparr> else tg)"
  have slot: "tg_scheduled_for tg' = Some (du_fire e)" using assms(2) by (simp add: tg'_def)
  have body: "trigger_body flt zones new now (du_def e) tg' (Some e) d = Inr (res, d')"
    using assms(3,4) trigger_result [of flt zones new now "du_def e" tg "Some e" d res d'] by (auto simp: tg'_def)
  have ok: "store_ok d'"
    using safe_trigger [of d flt zones new now "du_def e" tg "Some e"] assms(3) run_reachable_ok [OF assms(1)]
    by (simp add: safe_def)
  have "\<exists>r \<in> set (db_runs d'). tr_def r = du_def e \<and> tr_scheduled_for r = Some (du_fire e)"
    using trigger_slot [OF body] slot by simp
  moreover have "q = r" if "r \<in> set (db_runs d')" "q \<in> set (db_runs d')" "tr_def r = tr_def q"
    "tr_scheduled_for r = tr_scheduled_for q" "tr_scheduled_for r \<noteq> None" for q r
    using store_okD(5) [OF ok] that row_of_id [OF ok] unfolding slots_ok_def by (metis option.inject)
  ultimately have "\<exists>!r. r \<in> set (db_runs d') \<and> tr_def r = du_def e \<and> tr_scheduled_for r = Some (du_fire e)"
    by (metis option.distinct(1))
  then show ?thesis using trigger_advances [OF body] by blast
qed

definition sample_due :: due_schedule where
  "sample_due = \<lparr>du_id = ''c'', du_def = ''d'', du_expression = ''* * * * *'', du_timezone = ''UTC'',
     du_fire = minute, du_updated = 1\<rparr>"

definition sample_slot :: trigger_request where
  "sample_slot = \<lparr>tg_type = TriggerSchedule, tg_requested_by = [], tg_params = [],
     tg_scheduled_for = Some minute\<rparr>"

lemma sample_lock: "lockDueSchedule utc_only (Some sample_due) sample_db = Inr (Some (2 * minute))"
proof -
  have "nextCronTime utc_only ''* * * * *'' ''UTC'' minute = Some (2 * minute)"
    unfolding nextCronTime_def parse_every_minute by code_simp
  then show ?thesis by (simp add: lockDueSchedule_def sample_due_def sample_db_def)
qed

theorem due_slot_fires_once_witness:
  "\<exists>d'. snd (trigger no_faults utc_only ''q'' (2 * minute) ''d'' sample_slot (Some sample_due) sample_db) = d' \<and>
     (\<exists>!r. r \<in> set (db_runs d') \<and> tr_def r = ''d'' \<and> tr_scheduled_for r = Some minute)"
proof -
  have r: "run_reachable sample_db" by (rule empty_tables) (simp_all add: sample_db_def)
  have v: "resolve_version no_faults (hd (db_defs sample_db)) sample_db = Inr ''v''"
    "validateVersionParameters ''s'' ''v'' (merge_params (sp_params sample_spec) []) [] sample_db = Inr ()"
    "\<not> schedule_clash sample_db x" for x
    by (code_simp, code_simp, simp add: schedule_clash_def sample_db_def)
  have "row_by df_id ''d'' (db_defs sample_db) = Some (hd (db_defs sample_db))" by code_simp
  moreover have "df_enabled (hd (db_defs sample_db))" "df_script (hd (db_defs sample_db)) = ''s''"
    "df_secret_refs (hd (db_defs sample_db)) = []" "df_spec (hd (db_defs sample_db)) = sample_spec"
    "run_row_of sample_db ''q'' = None" by code_simp+
  ultimately obtain run d' where
    t: "trigger no_faults utc_only ''q'' (2 * minute) ''d'' sample_slot (Some sample_due) sample_db = (Inr run, d')"
    using sample_lock v
    by (simp add: trigger_def trigger_body_def Let_def tx_def flatten_result_def sample_slot_def)
  have "tg_scheduled_for sample_slot = Some (du_fire sample_due)" by (simp add: sample_slot_def sample_due_def)
  then show ?thesis using due_slot_fires_once [OF r _ _ disjI1 [OF refl], of sample_slot sample_due] t
    by (simp add: sample_due_def)
qed

text \<open>C16. Redelivery of an agent event is harmless at any later time: once an event has been
  accepted, delivering it again, after any further steps of the system, is accepted and changes
  nothing.\<close>

theorem event_redelivery_ignored:
  assumes "run_reachable d" "Apply flt now ev d = (Inr (), d1)" "run_step\<^sup>*\<^sup>* d1 d2"
  shows "Apply no_faults now' ev d2 = (Inr (), d2)"
proof -
  have "run_step d d1" using agent_event [of d flt now ev] assms(2) by simp
  then have "run_reachable d1" using assms(1) by (rule further [rotated])
  then have "event_taken ev d2"
    using event_taken_evolves [OF Apply_taken(1) [OF assms(2)]] evolves_steps assms(3) by blast
  then show ?thesis by (rule Apply_taken(2) [OF assms(2)])
qed

theorem event_redelivery_ignored_witness:
  "Apply no_faults 900 (sample_event 1 ''started'' 300) sample_retried = (Inr (), sample_retried)"
proof -
  have "fst (Apply no_faults 300 (sample_event 1 ''started'' 300) sample_assigned) = Inr ()" by code_simp
  then have a: "Apply no_faults 300 (sample_event 1 ''started'' 300) sample_assigned = (Inr (), sample_started)"
    unfolding sample_started_def by (simp add: prod_eq_iff)
  have "run_step sample_started sample_failed" unfolding sample_failed_def by (rule agent_event)
  then have "run_step\<^sup>*\<^sup>* sample_started sample_retried" using sample_steps(2) by simp
  then show ?thesis by (rule event_redelivery_ignored [OF sample_reachable a])
qed

text \<open>C17. An assignment that succeeds takes a queued run whose queueing time has come, on a server
  that holds the verified artifact of the run's version; the run is then assigned with the new
  token, the lease is stored, and the definition has at most its allowed number of active runs.\<close>

theorem assign_within_limits:
  assumes "run_reachable d" "Assign flt a d = (Inr True, d')"
  shows "\<exists>r. run_row_of d (as_run a) = Some r \<and> tr_state r = Queued \<and> tr_queued_at r \<le> as_at a \<and>
    sync_verified d (as_server a) (tr_version r) = Some True \<and>
    run_row_of d' (as_run a) = Some (take_run a r) \<and>
    (\<exists>l \<in> set (db_leases d'). lr_run l = as_run a \<and> lr_server l = as_server a \<and> lr_id l = ls_id (as_lease a)) \<and>
    int (active_count d' (tr_def r)) \<le> sp_max_concurrency (tr_spec r)"
  by (rule Assign_True [OF assms])

theorem assign_within_limits_witness:
  "int (active_count sample_assigned ''d'') \<le> 1 \<and> sync_verified sample_queued ''a'' ''v'' = Some True"
proof -
  have r: "run_reachable sample_queued"
    unfolding sample_queued_def
    by (rule further [OF empty_tables trigger_run]) (simp_all add: sample_db_def)
  have "fst (Assign no_faults sample_assignment sample_queued) = Inr True" by code_simp
  then have a: "Assign no_faults sample_assignment sample_queued = (Inr True, sample_assigned)"
    unfolding sample_assigned_def by (simp add: prod_eq_iff)
  have "map_option (\<lambda>r. (tr_def r, tr_version r, sp_max_concurrency (tr_spec r))) (run_row_of sample_queued ''r'')
      = Some (''d'', ''v'', 1)" by code_simp
  then show ?thesis
    using assign_within_limits [OF r a] by (auto simp: sample_assignment_def)
qed

text \<open>C18. A retry obeys the run's policy and is created once. An accepted retry means the run was
  idempotent, confirmed gone and had attempts left; its successor, which belongs to the same chain
  with a later attempt, waits at least the backoff after the end of the run if it is new; and
  asking again, even with another fresh identifier, returns the same successor and changes
  nothing.\<close>

theorem retry_once_by_policy:
  assumes "run_reachable d" "Retry flt new now rid d = (Inr i, d')"
  shows "\<exists>r q. run_row_of d rid = Some r \<and> run_row_of d' i = Some q \<and> sp_idempotent (tr_spec r) \<and> tr_gone r \<and>
    tr_attempt r \<le> sp_max_retries (tr_spec r) \<and> tr_attempt r < tr_attempt q \<and> root_of q = root_of r \<and>
    (run_row_of d i = None \<longrightarrow> tr_state q = Queued \<and> tr_spec q = tr_spec r \<and> tr_version q = tr_version r \<and>
       (case tr_finished_at r of None \<Rightarrow> tr_updated_at r | Some t \<Rightarrow> t) + sp_backoff (tr_spec r) * second \<le> tr_queued_at q) \<and>
    Retry no_faults new' now' rid d' = (Inr i, d')"
proof -
  have nb: "\<not> blank rid" and "retryRun flt new rid now False d = (Inr i, d')"
    using assms(2) by (auto simp: Retry_def split: if_splits)
  then obtain r df where r: "run_row_of d rid = Some r" "retryable r" "row_by df_id (tr_def r) (db_defs d) = Some df"
    "df_enabled df" "retry_insert flt new rid now df r (release_leases rid now d) = Inr (i, d')"
    by (elim retryRun_cases) blast
  note ok = run_reachable_ok [OF assms(1)]
  obtain q :: run_row and cs where q: "successors d' r = q # cs" "tr_id q = i" "run_row_of d' i = Some q"
    "run_row_of d i = None \<longrightarrow> q = retry_row new now r"
    using retry_insert_successor [OF ok r(1) r(5)] by (elim exE conjE) (rule that)
  have s: "tr_retry_of q = Some (root_of r)" "tr_attempt r < tr_attempt q"
    using successors_in [OF q(1)] by auto
  have "Retry no_faults new' now' rid d' = (Inr i, d')"
    using retry_replayed [OF ok r(1) r(5) r(2-4) q(1)] nb q(2) by (simp add: Retry_def)
  then show ?thesis
    using r(1,2) q s
    by (intro exI [of _ r] exI [of _ q]) (auto simp: retryable_def root_of_def retry_row_def max_def split: option.splits)
qed

theorem retry_once_by_policy_witness:
  "run_row_of sample_failed ''q'' = None \<and>
   (\<exists>q. run_row_of sample_retried ''q'' = Some q \<and> tr_state q = Queued \<and> 400 + 10 * second \<le> tr_queued_at q) \<and>
   Retry no_faults ''z'' 600 ''r'' sample_retried = (Inr ''q'', sample_retried)"
proof -
  have "fst (Retry no_faults ''q'' 500 ''r'' sample_failed) = Inr ''q''" by code_simp
  then have a: "Retry no_faults ''q'' 500 ''r'' sample_failed = (Inr ''q'', sample_retried)"
    unfolding sample_retried_def by (simp add: prod_eq_iff)
  have n: "run_row_of sample_failed ''q'' = None" by code_simp
  have "map_option (\<lambda>r. (tr_finished_at r, sp_backoff (tr_spec r))) (run_row_of sample_failed ''r'') = Some (Some 400, 10)"
    by code_simp
  then show ?thesis
    using retry_once_by_policy [OF sample_reachable_retried(2) a, of "''z''" 600] n by auto
qed

end
