(* ===== verification/Sched_Service.thy ===== *)
theory Sched_Service
  imports Run_Theorems
begin

text \<open>
  The scheduler service (\<^verbatim>\<open>internal/scheduler/service.go\<close>): placing one run, handling
  events and scanning the queue, composed from the run store, the lease store and the in-memory
  queue. The answers of the outside world to one call are an argument: the clocks, the failing
  statements of each store call, the fate of each Redis call, and the fresh identifiers.
\<close>

section \<open>State and outside world\<close>

record sched =
  sd_db :: db
  sd_redis :: redis
  sd_queue :: queue

datatype outcome = OutcomeAssigned | OutcomeQueued | OutcomeExpired

datatype sched_error = StoreError store_error | LeaseError lease_error | AlertError | ErrInvalidEvent

datatype sched_event = RunQueued ident | ResourceReleased | ServerOnline | ServerChanged | ScriptReady
  | OtherEvent

text \<open>\<open>se_alert\<close> is \<open>None\<close> without an alert sink and otherwise says whether the sink accepts.
  Store calls: 0 get, 1 expire, 2 count, 3 snapshots, 4 queue reason, 5 assign. Candidate \<open>k\<close>
  reserves with Redis call \<open>2 * k\<close> and releases with \<open>2 * k + 1\<close>.\<close>

record sched_env =
  se_now :: time
  se_dbnow :: time
  se_flt :: "nat \<Rightarrow> faults"
  se_eval :: "nat \<Rightarrow> eval_outcome"
  se_lease_id :: "nat \<Rightarrow> ident"
  se_token :: string
  se_alert :: "bool option"

type_synonym placed = "outcome \<times> sched_error option"

section \<open>Placing one run\<close>

definition leaseTTL :: "run \<Rightarrow> duration" where
  "leaseTTL r =
     (let timeout = i64 (timeout_seconds r * second);
          t = (if timeout \<le> 0 then 3600 * second else timeout)
      in i64 (t + 120 * second))"

definition setQueueReason :: "sched_env \<Rightarrow> ident \<Rightarrow> message \<Rightarrow> sched \<Rightarrow> placed \<times> sched" where
  "setQueueReason e rid reason s =
     (case SetQueueReason (se_flt e 4) (se_dbnow e) rid reason (sd_db s) of
        (Inl er, d) \<Rightarrow> ((OutcomeQueued, Some (StoreError er)), s\<lparr>sd_db := d\<rparr>)
      | (Inr _, d) \<Rightarrow> ((OutcomeQueued, None), s\<lparr>sd_db := d\<rparr>))"

definition lease_request_of :: "sched_env \<Rightarrow> run \<Rightarrow> candidate \<Rightarrow> lease_request" where
  "lease_request_of e r c = \<lparr>lq_run = run_id r, lq_server = cd_server c, lq_available = cd_available c,
     lq_required = run_resources r, lq_now = se_now e, lq_ttl = leaseTTL r\<rparr>"

definition assignment_of :: "sched_env \<Rightarrow> run \<Rightarrow> candidate \<Rightarrow> lease \<Rightarrow> assignment" where
  "assignment_of e r c l = \<lparr>as_run = run_id r, as_server = cd_server c, as_version = script_version_id r,
     as_token = se_token e, as_lease = l, as_at = se_now e\<rparr>"

text \<open>The loop over the ranked candidates; \<open>None\<close> when it ends without a return.\<close>

fun try_candidates :: "sched_env \<Rightarrow> run \<Rightarrow> nat \<Rightarrow> candidate list \<Rightarrow> sched \<Rightarrow> placed option \<times> sched" where
  "try_candidates e r k [] s = (None, s)"
| "try_candidates e r k (c # cs) s =
     (case TryReserve (se_eval e (2 * k)) (se_lease_id e k) (lease_request_of e r c) (sd_redis s) of
        (Inl er, rd) \<Rightarrow> (Some (OutcomeQueued, Some (LeaseError er)), s\<lparr>sd_redis := rd\<rparr>)
      | (Inr None, rd) \<Rightarrow> try_candidates e r (k + 1) cs (s\<lparr>sd_redis := rd\<rparr>)
      | (Inr (Some l), rd) \<Rightarrow>
          (case Assign (se_flt e 5) (assignment_of e r c l) (sd_db s) of
             (Inl er, d) \<Rightarrow>
               (Some (OutcomeQueued, Some (StoreError er)),
                s\<lparr>sd_db := d, sd_redis := snd (Release (se_eval e (2 * k + 1)) l rd)\<rparr>)
           | (Inr False, d) \<Rightarrow>
               (Some (OutcomeQueued, None),
                s\<lparr>sd_db := d, sd_redis := snd (Release (se_eval e (2 * k + 1)) l rd)\<rparr>)
           | (Inr True, d) \<Rightarrow>
               (Some (OutcomeAssigned, None),
                s\<lparr>sd_db := d, sd_redis := rd, sd_queue := Remove (run_id r) (sd_queue s)\<rparr>)))"

definition wait_reason :: "run \<Rightarrow> candidate list \<Rightarrow> snapshot list \<Rightarrow> message" where
  "wait_reason r candidates snapshots =
     (if requires_artifacts r \<and> length candidates = 0 \<and>
         length (Filter (r\<lparr>requires_artifacts := False\<rparr>) snapshots) > 0
      then MsgWaitArtifactAgent else MsgWaitServer)"

definition place_run :: "sched_env \<Rightarrow> run \<Rightarrow> sched \<Rightarrow> placed \<times> sched" where
  "place_run e r s =
     (case CountActive (se_flt e 2) (definition_id r) (sd_db s) of
        Inl er \<Rightarrow> ((OutcomeQueued, Some (StoreError er)), s)
      | Inr active \<Rightarrow>
          if max_concurrency r > 0 \<and> int active \<ge> max_concurrency r
          then setQueueReason e (run_id r) MsgWaitConcurrency (s\<lparr>sd_queue := Push r (sd_queue s)\<rparr>)
          else
            (case Snapshots (se_flt e 3) (se_dbnow e) r (sd_db s) of
               Inl er \<Rightarrow> ((OutcomeQueued, Some (StoreError er)), s)
             | Inr snapshots \<Rightarrow>
                 (let candidates = Filter r snapshots in
                  case try_candidates e r 0 (RankCandidates r candidates) s of
                    (Some res, s1) \<Rightarrow> (res, s1)
                  | (None, s1) \<Rightarrow>
                      setQueueReason e (run_id r) (wait_reason r candidates snapshots)
                        (s1\<lparr>sd_queue := Push r (sd_queue s1)\<rparr>))))"

definition wait_over :: "sched_env \<Rightarrow> run \<Rightarrow> bool" where
  "wait_over e r \<longleftrightarrow> max_wait_seconds r > 0 \<and> \<not> se_now e < queued_at r + i64 (max_wait_seconds r * second)"

definition ScheduleOne :: "sched_env \<Rightarrow> ident \<Rightarrow> sched \<Rightarrow> placed \<times> sched" where
  "ScheduleOne e rid s =
     (case Get (se_flt e 0) rid (sd_db s) of
        Inl er \<Rightarrow> ((OutcomeQueued, Some (StoreError er)), s)
      | Inr r \<Rightarrow>
          if run_state_of r \<noteq> Queued
          then ((if run_state_of r = Expired then OutcomeExpired else OutcomeQueued, None), s)
          else if se_now e < queued_at r then ((OutcomeQueued, None), s)
          else if wait_over e r
          then (case Expire (se_flt e 1) (run_id r) (se_now e) (sd_db s) of
                  (Inl er, d) \<Rightarrow> ((OutcomeQueued, Some (StoreError er)), s\<lparr>sd_db := d\<rparr>)
                | (Inr True, d) \<Rightarrow>
                    ((OutcomeExpired, if se_alert e = Some False then Some AlertError else None),
                     s\<lparr>sd_db := d, sd_queue := Remove (run_id r) (sd_queue s)\<rparr>)
                | (Inr False, d) \<Rightarrow> place_run e r (s\<lparr>sd_db := d\<rparr>))
          else place_run e r s)"

section \<open>Scanning\<close>

text \<open>\<open>sc_env k\<close> is the outside world of the \<open>k\<close>-th run of the loop; list queries fail by
  \<open>sc_list\<close> (0 released leases, 1 active leases, 2 queued runs).\<close>

record scan_env =
  sc_retry_flt :: "nat \<Rightarrow> faults"
  sc_retry_id :: "nat \<Rightarrow> ident"
  sc_times :: "nat \<Rightarrow> time"
  sc_list :: "nat \<Rightarrow> faults"
  sc_release :: "nat \<Rightarrow> eval_outcome"
  sc_restore :: "nat \<Rightarrow> eval_outcome"
  sc_env :: "nat \<Rightarrow> sched_env"

fun release_all :: "(nat \<Rightarrow> eval_outcome) \<Rightarrow> nat \<Rightarrow> lease list \<Rightarrow> redis \<Rightarrow> (lease_error + unit) \<times> redis" where
  "release_all ev k [] rd = (Inr (), rd)"
| "release_all ev k (l # ls) rd =
     (case Release (ev k) l rd of
        (Inl er, rd1) \<Rightarrow> (Inl er, rd1)
      | (Inr _, rd1) \<Rightarrow> release_all ev (k + 1) ls rd1)"

fun restore_all :: "(nat \<Rightarrow> eval_outcome) \<Rightarrow> nat \<Rightarrow> time \<Rightarrow> lease list \<Rightarrow> redis \<Rightarrow> (lease_error + unit) \<times> redis" where
  "restore_all ev k now [] rd = (Inr (), rd)"
| "restore_all ev k now (l # ls) rd =
     (case Restore (ev k) l now rd of
        (Inl er, rd1) \<Rightarrow> (Inl er, rd1)
      | (Inr _, rd1) \<Rightarrow> restore_all ev (k + 1) now ls rd1)"

definition restoreActiveLeases :: "scan_env \<Rightarrow> sched \<Rightarrow> (sched_error + unit) \<times> sched" where
  "restoreActiveLeases v s =
     (case ListActiveLeases (sc_list v 1) (sc_times v 2) (sd_db s) of
        Inl er \<Rightarrow> (Inl (StoreError er), s)
      | Inr ls \<Rightarrow> (case restore_all (sc_restore v) 0 (sc_times v 2) ls (sd_redis s) of
                    (res, rd) \<Rightarrow> (map_sum LeaseError id res, s\<lparr>sd_redis := rd\<rparr>)))"

fun schedule_loop :: "scan_env \<Rightarrow> nat \<Rightarrow> nat \<Rightarrow> sched \<Rightarrow> (sched_error + unit) \<times> sched" where
  "schedule_loop v k 0 s = (Inr (), s)"
| "schedule_loop v k (Suc n) s =
     (case Pop (sd_queue s) of
        None \<Rightarrow> (Inr (), s)
      | Some (r, q) \<Rightarrow>
          (case ScheduleOne (sc_env v k) (run_id r) (s\<lparr>sd_queue := q\<rparr>) of
             ((_, Some er), s1) \<Rightarrow> (Inl er, s1)
           | ((_, None), s1) \<Rightarrow> schedule_loop v (k + 1) n s1))"

definition scan_queue :: "scan_env \<Rightarrow> sched \<Rightarrow> (sched_error + unit) \<times> sched" where
  "scan_queue v s =
     (case ListQueued (sc_list v 2) (sd_db s) of
        Inl er \<Rightarrow> (Inl (StoreError er), s)
      | Inr runs \<Rightarrow>
          (let s1 = s\<lparr>sd_queue := fold Push runs (sd_queue s)\<rparr>
           in schedule_loop v 0 (Len (sd_queue s1)) s1))"

definition scan_leases :: "scan_env \<Rightarrow> sched \<Rightarrow> (sched_error + unit) \<times> sched" where
  "scan_leases v s =
     (case ListReleasedLeases (sc_list v 0) (sc_times v 1) (sd_db s) of
        Inl er \<Rightarrow> (Inl (StoreError er), s)
      | Inr ls \<Rightarrow>
          (case release_all (sc_release v) 0 ls (sd_redis s) of
             (Inl er, rd) \<Rightarrow> (Inl (LeaseError er), s\<lparr>sd_redis := rd\<rparr>)
           | (Inr _, rd) \<Rightarrow> restoreActiveLeases v (s\<lparr>sd_redis := rd\<rparr>)))"

definition Scan :: "scan_env \<Rightarrow> sched \<Rightarrow> (sched_error + unit) \<times> sched" where
  "Scan v s =
     (case RetryFailed (sc_retry_flt v) (sc_retry_id v) (sc_times v 0) (sd_db s) of
        (Inl er, d) \<Rightarrow> (Inl (StoreError er), s\<lparr>sd_db := d\<rparr>)
      | (Inr _, d) \<Rightarrow>
          (case scan_leases v (s\<lparr>sd_db := d\<rparr>) of
             (Inl er, s1) \<Rightarrow> (Inl er, s1)
           | (Inr _, s1) \<Rightarrow> scan_queue v s1))"

definition HandleEvent :: "scan_env \<Rightarrow> sched_event \<Rightarrow> sched \<Rightarrow> (sched_error + unit) \<times> sched" where
  "HandleEvent v ev s =
     (case ev of
        RunQueued rid \<Rightarrow>
          if rid = [] then (Inl ErrInvalidEvent, s)
          else (case ScheduleOne (sc_env v 0) rid s of
                  ((_, Some er), s1) \<Rightarrow> (Inl er, s1)
                | ((_, None), s1) \<Rightarrow> (Inr (), s1))
      | OtherEvent \<Rightarrow> (Inl ErrInvalidEvent, s)
      | _ \<Rightarrow> Scan v s)"

section \<open>The invariant of the scheduler\<close>

definition sched_ok :: "sched \<Rightarrow> bool" where
  "sched_ok s \<longleftrightarrow> run_reachable (sd_db s) \<and> redis_ok (sd_redis s) \<and> queue_inv (sd_queue s)"

definition sound :: "sched \<Rightarrow> sched \<Rightarrow> bool" where
  "sound s s' \<longleftrightarrow> (sched_ok s \<longrightarrow> sched_ok s' \<and> run_step\<^sup>*\<^sup>* (sd_db s) (sd_db s'))"

lemma sound_refl [simp]: "sound s s"
  by (simp add: sound_def)

lemma sound_trans: "sound s t \<Longrightarrow> sound t u \<Longrightarrow> sound s u"
  by (auto simp: sound_def)

lemma sound_db: "run_step (sd_db s) d \<Longrightarrow> sound s (s\<lparr>sd_db := d\<rparr>)"
  by (auto simp: sound_def sched_ok_def intro: further)

lemma sound_redis: "(redis_ok (sd_redis s) \<Longrightarrow> redis_ok rd) \<Longrightarrow> sound s (s\<lparr>sd_redis := rd\<rparr>)"
  by (simp add: sound_def sched_ok_def)

lemma sound_queue: "(queue_inv (sd_queue s) \<Longrightarrow> queue_inv q) \<Longrightarrow> sound s (s\<lparr>sd_queue := q\<rparr>)"
  by (simp add: sound_def sched_ok_def)

lemma sound_Push: "sound s (s\<lparr>sd_queue := Push r (sd_queue s)\<rparr>)"
  by (rule sound_queue) simp

lemma sound_three:
  assumes "run_step (sd_db s) d" "redis_ok (sd_redis s) \<Longrightarrow> redis_ok rd" "queue_inv (sd_queue s) \<Longrightarrow> queue_inv q"
  shows "sound s (s\<lparr>sd_db := d, sd_redis := rd, sd_queue := q\<rparr>)"
  using assms by (auto simp: sound_def sched_ok_def intro: further)

lemma sound_setQueueReason: "sound s (snd (setQueueReason e rid reason s))"
  using sound_db [OF queue_reason [of "sd_db s" "se_flt e 4" "se_dbnow e" rid reason]]
  by (auto simp: setQueueReason_def split: prod.splits sum.splits)

lemma sound_try_candidates: "sound s (snd (try_candidates e r k cs s))"
proof (induction e r k cs s rule: try_candidates.induct)
  case (2 e r k c cs s)
  obtain res rd where t: "TryReserve (se_eval e (2 * k)) (se_lease_id e k) (lease_request_of e r c) (sd_redis s) = (res, rd)"
    by fastforce
  have rd: "redis_ok (sd_redis s) \<Longrightarrow> redis_ok rd" using rl.ok_reserve t by (metis snd_conv)
  show ?case
  proof (cases res)
    case (Inl er)
    then show ?thesis using t sound_redis [OF rd] by simp
  next
    case (Inr lo)
    show ?thesis
    proof (cases lo)
      case None
      then show ?thesis using 2 [OF t [symmetric] Inr None] t Inr sound_trans [OF sound_redis [OF rd]] by simp
    next
      case (Some l)
      obtain ar d where a: "Assign (se_flt e 5) (assignment_of e r c l) (sd_db s) = (ar, d)" by fastforce
      have st: "run_step (sd_db s) d" using assign [of "sd_db s" "se_flt e 5" "assignment_of e r c l"] a by simp
      have "redis_ok (sd_redis s) \<Longrightarrow> redis_ok (snd (Release oc l rd))" for oc using rd rl.ok_release by blast
      then have "sound s (s\<lparr>sd_db := d, sd_redis := snd (Release oc l rd)\<rparr>)" for oc
        using sound_three [OF st, of "snd (Release oc l rd)" "sd_queue s"] by simp
      moreover have "sound s (s\<lparr>sd_db := d, sd_redis := rd, sd_queue := Remove (run_id r) (sd_queue s)\<rparr>)"
        using rd by (intro sound_three [OF st]) (simp_all add: Remove_def)
      ultimately show ?thesis using t Inr Some a by (auto split: sum.splits bool.splits)
    qed
  qed
qed simp

lemma sound_reason: "sound s t \<Longrightarrow> sound s (snd (setQueueReason e rid m (t\<lparr>sd_queue := Push r (sd_queue t)\<rparr>)))"
  by (rule sound_trans [OF sound_trans [OF _ sound_Push] sound_setQueueReason])

lemma place_run_cases:
  obtains (store) er where "place_run e r s = ((OutcomeQueued, Some (StoreError er)), s)"
  | (busy) "place_run e r s = setQueueReason e (run_id r) MsgWaitConcurrency (s\<lparr>sd_queue := Push r (sd_queue s)\<rparr>)"
      "max_concurrency r > 0"
  | (tried) snapshots res s1 where "Snapshots (se_flt e 3) (se_dbnow e) r (sd_db s) = Inr snapshots"
      "try_candidates e r 0 (RankCandidates r (Filter r snapshots)) s = (Some res, s1)"
      "place_run e r s = (res, s1)"
  | (no_server) snapshots s1 where "Snapshots (se_flt e 3) (se_dbnow e) r (sd_db s) = Inr snapshots"
      "try_candidates e r 0 (RankCandidates r (Filter r snapshots)) s = (None, s1)"
      "place_run e r s = setQueueReason e (run_id r) (wait_reason r (Filter r snapshots) snapshots)
         (s1\<lparr>sd_queue := Push r (sd_queue s1)\<rparr>)"
proof (cases "CountActive (se_flt e 2) (definition_id r) (sd_db s)")
  case (Inl er)
  then show ?thesis using store by (simp add: place_run_def)
next
  case (Inr active)
  show ?thesis
  proof (cases "max_concurrency r > 0 \<and> int active \<ge> max_concurrency r")
    case True
    then show ?thesis using Inr busy by (simp add: place_run_def)
  next
    case False
    show ?thesis
    proof (cases "Snapshots (se_flt e 3) (se_dbnow e) r (sd_db s)")
      case (Inl er)
      then show ?thesis using Inr False store by (auto simp: place_run_def)
    next
      case snaps: (Inr snapshots)
      obtain res s1 where "try_candidates e r 0 (RankCandidates r (Filter r snapshots)) s = (res, s1)" by fastforce
      moreover from this have "place_run e r s =
          (case res of Some x \<Rightarrow> (x, s1)
           | None \<Rightarrow> setQueueReason e (run_id r) (wait_reason r (Filter r snapshots) snapshots)
                       (s1\<lparr>sd_queue := Push r (sd_queue s1)\<rparr>))"
        unfolding place_run_def Inr sum.case if_not_P [OF False] snaps Let_def by (cases res) simp_all
      ultimately show ?thesis
        using snaps tried [of snapshots _ s1] no_server [of snapshots s1] by (cases res) simp_all
    qed
  qed
qed

lemma sound_place_run: "sound s (snd (place_run e r s))"
proof (cases rule: place_run_cases [of e r s])
  case (tried snapshots res s1)
  then show ?thesis using sound_try_candidates [of s e r 0 "RankCandidates r (Filter r snapshots)"] by simp
next
  case (no_server snapshots s1)
  then show ?thesis
    using sound_try_candidates [of s e r 0 "RankCandidates r (Filter r snapshots)"] sound_reason by simp
qed (simp_all add: sound_reason)

lemma sound_ScheduleOne: "sound s (snd (ScheduleOne e rid s))"
proof -
  have "sound s (s\<lparr>sd_db := d\<rparr>)" "sound s (s\<lparr>sd_db := d, sd_queue := Remove i (sd_queue s)\<rparr>)"
    "sound s (snd (place_run e r (s\<lparr>sd_db := d\<rparr>)))"
    if "Expire (se_flt e 1) i (se_now e) (sd_db s) = (res, d)" for i res d r
  proof -
    have st: "run_step (sd_db s) d" using expire [of "sd_db s" "se_flt e 1" i "se_now e"] that by simp
    show s1: "sound s (s\<lparr>sd_db := d\<rparr>)" by (rule sound_db [OF st])
    show "sound s (s\<lparr>sd_db := d, sd_queue := Remove i (sd_queue s)\<rparr>)"
      using sound_three [OF st, of "sd_redis s" "Remove i (sd_queue s)"] by (simp add: Remove_def)
    show "sound s (snd (place_run e r (s\<lparr>sd_db := d\<rparr>)))" by (rule sound_trans [OF s1 sound_place_run])
  qed
  then show ?thesis
    unfolding ScheduleOne_def using sound_place_run
    by (auto split: sum.splits prod.splits bool.splits)
qed

lemma sound_schedule_loop: "sound s (snd (schedule_loop v k n s))"
proof (induction v k n s rule: schedule_loop.induct)
  case (2 v k n s)
  show ?case
  proof (cases "Pop (sd_queue s)")
    case (Some rq)
    obtain r q where rq: "rq = (r, q)" by fastforce
    obtain o' er s1 where one: "ScheduleOne (sc_env v k) (run_id r) (s\<lparr>sd_queue := q\<rparr>) = ((o', er), s1)"
      by (metis prod.exhaust)
    have "sound s (s\<lparr>sd_queue := q\<rparr>)" using wq.invar_pop Some rq by (intro sound_queue) blast
    then have "sound s s1"
      using sound_trans [OF _ sound_ScheduleOne, of s "s\<lparr>sd_queue := q\<rparr>" "sc_env v k" "run_id r"] one by simp
    moreover have "sound s1 (snd (schedule_loop v (k + 1) n s1))" if "er = None"
      using 2 [OF Some rq [symmetric] one [symmetric] refl that] .
    ultimately show ?thesis using Some rq one by (cases er) (auto intro: sound_trans)
  qed simp
qed simp

lemma queue_inv_pushes: "queue_inv q \<Longrightarrow> queue_inv (fold Push rs q)"
  by (induction rs arbitrary: q) simp_all

lemma release_all_ok: "redis_ok rd \<Longrightarrow> redis_ok (snd (release_all ev k ls rd))"
proof (induction ev k ls rd rule: release_all.induct)
  case (2 ev k l ls rd)
  obtain res rd1 where r: "Release (ev k) l rd = (res, rd1)" by fastforce
  then have "redis_ok rd1" using rl.ok_release [OF 2(2), of "ev k" l] by simp
  then show ?case using 2(1) r by (cases res) auto
qed simp

lemma restore_all_ok: "redis_ok rd \<Longrightarrow> redis_ok (snd (restore_all ev k now ls rd))"
proof (induction ev k now ls rd rule: restore_all.induct)
  case (2 ev k now l ls rd)
  obtain res rd1 where r: "Restore (ev k) l now rd = (res, rd1)" by fastforce
  then have "redis_ok rd1" using Restore_ok [OF 2(2), of "ev k" l now] by simp
  then show ?case using 2(1) r by (cases res) auto
qed simp

lemma sound_scan_leases: "sound s (snd (scan_leases v s))"
proof -
  have "redis_ok rd" if "redis_ok (sd_redis s)" "release_all (sc_release v) 0 ls (sd_redis s) = (res, rd)" for ls res rd
    using release_all_ok [OF that(1), of "sc_release v" 0 ls] that(2) by simp
  then have rel: "sound s (s\<lparr>sd_redis := rd\<rparr>)" if "release_all (sc_release v) 0 ls (sd_redis s) = (res, rd)" for ls res rd
    using that by (intro sound_redis) blast
  have "redis_ok rd" if "redis_ok (sd_redis t)" "restore_all (sc_restore v) 0 now ls (sd_redis t) = (res, rd)" for now ls res rd t
    using restore_all_ok [OF that(1), of "sc_restore v" 0 now ls] that(2) by simp
  then have "sound t (t\<lparr>sd_redis := rd\<rparr>)" if "restore_all (sc_restore v) 0 now ls (sd_redis t) = (res, rd)" for t now ls res rd
    using that by (intro sound_redis) blast
  then have "sound t (snd (restoreActiveLeases v t))" for t
    by (auto simp: restoreActiveLeases_def split: sum.splits prod.splits)
  then show ?thesis
    using rel sound_trans [OF rel] by (auto simp: scan_leases_def split: sum.splits prod.splits)
qed

lemma sound_Scan: "sound s (snd (Scan v s))"
proof -
  obtain res d where r: "RetryFailed (sc_retry_flt v) (sc_retry_id v) (sc_times v 0) (sd_db s) = (res, d)" by fastforce
  have st: "sound s (s\<lparr>sd_db := d\<rparr>)"
    using sound_db [OF retry_failed [of "sd_db s" "sc_retry_flt v" "sc_retry_id v" "sc_times v 0"]] r by simp
  obtain res1 s1 where l: "scan_leases v (s\<lparr>sd_db := d\<rparr>) = (res1, s1)" by fastforce
  then have s1: "sound s s1" using sound_trans [OF st sound_scan_leases, of v] by simp
  have "sound s1 (snd (scan_queue v s1))"
    using sound_trans [OF sound_queue sound_schedule_loop] queue_inv_pushes
    by (auto simp: scan_queue_def Let_def split: sum.splits)
  then show ?thesis using r l st sound_trans [OF s1] by (cases res; cases res1) (simp_all add: Scan_def)
qed

lemma sound_HandleEvent: "sound s (snd (HandleEvent v ev s))"
  using sound_Scan [of s v] sound_ScheduleOne [of s "sc_env v 0"]
  by (cases ev) (auto simp: HandleEvent_def split: prod.splits option.splits, (metis snd_conv)+)

section \<open>Placement lemmas\<close>

lemma Get_facts:
  assumes "Get flt rid d = Inr r"
  shows "\<exists>row. run_row_of d rid = Some row \<and> run_id r = rid \<and> run_state_of r = tr_state row \<and>
    run_resources r = sp_resources (tr_spec row) \<and> queued_at r = tr_queued_at row"
  using assms run_row_of_in [of d rid]
  by (auto simp: Get_def select_run_def scanRun_def bind_eq_Some_conv split: if_splits option.splits)

lemma try_candidates_assigned:
  assumes "try_candidates e r k cs s = (Some (OutcomeAssigned, er), s')"
  shows "\<exists>c l. c \<in> set cs \<and> er = None \<and>
    Assign (se_flt e 5) (assignment_of e r c l) (sd_db s) = (Inr True, sd_db s') \<and>
    redis_held (sd_redis s') (cd_server c) (run_id r) = Some (run_resources r) \<and>
    sd_queue s' = Remove (run_id r) (sd_queue s)"
  using assms
proof (induction e r k cs s rule: try_candidates.induct)
  case (2 e r k c cs s)
  obtain res rd where t: "TryReserve (se_eval e (2 * k)) (se_lease_id e k) (lease_request_of e r c) (sd_redis s) = (res, rd)"
    by fastforce
  show ?case
  proof (cases res)
    case (Inl er)
    then show ?thesis using 2(2) t by simp
  next
    case (Inr lo)
    show ?thesis
    proof (cases lo)
      case None
      then have "try_candidates e r (k + 1) cs (s\<lparr>sd_redis := rd\<rparr>) = (Some (OutcomeAssigned, er), s')"
        using 2(2) t Inr by simp
      then show ?thesis using 2(1) [OF t [symmetric] Inr None] by auto
    next
      case (Some l)
      have h: "redis_held rd (cd_server c) (run_id r) = Some (run_resources r)"
        using rl.reserve_granted [OF t [unfolded Inr Some]] by (simp add: lease_request_of_def)
      show ?thesis using 2(2) t Inr Some h
        by (intro exI [of _ c] exI [of _ l]) (auto split: prod.splits sum.splits bool.splits)
    qed
  qed
qed simp

lemma TryReserve_error:
  "TryReserve EvalOk lid q rd = (Inl er, rd') \<Longrightarrow> rd' = rd"
  by (auto simp: TryReserve_def Let_def split: if_splits prod.splits)

lemma try_candidates_no_leak:
  assumes "try_candidates e r k cs s = (res, s')" "\<forall>i. se_eval e i = EvalOk" "\<forall>er. res \<noteq> Some (OutcomeAssigned, er)"
  shows "redis_held (sd_redis s') srv \<subseteq>\<^sub>m redis_held (sd_redis s) srv"
  using assms
proof (induction e r k cs s rule: try_candidates.induct)
  case (2 e r k c cs s)
  obtain tr rd where t: "TryReserve EvalOk (se_lease_id e k) (lease_request_of e r c) (sd_redis s) = (tr, rd)"
    by fastforce
  have t': "TryReserve (se_eval e (2 * k)) (se_lease_id e k) (lease_request_of e r c) (sd_redis s) = (tr, rd)"
    using t 2(3) by simp
  show ?case
  proof (cases tr)
    case (Inl er)
    then show ?thesis using 2(2) t' TryReserve_error [OF t [unfolded Inl]] by simp
  next
    case (Inr lo)
    show ?thesis
    proof (cases lo)
      case None
      then have "try_candidates e r (k + 1) cs (s\<lparr>sd_redis := rd\<rparr>) = (res, s')" using 2(2) t' Inr by simp
      then have "redis_held (sd_redis s') srv \<subseteq>\<^sub>m redis_held rd srv"
        using 2(1) [OF t' [symmetric] Inr None] 2(3,4) by simp
      then show ?thesis using rl.reserve_denied [OF t [unfolded Inr None]] map_le_trans by blast
    next
      case (Some l)
      have "sd_redis s' = snd (Release EvalOk l rd)"
        using 2(2-4) t' Inr Some by (auto split: prod.splits sum.splits bool.splits)
      moreover have "redis_held (snd (Release EvalOk l rd)) srv \<subseteq>\<^sub>m redis_held (sd_redis s) srv"
        by (rule rl.reserve_release_no_leak(1) [OF t [unfolded Inr Some] surjective_pairing])
      ultimately show ?thesis by simp
    qed
  qed
qed simp

lemma setQueueReason_parts [simp]:
  "sd_redis (snd (setQueueReason e rid m s)) = sd_redis s"
  "fst (fst (setQueueReason e rid m s)) = OutcomeQueued"
  by (auto simp: setQueueReason_def split: prod.splits sum.splits)

lemma place_run_no_leak:
  assumes "\<forall>i. se_eval e i = EvalOk" "fst (fst (place_run e r s)) \<noteq> OutcomeAssigned"
  shows "redis_held (sd_redis (snd (place_run e r s))) srv \<subseteq>\<^sub>m redis_held (sd_redis s) srv"
proof (cases rule: place_run_cases [of e r s])
  case (tried snapshots res s1)
  then show ?thesis using try_candidates_no_leak [OF tried(2) assms(1)] assms(2) by (cases res) auto
next
  case (no_server snapshots s1)
  then show ?thesis using try_candidates_no_leak [OF no_server(2) assms(1)] by simp
qed simp_all

lemma ScheduleOne_cases:
  obtains (quiet) o' er where "ScheduleOne e rid s = ((o', er), s)" "o' \<noteq> OutcomeAssigned"
  | (expired) r res d where "Get (se_flt e 0) rid (sd_db s) = Inr r" "wait_over e r" "\<not> se_now e < queued_at r"
      "Expire (se_flt e 1) (run_id r) (se_now e) (sd_db s) = (res, d)" "res \<noteq> Inr False"
      "ScheduleOne e rid s = (case res of
         Inl er \<Rightarrow> ((OutcomeQueued, Some (StoreError er)), s\<lparr>sd_db := d\<rparr>)
       | Inr _ \<Rightarrow> ((OutcomeExpired, if se_alert e = Some False then Some AlertError else None),
                     s\<lparr>sd_db := d, sd_queue := Remove (run_id r) (sd_queue s)\<rparr>))"
  | (placing) r d where "Get (se_flt e 0) rid (sd_db s) = Inr r" "run_state_of r = Queued" "\<not> se_now e < queued_at r"
      "d = sd_db s \<or> (\<exists>res. Expire (se_flt e 1) (run_id r) (se_now e) (sd_db s) = (res, d) \<and> res = Inr False)"
      "ScheduleOne e rid s = place_run e r (s\<lparr>sd_db := d\<rparr>)"
proof (cases "Get (se_flt e 0) rid (sd_db s)")
  case (Inl er)
  then show ?thesis using quiet by (simp add: ScheduleOne_def)
next
  case (Inr r)
  show ?thesis
  proof (cases "run_state_of r \<noteq> Queued \<or> se_now e < queued_at r")
    case True
    then have "ScheduleOne e rid s = ((if run_state_of r = Expired then OutcomeExpired else OutcomeQueued, None), s)"
      using Inr by (auto simp: ScheduleOne_def)
    then show ?thesis using quiet by (cases "run_state_of r = Expired") simp_all
  next
    case False
    obtain res d where x: "Expire (se_flt e 1) (run_id r) (se_now e) (sd_db s) = (res, d)" by fastforce
    show ?thesis
    proof (cases "wait_over e r \<and> res \<noteq> Inr False")
      case True
      then have "ScheduleOne e rid s = (case res of
         Inl er \<Rightarrow> ((OutcomeQueued, Some (StoreError er)), s\<lparr>sd_db := d\<rparr>)
       | Inr _ \<Rightarrow> ((OutcomeExpired, if se_alert e = Some False then Some AlertError else None),
                     s\<lparr>sd_db := d, sd_queue := Remove (run_id r) (sd_queue s)\<rparr>))"
        using Inr False x by (auto simp: ScheduleOne_def split: sum.splits)
      then show ?thesis using expired Inr True False x by blast
    next
      case other: False
      show ?thesis
      proof (cases "wait_over e r")
        case True
        then have "ScheduleOne e rid s = place_run e r (s\<lparr>sd_db := d\<rparr>)"
          using Inr False x other by (simp add: ScheduleOne_def)
        then show ?thesis using placing [of r d] Inr False x True other by blast
      next
        case no: False
        then have "ScheduleOne e rid s = place_run e r (s\<lparr>sd_db := sd_db s\<rparr>)"
          using Inr False by (simp add: ScheduleOne_def)
        then show ?thesis using placing [of r "sd_db s"] Inr False by blast
      qed
    qed
  qed
qed

lemma Expire_False: "Expire flt rid at d = (Inr False, d') \<Longrightarrow> d' = d"
  by (auto simp: Expire_def Let_def split: option.splits if_splits)

section \<open>Properties\<close>

text \<open>The sample history with one idle server, and the scheduler about to place its run; a second
  run of higher priority asks for a label that no server has.\<close>

definition sample_server_load :: snapshot_row where
  "sample_server_load = \<lparr>ss_server = ''a'', ss_collected = 1, ss_cpu_total = 8, ss_cpu_used = 0, ss_mem_total = 8,
     ss_mem_avail = 8, ss_disk_total = 8, ss_disk_avail = 8, ss_running = 0\<rparr>"

definition sample_env :: sched_env where
  "sample_env = \<lparr>se_now = 200, se_dbnow = 200, se_flt = (\<lambda>_. no_faults), se_eval = (\<lambda>_. EvalOk),
     se_lease_id = (\<lambda>_. ''l''), se_token = ''t'', se_alert = None\<rparr>"

definition sample_sched :: sched where
  "sample_sched = \<lparr>sd_db = sample_queued\<lparr>db_snapshots := [sample_server_load]\<rparr>, sd_redis = (\<lambda>_. empty_keys),
     sd_queue = NewQueue\<rparr>"

definition sample_scan :: scan_env where
  "sample_scan = \<lparr>sc_retry_flt = (\<lambda>_. no_faults), sc_retry_id = (\<lambda>_. ''z''), sc_times = (\<lambda>_. 200),
     sc_list = (\<lambda>_. no_faults), sc_release = (\<lambda>_. EvalOk), sc_restore = (\<lambda>_. EvalOk), sc_env = (\<lambda>_. sample_env)\<rparr>"

definition picky_db :: db where
  "picky_db = sample_db\<lparr>db_snapshots := [sample_server_load], db_defs := db_defs sample_db @
     [(hd (db_defs sample_db))\<lparr>df_id := ''e'', df_name := ''p'',
        df_spec := sample_spec\<lparr>sp_priority := 9, sp_labels := [(''gpu'', ''yes'')]\<rparr>\<rparr>]\<rparr>"

definition picky_queued :: db where
  "picky_queued =
     (let tg = \<lparr>tg_type = TriggerManual, tg_requested_by = [], tg_params = [], tg_scheduled_for = None\<rparr>
      in snd (Trigger no_faults utc_only ''x'' 110 ''e'' tg
               (snd (Trigger no_faults utc_only ''r'' 100 ''d'' tg picky_db))))"

definition waiting_db :: db where
  "waiting_db = sample_queued\<lparr>db_runs := update_where (\<lambda>_. True)
     (\<lambda>r. r\<lparr>tr_spec := (tr_spec r)\<lparr>sp_max_wait := 1\<rparr>\<rparr>) (db_runs sample_queued)\<rparr>"

lemma sample_sched_ok:
  "run_reachable (sd_db sample_sched)" "redis_ok (sd_redis sample_sched)" "queue_inv (sd_queue sample_sched)"
proof -
  have "run_reachable sample_queued"
    unfolding sample_queued_def
    by (rule further [OF empty_tables trigger_run]) (simp_all add: sample_db_def)
  then show "run_reachable (sd_db sample_sched)"
    by (rule further) (rule elsewhere, simp_all add: sample_sched_def)
  show "redis_ok (sd_redis sample_sched)" by (simp add: sample_sched_def redis_ok_def)
  show "queue_inv (sd_queue sample_sched)" by (simp add: sample_sched_def)
qed



text \<open>C23. When a run is placed, it was queued and its queueing time had come; the chosen server was
  eligible for it in the snapshots the scheduler read; the run is now assigned to that server with
  the new token; the lease store holds exactly the run's resources there; the run has left the
  queue; and the definition stays within its allowed number of active runs.\<close>

theorem placed_run_is_leased:
  assumes "run_reachable (sd_db s)" "queue_inv (sd_queue s)" "ScheduleOne e rid s = ((OutcomeAssigned, er), s')"
  shows "\<exists>r sn. Get (se_flt e 0) rid (sd_db s) = Inr r \<and> run_state_of r = Queued \<and> queued_at r \<le> se_now e \<and>
    (\<exists>snapshots. Snapshots (se_flt e 3) (se_dbnow e) r (sd_db s) = Inr snapshots \<and> sn \<in> set snapshots) \<and>
    eligible r sn \<and> er = None \<and>
    (\<exists>row. run_row_of (sd_db s') rid = Some row \<and> tr_state row = Assigned \<and> tr_server row = Some (sn_id sn) \<and>
       tr_token row = Some (se_token e) \<and> int (active_count (sd_db s') (tr_def row)) \<le> sp_max_concurrency (tr_spec row)) \<and>
    redis_held (sd_redis s') (sn_id sn) rid = Some (run_resources r) \<and> map_of (sd_queue s') rid = None"
proof (cases rule: ScheduleOne_cases [of e rid s])
  case (quiet o' er')
  then show ?thesis using assms(3) by simp
next
  case (expired r res d)
  then show ?thesis using assms(3) by (auto split: sum.splits)
next
  case (placing r d)
  let ?s = "s\<lparr>sd_db := d\<rparr>"
  have id: "run_id r = rid" using Get_facts [OF placing(1)] by blast
  have d: "d = sd_db s" using placing(4) Expire_False by blast
  show ?thesis
  proof (cases rule: place_run_cases [of e r ?s])
    case (tried snapshots res s1)
    have tc: "try_candidates e r 0 (RankCandidates r (Filter r snapshots)) ?s = (Some (OutcomeAssigned, er), s')"
      using tried(2,3) placing(5) assms(3) by simp
    obtain c l where c: "c \<in> set (Filter r snapshots)" "er = None"
      "Assign (se_flt e 5) (assignment_of e r c l) (sd_db s) = (Inr True, sd_db s')"
      "redis_held (sd_redis s') (cd_server c) rid = Some (run_resources r)" "sd_queue s' = Remove rid (sd_queue s)"
      using try_candidates_assigned [OF tc] d id by auto
    obtain sn where sn: "sn \<in> set snapshots" "eligible r sn" "cd_server c = sn_id sn"
      using c(1) by (auto simp: Filter_eligible candidate_of_def)
    obtain row where "run_row_of (sd_db s') rid = Some (take_run (assignment_of e r c l) row)"
      "int (active_count (sd_db s') (tr_def row)) \<le> sp_max_concurrency (tr_spec row)"
      using Assign_True [OF assms(1) c(3)] id by (auto simp: assignment_of_def)
    then have "\<exists>row. run_row_of (sd_db s') rid = Some row \<and> tr_state row = Assigned \<and> tr_server row = Some (sn_id sn) \<and>
       tr_token row = Some (se_token e) \<and> int (active_count (sd_db s') (tr_def row)) \<le> sp_max_concurrency (tr_spec row)"
      using sn(3) by (auto simp: take_run_def assignment_of_def)
    moreover have "map_of (sd_queue s') rid = None" using wq.view_remove [OF assms(2)] c(5) by simp
    ultimately show ?thesis
      using placing(1-3) tried(1) d sn c(2,4) by (intro exI [of _ r] exI [of _ sn]) auto
  qed (use placing(5) assms(3) in \<open>auto dest: arg_cong [where f = "\<lambda>x. fst (fst x)"]\<close>)
qed

theorem placed_run_is_leased_witness:
  "\<exists>s'. ScheduleOne sample_env ''r'' sample_sched = ((OutcomeAssigned, None), s') \<and>
     (\<exists>srv (r :: run). redis_held (sd_redis s') srv ''r'' = Some (run_resources r)) \<and> map_of (sd_queue s') ''r'' = None"
proof -
  have "fst (ScheduleOne sample_env ''r'' sample_sched) = (OutcomeAssigned, None)" by code_simp
  then obtain s' where s': "ScheduleOne sample_env ''r'' sample_sched = ((OutcomeAssigned, None), s')"
    by (metis prod.collapse)
  then show ?thesis using placed_run_is_leased [OF sample_sched_ok(1,3) s'] by blast
qed

text \<open>C24. No resources leak: if every Redis call is answered, a run that is not placed leaves no
  lease behind; what any server holds afterwards it held before.\<close>

theorem unplaced_run_leaves_no_lease:
  assumes "\<forall>i. se_eval e i = EvalOk" "ScheduleOne e rid s = ((o', er), s')" "o' \<noteq> OutcomeAssigned"
  shows "redis_held (sd_redis s') srv \<subseteq>\<^sub>m redis_held (sd_redis s) srv"
proof (cases rule: ScheduleOne_cases [of e rid s])
  case (placing r d)
  then have p: "place_run e r (s\<lparr>sd_db := d\<rparr>) = ((o', er), s')" using assms(2) by simp
  show ?thesis
    using place_run_no_leak [OF assms(1), of r "s\<lparr>sd_db := d\<rparr>" srv] assms(3) unfolding p by simp
next
  case (expired r res d)
  then have "sd_redis s' = sd_redis s" using assms(2) by (auto split: sum.splits)
  then show ?thesis by simp
qed (use assms(2) in simp)

theorem unplaced_run_leaves_no_lease_witness:
  "\<exists>s'. ScheduleOne sample_env ''x'' (sample_sched\<lparr>sd_db := picky_queued\<rparr>) = ((OutcomeQueued, None), s') \<and>
     redis_held (sd_redis s') ''a'' \<subseteq>\<^sub>m redis_held (sd_redis sample_sched) ''a''"
proof -
  have "fst (ScheduleOne sample_env ''x'' (sample_sched\<lparr>sd_db := picky_queued\<rparr>)) = (OutcomeQueued, None)" by code_simp
  then obtain s' where s': "ScheduleOne sample_env ''x'' (sample_sched\<lparr>sd_db := picky_queued\<rparr>) = ((OutcomeQueued, None), s')"
    by (metis prod.collapse)
  have "\<forall>i. se_eval sample_env i = EvalOk" by (simp add: sample_env_def)
  then show ?thesis using unplaced_run_leaves_no_lease [OF _ s', of "''a''"] s' by simp
qed

text \<open>A run whose maximum waiting time has passed expires when it is next considered: the row
  becomes expired with the present time as its end, the run leaves the queue, and no resources are
  touched, whether or not the alert can be raised.\<close>

lemma run_expires_after_waiting:
  assumes "run_row_of (sd_db s) rid = Some row" "tr_state row = Queued" "Get no_faults rid (sd_db s) = Inr r"
    "se_flt e 0 = no_faults" "se_flt e 1 = no_faults" "queued_at r \<le> se_now e" "wait_over e r" "queue_inv (sd_queue s)"
  shows "\<exists>er s'. ScheduleOne e rid s = ((OutcomeExpired, er), s') \<and> (er \<noteq> None \<longrightarrow> se_alert e = Some False) \<and>
    run_row_of (sd_db s') rid = Some (row\<lparr>tr_state := Expired, tr_finished_at := Some (se_now e), tr_updated_at := se_now e\<rparr>) \<and>
    map_of (sd_queue s') rid = None \<and> sd_redis s' = sd_redis s"
proof -
  have id: "run_id r = rid" "run_state_of r = Queued" "tr_id row = rid"
    using Get_facts [OF assms(3)] assms(1,2) run_row_of_in [OF assms(1)] by auto
  let ?d = "append_event rid ''run.expired'' Expired (message_payload MsgQueueTimeout) (se_now e)
      (set_runs (\<lambda>r. tr_id r = rid \<and> tr_state r = Queued) (expire_run (se_now e)) (sd_db s))"
  have x: "Expire no_faults rid (se_now e) (sd_db s) = (Inr True, ?d)"
    using assms(1,2) by (simp add: Expire_def Let_def)
  have row: "run_row_of ?d rid = Some (expire_run (se_now e) row)"
    using assms(1,2) id(3) by (simp add: run_row_of_set_runs expire_run_def)
  have "map_of (Remove rid (sd_queue s)) rid = None" using wq.view_remove [OF assms(8)] by simp
  then show ?thesis
    using assms(3-7) id x row by (simp add: ScheduleOne_def expire_run_def)
qed

lemma run_expires_after_waiting_witness:
  "\<exists>er s' row. ScheduleOne (sample_env\<lparr>se_now := 2 * second\<rparr>) ''r'' (sample_sched\<lparr>sd_db := waiting_db\<rparr>) =
     ((OutcomeExpired, er), s') \<and> run_row_of (sd_db s') ''r'' = Some row \<and> tr_state row = Expired"
proof -
  let ?e = "sample_env\<lparr>se_now := 2 * second\<rparr>"
  have c: "map_option tr_state (run_row_of waiting_db ''r'') = Some Queued"
    "map_sum id (\<lambda>r. queued_at r \<le> se_now ?e \<and> wait_over ?e r) (Get no_faults ''r'' waiting_db) = Inr True"
    by code_simp+
  obtain row where row: "run_row_of waiting_db ''r'' = Some row" "tr_state row = Queued" using c(1) by auto
  obtain r where r: "Get no_faults ''r'' waiting_db = Inr r" "queued_at r \<le> se_now ?e" "wait_over ?e r"
    using c(2) by (cases "Get no_faults ''r'' waiting_db") auto
  show ?thesis
    using run_expires_after_waiting [of "sample_sched\<lparr>sd_db := waiting_db\<rparr>" "''r''" row r ?e] row r sample_sched_ok(3)
    by (auto simp: sample_env_def)
qed


end
