(* ===== verification/Dispatch_Theorems.thy ===== *)
theory Dispatch_Theorems
  imports Run_Theorems
begin

text \<open>
  What the dispatcher guarantees: only verified scripts of claimed runs are sent, to the assigned
  server and with the assigned token; a claimed run is left alone for the retry interval; the
  script path cannot leave the script cache; recorded errors are cut to whole runes.
\<close>

section \<open>Lemmas\<close>

lemma map_filter_in: "y \<in> set (List.map_filter f xs) \<longleftrightarrow> (\<exists>x \<in> set xs. f x = Some y)"
  by (induction xs) (auto simp: List.map_filter_simps split: option.splits)

lemma in_claim_rows:
  assumes "r \<in> set (claim_rows locked cutoff lim d)"
  shows "r \<in> set (db_runs d) \<and> claimable cutoff r \<and> \<not> locked (tr_id r)"
  using assms unfolding claim_rows_def by (auto dest!: in_set_takeD)

lemma claimed_run_fields:
  assumes "claimed_run d r = Some run"
  shows "dr_id run = tr_id r" "dr_token run = token_of r" "tr_server r = Some (dr_server run)"
    "dr_version run = tr_version r" "dr_verified run \<longrightarrow> sync_verified d (dr_server run) (tr_version r) = Some True"
  using assms
  by (auto simp: claimed_run_def Let_def sync_verified_def bind_eq_Some_conv dest!: row_by_Some split: option.splits)

lemma claimed_run_cong:
  assumes "db_defs d' = db_defs d" "db_versions d' = db_versions d" "db_servers d' = db_servers d"
    "db_syncs d' = db_syncs d" "db_events d' = db_events d"
  shows "claimed_run d' r = claimed_run d r"
proof -
  have eq: "sync_row_of d' = sync_row_of d" "queued_secret_refs d' = queued_secret_refs d"
    using assms by (simp_all add: fun_eq_iff sync_row_of_def queued_secret_refs_def)
  show ?thesis unfolding claimed_run_def assms eq by (rule refl)
qed

lemma Claim_runs:
  assumes "Claim flt locked cutoff now lim d = (Inr runs, d')" "run \<in> set runs"
  shows "\<exists>r \<in> set (claim_rows locked cutoff lim d). claimed_run d (claim_row now r) = Some run \<and>
    d' = set_runs (\<lambda>r. tr_id r \<in> tr_id ` set (claim_rows locked cutoff lim d)) (claim_row now) d"
proof -
  let ?d = "set_runs (\<lambda>r. tr_id r \<in> tr_id ` set (claim_rows locked cutoff lim d)) (claim_row now) d"
  have "claimed_run ?d x = claimed_run d x" for x by (rule claimed_run_cong) (simp_all add: set_runs_def)
  moreover have "d' = ?d" "runs = List.map_filter (claimed_run ?d) (map (claim_row now) (claim_rows locked cutoff lim d))"
    using assms by (auto simp: Claim_def Let_def split: if_splits)
  ultimately show ?thesis using assms(2) by (auto simp: map_filter_in)
qed

lemma executionCommand_fields:
  assumes "executionCommand resolver r = Inr cmd"
  shows "ac_run cmd = dr_id r" "ac_token cmd = dr_token r" "ac_version cmd = dr_version r"
    "entrypoint_ok (dr_entrypoint r)"
    "ac_script_path cmd = path_join [cache_root, dr_script r, dr_version r, dr_entrypoint r]"
  using assms by (auto simp: executionCommand_def split: if_splits option.splits)

lemma dispatch_one_sent:
  assumes "dispatch_one flt resolver failures sender now r d = ((es, sent), d')" "(sid, cmd) \<in> set sent"
  shows "sid = dr_server r \<and> dr_verified r \<and> executionCommand resolver r = Inr cmd"
  using assms by (auto simp: dispatch_one_def decide_def split: sum.splits option.splits if_splits prod.splits)

lemma dispatch_each_sent:
  assumes "dispatch_each flt k resolver failures sender now runs d = ((es, sent), d')" "(sid, cmd) \<in> set sent"
  shows "\<exists>r \<in> set runs. sid = dr_server r \<and> dr_verified r \<and> executionCommand resolver r = Inr cmd"
  using assms
proof (induction flt k resolver failures sender now runs d arbitrary: es sent d' rule: dispatch_each.induct)
  case (2 flt k resolver failures sender now r rs d)
  obtain es1 cs1 d1 where one: "dispatch_one (flt k) resolver failures sender now r d = ((es1, cs1), d1)"
    by (metis prod.exhaust)
  obtain es2 cs2 d2 where rest: "dispatch_each flt (k + 1) resolver failures sender now rs d1 = ((es2, cs2), d2)"
    by (metis prod.exhaust)
  have "sent = cs1 @ cs2" using 2(2) one rest by simp
  then have "(sid, cmd) \<in> set cs1 \<or> (sid, cmd) \<in> set cs2" using 2(3) by auto
  then show ?case
    using dispatch_one_sent [OF one] 2(1) [OF one [symmetric] refl rest] by auto
qed simp

lemma path_join_four:
  assumes "\<forall>c \<in> set (bs @ [a, b] @ cs). plain c" "bs \<noteq> []" "cs \<noteq> []"
  shows "path_join [slash # join_slash bs, a, b, join_slash cs] = slash # join_slash (bs @ [a, b] @ cs)"
proof -
  have "a \<noteq> []" "b \<noteq> []" using assms(1) by (simp_all add: plain_def)
  moreover have "join_slash cs \<noteq> []" using assms by (cases cs rule: join_slash.cases) (auto simp: plain_def)
  moreover have "join_slash (bs @ [a, b]) = join_slash bs @ slash # a @ slash # b"
    using join_slash_append [of bs "[a, b]"] assms(2) by simp
  ultimately have "path_join [slash # join_slash bs, a, b, join_slash cs] =
      path_join [slash # join_slash (bs @ [a, b]), join_slash cs]"
    by (simp add: path_join_def)
  then show ?thesis using path_join_plain [of "bs @ [a, b]" cs] assms by simp
qed

lemma join_split: "join_slash (split_on slash s) = s"
proof (induction s)
  case (Cons x s)
  then show ?case by (cases "split_on slash s" rule: join_slash.cases) auto
qed simp

section \<open>Properties\<close>

text \<open>C19. Every command that a dispatch sends belongs to a run that was assigned and due, goes to the
  server the run is assigned to, carries the run's execution token and version, and the server had
  reported that version ready with the registered checksum.\<close>

theorem dispatch_sends_verified:
  assumes "Dispatch flt locked resolver failures sender now d = ((es, sent), d')" "(sid, cmd) \<in> set sent"
  shows "\<exists>r \<in> set (db_runs d). tr_id r = ac_run cmd \<and> claimable (now - DefaultRetryInterval) r \<and> \<not> locked (tr_id r) \<and>
    tr_server r = Some sid \<and> tr_token r = Some (ac_token cmd) \<and> tr_version r = ac_version cmd \<and>
    sync_verified d sid (ac_version cmd) = Some True"
proof -
  obtain res d1 where c: "Claim (flt 0) locked (now - DefaultRetryInterval) now DefaultBatchSize d = (res, d1)"
    by fastforce
  then obtain runs where runs: "res = Inr runs" "dispatch_each flt 1 resolver failures sender now runs d1 = ((es, sent), d')"
    using assms by (cases res) (auto simp: Dispatch_def)
  obtain run where run: "run \<in> set runs" "sid = dr_server run" "dr_verified run" "executionCommand resolver run = Inr cmd"
    using dispatch_each_sent [OF runs(2) assms(2)] by blast
  obtain r where r: "r \<in> set (claim_rows locked (now - DefaultRetryInterval) DefaultBatchSize d)"
    "claimed_run d (claim_row now r) = Some run"
    using Claim_runs [OF c [unfolded runs(1)] run(1)] by blast
  note f = claimed_run_fields [OF r(2)] executionCommand_fields [OF run(4)]
  have "tr_token r = Some (token_of r)"
    using in_claim_rows [OF r(1)] by (auto simp: claimable_def token_of_def)
  then show ?thesis
    using in_claim_rows [OF r(1)] f run(2,3)
    by (intro bexI [of _ r]) (simp_all add: claim_row_def token_of_def)
qed

definition sample_dispatch :: "(store_error list \<times> sent) \<times> db" where
  "sample_dispatch = Dispatch (\<lambda>_. no_faults) (\<lambda>_. False) None True (Some (\<lambda>_ _. True)) 300 sample_assigned"

lemma sample_dispatch_sends: "snd (fst sample_dispatch) \<noteq> []"
  by code_simp

theorem dispatch_sends_verified_witness:
  "\<exists>sid cmd. (sid, cmd) \<in> set (snd (fst sample_dispatch)) \<and>
     (\<exists>r \<in> set (db_runs sample_assigned). tr_id r = ac_run cmd \<and> tr_token r = Some (ac_token cmd) \<and>
        sync_verified sample_assigned sid (ac_version cmd) = Some True)"
proof -
  obtain es sent d' where s: "sample_dispatch = ((es, sent), d')" by (metis prod.exhaust)
  have "sent \<noteq> []" using sample_dispatch_sends unfolding s by simp
  then obtain sid cmd where c: "(sid, cmd) \<in> set sent" by (cases sent) auto
  show ?thesis
    using dispatch_sends_verified [OF s [unfolded sample_dispatch_def] c] c unfolding s fst_conv snd_conv by blast
qed

text \<open>C20. A run that has been claimed is not claimed again while the retry interval lasts: a later
  claim whose cutoff lies before the time of the first one returns none of its runs, whatever else
  it returns.\<close>

theorem no_reclaim_within_interval:
  assumes "Claim flt locked cutoff now lim d = (Inr runs, d1)" "cutoff' < now"
    "Claim flt' locked' cutoff' now' lim' d1 = (Inr runs', d2)"
  shows "dr_id ` set runs \<inter> dr_id ` set runs' = {}"
proof -
  have False if both: "run \<in> set runs" "run' \<in> set runs'" "dr_id run = dr_id run'" for run run'
  proof -
    obtain r where r: "r \<in> set (claim_rows locked cutoff lim d)" "claimed_run d (claim_row now r) = Some run"
      and d1: "d1 = set_runs (\<lambda>r. tr_id r \<in> tr_id ` set (claim_rows locked cutoff lim d)) (claim_row now) d"
      using Claim_runs [OF assms(1) both(1)] by blast
    obtain q where q: "q \<in> set (claim_rows locked' cutoff' lim' d1)" "claimed_run d1 (claim_row now' q) = Some run'"
      using Claim_runs [OF assms(3) both(2)] by blast
    have "tr_id q = tr_id r"
      using claimed_run_fields(1) [OF r(2)] claimed_run_fields(1) [OF q(2)] both(3) by (simp add: claim_row_def)
    then have id: "tr_id q \<in> tr_id ` set (claim_rows locked cutoff lim d)" using r(1) by simp
    have "q \<in> set (db_runs d1)" using in_claim_rows [OF q(1)] by simp
    then have "q \<in> (\<lambda>p. if tr_id p \<in> tr_id ` set (claim_rows locked cutoff lim d) then claim_row now p else p) ` set (db_runs d)"
      unfolding d1 by (simp add: set_runs_def set_update_where)
    then obtain p :: run_row where "q = (if tr_id p \<in> tr_id ` set (claim_rows locked cutoff lim d) then claim_row now p else p)"
      by (rule imageE)
    then have "tr_last_dispatch q = Some now" using id by (auto simp: claim_row_def split: if_splits)
    then show False using in_claim_rows [OF q(1)] assms(2) by (simp add: claimable_def)
  qed
  then show ?thesis by blast
qed

definition sample_claim :: "time \<Rightarrow> db \<Rightarrow> (store_error + dispatch_run list) \<times> db" where
  "sample_claim now d = Claim no_faults (\<lambda>_. False) (now - DefaultRetryInterval) now DefaultBatchSize d"

theorem no_reclaim_within_interval_witness:
  "\<exists>runs d1 runs' d2. sample_claim 300 sample_assigned = (Inr runs, d1) \<and> runs \<noteq> [] \<and>
     sample_claim 400 d1 = (Inr runs', d2) \<and> dr_id ` set runs \<inter> dr_id ` set runs' = {}"
proof -
  have f: "map_sum id (\<lambda>x. x \<noteq> []) (fst (sample_claim 300 sample_assigned)) = Inr True" by code_simp
  then obtain runs d1 where a: "sample_claim 300 sample_assigned = (Inr runs, d1)" "runs \<noteq> []"
    by (cases "sample_claim 300 sample_assigned"; cases "fst (sample_claim 300 sample_assigned)") auto
  obtain runs' d2 where b: "sample_claim 400 d1 = (Inr runs', d2)"
    by (simp add: sample_claim_def Claim_def DefaultBatchSize_def Let_def tx_def)
  have "(400::int) - DefaultRetryInterval < 300" by (simp add: DefaultRetryInterval_def second_def)
  then show ?thesis
    using no_reclaim_within_interval [OF a(1) [unfolded sample_claim_def] _ b [unfolded sample_claim_def]] a b by blast
qed

text \<open>C21. The script path of a command stays inside the script cache: for a script and a version
  whose identifiers are ordinary path elements, whatever entry point the version declares, the path
  is the cache directory, the script, the version and then ordinary elements that spell the entry
  point, without any step upwards.\<close>

theorem script_path_inside_cache:
  assumes "executionCommand resolver r = Inr cmd" "plain (dr_script r)" "plain (dr_version r)"
  shows "\<exists>cs. cs \<noteq> [] \<and> (\<forall>c \<in> set cs. plain c) \<and> dr_entrypoint r = join_slash cs \<and>
    ac_script_path cmd = slash # join_slash ([''var'', ''lib'', ''yunling-agent'', ''script-cache'', ''scripts''] @
       [dr_script r, dr_version r] @ cs)"
proof -
  let ?bs = "[''var'', ''lib'', ''yunling-agent'', ''script-cache'', ''scripts'']"
  let ?e = "dr_entrypoint r"
  have ok: "entrypoint_ok ?e" by (rule executionCommand_fields(4) [OF assms(1)])
  then have "\<forall>c \<in> set (split_on slash ?e). plain c"
    unfolding entrypoint_ok_def Let_def by (intro clean_relative) (auto simp: eq_commute)
  moreover have "join_slash (split_on slash ?e) = ?e" by (rule join_split)
  moreover have "\<forall>c \<in> set (?bs @ [dr_script r, dr_version r] @ split_on slash ?e). plain c"
    using calculation(1) assms(2,3) by (simp add: plain_def)
  moreover have "cache_root = slash # join_slash ?bs" by (simp add: cache_root_def)
  ultimately show ?thesis
    using path_join_four [of ?bs "dr_script r" "dr_version r" "split_on slash ?e"]
      executionCommand_fields(5) [OF assms(1)]
    by (intro exI [of _ "split_on slash ?e"]) simp
qed

definition sample_run :: dispatch_run where
  "sample_run = \<lparr>dr_artifacts = None, dr_artifacts_supported = False, dr_id = ''r'', dr_token = ''t'',
     dr_server = ''a'', dr_script = ''s'', dr_version = ''v'', dr_runtime = ''sh'', dr_entrypoint = ''bin/m'',
     dr_params = [], dr_secrets = [], dr_resources = no_resources, dr_tasks_max = 0, dr_timeout = 60,
     dr_attempt = 1, dr_sync = SyncReady, dr_verified = True\<rparr>"

theorem script_path_inside_cache_witness:
  "\<exists>cmd cs. executionCommand None sample_run = Inr cmd \<and> (\<forall>c \<in> set cs. plain c) \<and> ''bin/m'' = join_slash cs \<and>
     ac_script_path cmd = slash # join_slash ([''var'', ''lib'', ''yunling-agent'', ''script-cache'', ''scripts''] @
       [''s'', ''v''] @ cs)"
proof -
  have "map_sum id (\<lambda>_. ()) (executionCommand None sample_run) = Inr ()" by code_simp
  then obtain cmd where c: "executionCommand None sample_run = Inr cmd"
    by (cases "executionCommand None sample_run") auto
  have f: "dr_script sample_run = ''s''" "dr_version sample_run = ''v''" "dr_entrypoint sample_run = ''bin/m''"
    by (simp_all add: sample_run_def)
  have "plain ''s''" "plain ''v''" by (simp_all add: plain_def)
  then show ?thesis using script_path_inside_cache [OF c] c unfolding f by blast
qed

text \<open>Recording an error cuts the text to the limit by whole runes: the kept text decodes to
  exactly the first runes of the original, so at most the limit of them, and never ends in the
  middle of a character.\<close>

lemma truncate_whole_runes:
  assumes "0 < lim"
  shows "runes_of (truncateRunes v lim) = take (nat lim) (runes_of v) \<and> int (rune_count (truncateRunes v lim)) \<le> lim"
proof -
  have "list_all scalar (take (nat lim) (runes_of v))"
    using runes_scalar [of v] by (auto simp: list_all_iff dest: in_set_takeD)
  then have "runes_of (truncateRunes v lim) = take (nat lim) (runes_of v)"
    using assms by (simp add: truncateRunes_def runes_of_string rune_count_def)
  then show ?thesis using assms by (simp add: rune_count_def)
qed

lemma truncate_whole_runes_example:
  "rune_count ''abc'' = 3 \<and> int (rune_count (truncateRunes ''abc'' 2)) \<le> 2"
  using truncate_whole_runes [of 2 "''abc''"]
  by (simp add: rune_count_def runes_of.simps decode_rune_def byte_at_def)

end
