(* ===== verification/Go_Encoding.thy ===== *)
theory Go_Encoding
  imports Go_Prelude
begin

text \<open>
  Text encodings of the Go standard library on byte strings: \<^verbatim>\<open>url.PathEscape\<close> and
  \<^verbatim>\<open>url.QueryEscape\<close>, the four \<^verbatim>\<open>base64\<close> encodings, \<^verbatim>\<open>bytes.ReplaceAll\<close> and
  \<^verbatim>\<open>strconv.ParseUint\<close>, with the lemmas on replacing that redaction relies on.
\<close>

section \<open>URL escaping\<close>

definition url_letter :: "char \<Rightarrow> bool" where
  "url_letter c \<longleftrightarrow>
     (let n = (of_char c :: nat) in 97 \<le> n \<and> n \<le> 122 \<or> 65 \<le> n \<and> n \<le> 90 \<or> is_digit c) \<or> c \<in> set ''-_.~''"

definition path_safe :: "char \<Rightarrow> bool" where
  "path_safe c \<longleftrightarrow> url_letter c \<or> c \<in> set ''$&+=:@''"

definition hex_char :: "nat \<Rightarrow> char" where
  "hex_char n = (if n < 10 then char_of (48 + n) else char_of (55 + n))"

definition percent :: "char \<Rightarrow> string" where
  "percent c = [CHR 0x25, hex_char (of_char c div 16), hex_char (of_char c mod 16)]"

definition path_escape :: "string \<Rightarrow> string" where
  "path_escape s = concat (map (\<lambda>c. if path_safe c then [c] else percent c) s)"

definition query_escape :: "string \<Rightarrow> string" where
  "query_escape s = concat (map (\<lambda>c. if url_letter c then [c] else if c = CHR '' '' then ''+'' else percent c) s)"

section \<open>Base64\<close>

definition base64_char :: "bool \<Rightarrow> nat \<Rightarrow> char" where
  "base64_char url n =
     (if n < 26 then char_of (65 + n)
      else if n < 52 then char_of (71 + n)
      else if n < 62 then char_of (n - 4)
      else if n = 62 then (if url then CHR ''-'' else CHR ''+'')
      else (if url then CHR ''_'' else CHR ''/''))"

definition byte :: "char \<Rightarrow> nat" where
  "byte c = of_char c"

fun base64_encode :: "bool \<Rightarrow> bool \<Rightarrow> string \<Rightarrow> string" where
  "base64_encode url pad (a # b # c # s) =
     map (base64_char url) [byte a div 4, byte a mod 4 * 16 + byte b div 16, byte b mod 16 * 4 + byte c div 64, byte c mod 64] @
     base64_encode url pad s"
| "base64_encode url pad [a, b] =
     map (base64_char url) [byte a div 4, byte a mod 4 * 16 + byte b div 16, byte b mod 16 * 4] @ (if pad then ''='' else [])"
| "base64_encode url pad [a] =
     map (base64_char url) [byte a div 4, byte a mod 4 * 16] @ (if pad then ''=='' else [])"
| "base64_encode url pad [] = []"

section \<open>Replacing\<close>

text \<open>\<^verbatim>\<open>bytes.ReplaceAll\<close> for a non-empty text: the leftmost occurrences that do not overlap.\<close>

function replace_all :: "string \<Rightarrow> string \<Rightarrow> string \<Rightarrow> string" where
  "replace_all old new s =
     (if old \<noteq> [] \<and> prefix old s then new @ replace_all old new (drop (length old) s)
      else (case s of [] \<Rightarrow> [] | c # cs \<Rightarrow> c # replace_all old new cs))"
  by pat_completeness auto
termination
  by (relation "measure (\<lambda>(old, new, s). length s)") (auto simp: prefix_def)

declare replace_all.simps [simp del]

lemma replace_all_Nil [simp]: "replace_all old new [] = []"
  by (subst replace_all.simps) auto

lemma replace_all_code [code]:
  "replace_all old new s =
     (case s of [] \<Rightarrow> []
      | c # cs \<Rightarrow> if old \<noteq> [] \<and> prefix old s then new @ replace_all old new (drop (length old - 1) cs)
                   else c # replace_all old new cs)"
  by (subst replace_all.simps) (cases s; cases old; simp)

lemma replace_all_hit:
  "old \<noteq> [] \<Longrightarrow> prefix old s \<Longrightarrow> replace_all old new s = new @ replace_all old new (drop (length old) s)"
  by (subst replace_all.simps) auto

lemma replace_all_miss: "\<not> prefix old (c # cs) \<Longrightarrow> replace_all old new (c # cs) = c # replace_all old new cs"
  by (subst replace_all.simps) auto

text \<open>A text without the bytes of the replacement cannot reach into a replacement.\<close>

lemma sublist_skip:
  "sublist v (m @ t) \<Longrightarrow> v \<noteq> [] \<Longrightarrow> set v \<inter> set m = {} \<Longrightarrow> sublist v t"
proof (induction m)
  case (Cons a m)
  have "\<not> prefix v (a # m @ t)" using Cons.prems(2,3) by (cases v) auto
  then have "sublist v (m @ t)" using Cons.prems(1) by (simp add: sublist_Cons_right)
  then show ?case using Cons.IH Cons.prems(2,3) by auto
qed simp

lemma replace_all_induct [case_names Nil hit miss]:
  assumes "P []"
    and "\<And>s. prefix old s \<Longrightarrow> P (drop (length old) s) \<Longrightarrow> P s"
    and "\<And>c s. \<not> prefix old (c # s) \<Longrightarrow> P s \<Longrightarrow> P (c # s)"
    and "old \<noteq> []"
  shows "P s"
proof (induction "length s" arbitrary: s rule: less_induct)
  case less
  show ?case
  proof (cases "prefix old s")
    case True
    then have "length (drop (length old) s) < length s" using assms(4) by (auto simp: prefix_def)
    then show ?thesis using less assms(2) [OF True] by blast
  next
    case False
    then show ?thesis using less assms(1,3) by (cases s) auto
  qed
qed

lemma prefix_replace_all:
  assumes "old \<noteq> []" "new \<noteq> []"
  shows "prefix v (replace_all old new s) \<Longrightarrow> set v \<inter> set new = {} \<Longrightarrow> prefix v s"
proof (induction s arbitrary: v rule: replace_all_induct [of _ old])
  case (hit s)
  then have "prefix v (new @ replace_all old new (drop (length old) s))"
    using assms by (simp add: replace_all_hit)
  then have "v = []" using hit.prems(2) assms(2) by (cases v; cases new) auto
  then show ?case by simp
next
  case (miss c s)
  then show ?case by (cases v) (auto simp: replace_all_miss)
qed (use assms in auto)

lemma sublist_replace_all:
  assumes "old \<noteq> []" "new \<noteq> []" "v \<noteq> []" "set v \<inter> set new = {}"
  shows "sublist v (replace_all old new s) \<Longrightarrow> sublist v s"
proof (induction s rule: replace_all_induct [of _ old])
  case (hit s)
  then have "sublist v (replace_all old new (drop (length old) s))"
    using assms sublist_skip [of v new] by (simp add: replace_all_hit)
  then show ?case using hit.IH sublist_drop sublist_order.order.trans by blast
next
  case (miss c s)
  then have "prefix v (replace_all old new (c # s)) \<or> sublist v (replace_all old new s)"
    by (simp add: replace_all_miss sublist_Cons_right)
  then show ?case using miss.IH prefix_replace_all [OF assms(1,2) _ assms(4)] by (auto simp: sublist_Cons_right)
qed (use assms in auto)

lemma replace_all_removes:
  assumes "old \<noteq> []" "new \<noteq> []" "set old \<inter> set new = {}"
  shows "\<not> sublist old (replace_all old new s)"
proof (induction s rule: replace_all_induct [of _ old])
  case (hit s)
  then show ?case using assms sublist_skip [of old new] by (auto simp: replace_all_hit)
next
  case (miss c s)
  then have "\<not> prefix old (replace_all old new (c # s))"
    using prefix_replace_all [OF assms(1,2) _ assms(3), of "c # s"] by blast
  then show ?case using miss by (simp add: replace_all_miss sublist_Cons_right)
qed (use assms in auto)

section \<open>Numbers\<close>

text \<open>\<^verbatim>\<open>strconv.ParseUint(s, 10, 64)\<close>.\<close>

definition parse_uint64 :: "string \<Rightarrow> nat option" where
  "parse_uint64 s = (if s = [] \<or> \<not> list_all is_digit s \<or> decimal_value s \<ge> 2 ^ 64 then None else Some (decimal_value s))"

end
