(* ===== verification/Agent_Upgrade.thy ===== *)
theory Agent_Upgrade
  imports Task_Model Go_Encoding
begin

text \<open>
  Agent upgrades (\<^verbatim>\<open>internal/agentupgrade\<close>): comparing stable versions, the plan
  repository with its optimistic revision lock, the service that operators call, and the coordinator
  that drains servers, sends install commands batch by batch, watches the agents' events and
  heartbeats, and rolls a failed batch back. Release and server rows are what other parts of the
  platform write; the command channel is a Go interface and an argument.
\<close>

section \<open>Versions\<close>

definition stableVersionParts :: "string \<Rightarrow> string list option" where
  "stableVersionParts version =
     (if length version = 0 \<or> length version > 64 then None
      else
        (let v = (if hd version = CHR ''v'' then tl version else version);
             segments = split_on CHR ''.'' v
         in if length segments \<noteq> 3 then None
            else if list_ex (\<lambda>s. length s = 0 \<or> (length s > 1 \<and> hd s = CHR ''0'') \<or> \<not> list_all is_digit s) segments
            then None
            else Some segments))"

definition str_compare :: "string \<Rightarrow> string \<Rightarrow> int" where
  "str_compare a b = (if a < b then -1 else if a = b then 0 else 1)"

fun compare_parts :: "string list \<Rightarrow> string list \<Rightarrow> int" where
  "compare_parts (l # ls) (r # rs) =
     (if length l < length r then -1
      else if length l > length r then 1
      else if str_compare l r \<noteq> 0 then str_compare l r
      else compare_parts ls rs)"
| "compare_parts _ _ = 0"

definition compareStableVersions :: "string \<Rightarrow> string \<Rightarrow> int option" where
  "compareStableVersions left right =
     (case (stableVersionParts left, stableVersionParts right) of
        (Some l, Some r) \<Rightarrow> Some (compare_parts l r)
      | _ \<Rightarrow> None)"

section \<open>Plans and targets\<close>

datatype plan_status = PlanPending | PlanRunning | PlanPaused | PlanSucceeded | PlanCancelled

datatype target_status = TargetWaiting | TargetDraining | TargetDownloading | TargetVerifying
  | TargetInstalling | TargetReconnecting | TargetHealthChecking | TargetSucceeded
  | TargetRollingBack | TargetRolledBack | TargetManualIntervention | TargetCancelled

datatype upgrade_error = ErrUpgradeStore | ErrInvalidPlan | ErrActivePlanExists | ErrServerIneligible
  | ErrUpgradeUnsupported | ErrArtifactUnavailable | ErrNoUpgradeNeeded | ErrVersionNotComparable
  | ErrDowngradeNotAllowed | ErrRollbackSourceChanged | ErrUpgradeSourceChanged | ErrReleaseNotFound
  | ErrPlanNotFound | ErrTargetNotFound | ErrInvalidTransition | ErrSend

text \<open>The fixed texts of the source, and text from outside.\<close>

datatype upgrade_text = UText string | UDrainTimeout | URollbackTimeout | URollbackUnconfirmed
  | URollbackFailed | UBatchFailed | UVersionMismatch | USourceChanged | UCancelling

record upgrade_target =
  ut_id :: ident
  ut_plan :: ident
  ut_server :: ident
  ut_batch :: int
  ut_source :: string
  ut_target :: string
  ut_source_draining :: bool
  ut_status :: target_status
  ut_attempts :: int
  ut_command :: ident
  ut_install_command :: ident
  ut_error_code :: string
  ut_error :: upgrade_text
  ut_started :: "time option"
  ut_updated :: time
  ut_finished :: "time option"

record plan_row =
  up_id :: ident
  up_release :: ident
  up_status :: plan_status
  up_first_batch :: int
  up_batch_size :: int
  up_drain_timeout :: int
  up_reconnect_timeout :: int
  up_verification :: int
  up_current :: int
  up_revision :: int
  up_cancel :: bool
  up_creator :: ident
  up_reason :: upgrade_text
  up_created :: time
  up_started :: "time option"
  up_finished :: "time option"

text \<open>A plan as it is read: the row, the version of its release and its targets.\<close>

record upgrade_plan = plan_row +
  up_version :: string
  up_targets :: "upgrade_target list"

record upgrade_event_row =
  ue_plan :: ident
  ue_target :: ident
  ue_server :: ident
  ue_command :: ident
  ue_stage :: string
  ue_error_code :: string
  ue_message :: upgrade_text
  ue_occurred :: time

record artifact_info =
  ai_os :: string
  ai_arch :: string
  ai_file :: string
  ai_sha :: string
  ai_url :: string
  ai_size :: int

record release_info =
  ri_id :: ident
  ri_version :: string
  ri_status :: string
  ri_capabilities :: "string list"
  ri_artifacts :: "artifact_info list"

text \<open>The columns of a server that upgrades read, with the running tasks of its newest snapshot.\<close>

record node_row =
  no_id :: ident
  no_status :: server_status
  no_enabled :: bool
  no_draining :: bool
  no_version :: string
  no_os :: string
  no_arch :: string
  no_capabilities :: "string list"
  no_last_seen :: "time option"
  no_running :: "int option"

text \<open>\<open>u_base\<close> is the public base address the repository is configured with.\<close>

record upgrade_db =
  u_base :: string
  u_releases :: "release_info list"
  u_nodes :: "node_row list"
  u_plans :: "plan_row list"
  u_targets :: "upgrade_target list"
  u_events :: "upgrade_event_row list"

section \<open>The repository\<close>

definition active_plan_status :: "plan_status \<Rightarrow> bool" where
  "active_plan_status s \<longleftrightarrow> s = PlanPending \<or> s = PlanRunning \<or> s = PlanPaused"

definition target_less :: "upgrade_target \<Rightarrow> upgrade_target \<Rightarrow> bool" where
  "target_less a b =
     (if ut_batch a \<noteq> ut_batch b then ut_batch a < ut_batch b
      else if ut_updated a \<noteq> ut_updated b then ut_updated a < ut_updated b
      else ut_id a < ut_id b)"

definition targets_of :: "upgrade_db \<Rightarrow> ident \<Rightarrow> upgrade_target list" where
  "targets_of d pid = slice_stable target_less
     (filter (\<lambda>t. ut_plan t = pid \<and> row_by no_id (ut_server t) (u_nodes d) \<noteq> None) (u_targets d))"

definition read_plan :: "upgrade_db \<Rightarrow> plan_row \<Rightarrow> upgrade_plan option" where
  "read_plan d p = map_option (\<lambda>r. plan_row.extend p (upgrade_plan.fields (ri_version r) (targets_of d (up_id p))))
     (row_by ri_id (up_release p) (u_releases d))"

text \<open>Reads fail by \<open>flt\<close>: 0 the plan, 1 its targets and events. The events a plan carries for display are left out.\<close>

definition planByQuery :: "faults \<Rightarrow> upgrade_db \<Rightarrow> plan_row list \<Rightarrow> upgrade_error + upgrade_plan" where
  "planByQuery flt d rows = stmt flt 0 ErrUpgradeStore
     (case List.map_filter (read_plan d) rows of
        [] \<Rightarrow> Inl ErrPlanNotFound
      | p # _ \<Rightarrow> stmt flt 1 ErrUpgradeStore (Inr p))"

definition ActivePlan :: "faults \<Rightarrow> upgrade_db \<Rightarrow> upgrade_error + upgrade_plan option" where
  "ActivePlan flt d =
     (case planByQuery flt d (slice_stable (\<lambda>a b. up_created a > up_created b)
             (filter (\<lambda>p. active_plan_status (up_status p)) (u_plans d))) of
        Inl e \<Rightarrow> if e = ErrPlanNotFound then Inr None else Inl e
      | Inr p \<Rightarrow> Inr (Some p))"

definition read_Plan :: "faults \<Rightarrow> ident \<Rightarrow> upgrade_db \<Rightarrow> upgrade_error + upgrade_plan" where
  "read_Plan flt pid d = planByQuery flt d (filter (\<lambda>p. up_id p = pid) (u_plans d))"

definition ListPlans :: "faults \<Rightarrow> upgrade_db \<Rightarrow> upgrade_error + upgrade_plan list" where
  "ListPlans flt d = stmt flt 0 ErrUpgradeStore (stmt flt 1 ErrUpgradeStore
     (Inr (List.map_filter (read_plan d)
        (slice_stable (\<lambda>a b. if up_created a \<noteq> up_created b then up_created a > up_created b
                            else up_id a > up_id b) (u_plans d)))))"

definition download_url :: "string \<Rightarrow> string \<Rightarrow> artifact_info \<Rightarrow> string" where
  "download_url base version a = base @ ''/api/releases/agent/'' @ path_escape version @ ''/'' @
     path_escape (ai_sha a) @ ''/'' @ path_escape (ai_file a)"

definition release_of :: "upgrade_db \<Rightarrow> release_info \<Rightarrow> release_info" where
  "release_of d r = r\<lparr>ri_artifacts :=
     map (\<lambda>a. a\<lparr>ai_url := download_url (u_base d) (ri_version r) a\<rparr>)
       (slice_stable (\<lambda>a b. ai_arch a < ai_arch b) (ri_artifacts r))\<rparr>"

definition read_Release :: "faults \<Rightarrow> ident \<Rightarrow> upgrade_db \<Rightarrow> upgrade_error + release_info" where
  "read_Release flt rid d = stmt flt 0 ErrUpgradeStore
     (case row_by ri_id rid (u_releases d) of
        None \<Rightarrow> Inl ErrReleaseNotFound
      | Some r \<Rightarrow> stmt flt 1 ErrUpgradeStore (Inr (release_of d r)))"

definition ReleaseByVersion :: "faults \<Rightarrow> string \<Rightarrow> upgrade_db \<Rightarrow> upgrade_error + release_info" where
  "ReleaseByVersion flt v d = stmt flt 0 ErrUpgradeStore
     (case row_by ri_version v (u_releases d) of
        None \<Rightarrow> Inl ErrReleaseNotFound
      | Some r \<Rightarrow> stmt flt 1 ErrUpgradeStore (Inr (release_of d r)))"

definition ServerRuntime :: "faults \<Rightarrow> ident \<Rightarrow> upgrade_db \<Rightarrow> upgrade_error + node_row" where
  "ServerRuntime flt sid d = stmt flt 0 ErrUpgradeStore
     (case row_by no_id sid (u_nodes d) of None \<Rightarrow> Inl ErrServerIneligible | Some n \<Rightarrow> Inr n)"

definition running_tasks :: "node_row \<Rightarrow> int" where
  "running_tasks n = (case no_running n of None \<Rightarrow> 0 | Some k \<Rightarrow> k)"

fun read_servers :: "faults \<Rightarrow> nat \<Rightarrow> ident list \<Rightarrow> upgrade_db \<Rightarrow> upgrade_error + node_row list" where
  "read_servers flt k [] d = Inr []"
| "read_servers flt k (i # is) d = stmt flt k ErrUpgradeStore
     (case row_by no_id i (u_nodes d) of
        None \<Rightarrow> Inl ErrServerIneligible
      | Some n \<Rightarrow> (case read_servers flt (k + 1) is d of Inl e \<Rightarrow> Inl e | Inr ns \<Rightarrow> Inr (n # ns)))"

definition set_draining :: "bool \<Rightarrow> node_row \<Rightarrow> node_row" where
  "set_draining dr n = n\<lparr>no_draining := dr,
     no_status := (if dr \<and> no_status n = StatusOnline then StatusDraining
                   else if \<not> dr \<and> no_status n = StatusDraining then StatusOnline
                   else no_status n)\<rparr>"

definition SetServerDraining :: "faults \<Rightarrow> ident \<Rightarrow> bool \<Rightarrow> upgrade_db \<Rightarrow> (upgrade_error + unit) \<times> upgrade_db" where
  "SetServerDraining flt sid dr d =
     (if flt 0 then (Inl ErrUpgradeStore, d)
      else if row_by no_id sid (u_nodes d) = None then (Inl ErrServerIneligible, d)
      else (Inr (), d\<lparr>u_nodes := update_where (\<lambda>n. no_id n = sid) (set_draining dr) (u_nodes d)\<rparr>))"

definition event_key :: "upgrade_event_row \<Rightarrow> ident \<times> ident \<times> string" where
  "event_key e = (ue_target e, ue_command e, ue_stage e)"

definition AppendEvent :: "faults \<Rightarrow> upgrade_event_row \<Rightarrow> upgrade_db \<Rightarrow> (upgrade_error + unit) \<times> upgrade_db" where
  "AppendEvent flt e d =
     (if flt 0 then (Inl ErrUpgradeStore, d)
      else if row_by event_key (event_key e) (u_events d) \<noteq> None then (Inr (), d)
      else (Inr (), d\<lparr>u_events := u_events d @ [e]\<rparr>))"

text \<open>
  \<^verbatim>\<open>CreatePlan\<close>. Statements: 0 begin, 1 insert the plan, 2 insert the targets, 3 commit, 4 and 5
  read it back. The indexes refuse a second active plan, a second target on a server, and
  identifiers that are taken; the foreign keys refuse a missing release or server.
\<close>

definition active_elsewhere :: "ident \<Rightarrow> upgrade_db \<Rightarrow> bool" where
  "active_elsewhere pid d = list_ex (\<lambda>p. up_id p \<noteq> pid \<and> active_plan_status (up_status p)) (u_plans d)"

fun insert_targets :: "upgrade_target list \<Rightarrow> upgrade_db \<Rightarrow> upgrade_error + upgrade_db" where
  "insert_targets [] d = Inr d"
| "insert_targets (t # ts) d =
     (if row_by ut_id (ut_id t) (u_targets d) \<noteq> None \<or> row_by no_id (ut_server t) (u_nodes d) = None \<or>
         list_ex (\<lambda>q. ut_plan q = ut_plan t \<and> ut_server q = ut_server t) (u_targets d)
      then Inl ErrUpgradeStore
      else insert_targets ts (d\<lparr>u_targets := u_targets d @ [t]\<rparr>))"

definition insert_plan :: "faults \<Rightarrow> upgrade_plan \<Rightarrow> upgrade_db \<Rightarrow> upgrade_error + (unit \<times> upgrade_db)" where
  "insert_plan flt p d = stmt flt 0 ErrUpgradeStore (stmt flt 1 ErrUpgradeStore
     (if active_plan_status (up_status p) \<and> active_elsewhere (up_id p) d then Inl ErrActivePlanExists
      else if row_by up_id (up_id p) (u_plans d) \<noteq> None \<or> row_by ri_id (up_release p) (u_releases d) = None
      then Inl ErrUpgradeStore
      else stmt flt 2 ErrUpgradeStore
        (case insert_targets (map (\<lambda>t. t\<lparr>ut_plan := up_id p\<rparr>) (up_targets p))
                (d\<lparr>u_plans := u_plans d @ [(plan_row.truncate p)\<lparr>up_revision := 0, up_cancel := False\<rparr>]\<rparr>) of
           Inl e \<Rightarrow> Inl e
         | Inr d1 \<Rightarrow> stmt flt 3 ErrUpgradeStore (Inr ((), d1)))))"

definition CreatePlan :: "faults \<Rightarrow> upgrade_plan \<Rightarrow> upgrade_db \<Rightarrow> (upgrade_error + upgrade_plan) \<times> upgrade_db" where
  "CreatePlan flt p d =
     (case tx d (insert_plan flt p d) of
        (Inl e, d1) \<Rightarrow> (Inl e, d1)
      | (Inr _, d1) \<Rightarrow> (read_Plan (\<lambda>k. flt (k + 4)) (up_id p) d1, d1))"

text \<open>
  \<^verbatim>\<open>SavePlan\<close>. Statements: 0 begin, 1 update the plan if its revision is the one read, 2 commit,
  3 and 4 read it back; target \<open>i\<close> uses \<open>5 + 3 * i\<close> onwards: lock, update, event.
\<close>

fun status_name :: "target_status \<Rightarrow> string" where
  "status_name TargetWaiting = ''waiting''"
| "status_name TargetDraining = ''draining''"
| "status_name TargetDownloading = ''downloading''"
| "status_name TargetVerifying = ''verifying''"
| "status_name TargetInstalling = ''installing''"
| "status_name TargetReconnecting = ''reconnecting''"
| "status_name TargetHealthChecking = ''health_checking''"
| "status_name TargetSucceeded = ''succeeded''"
| "status_name TargetRollingBack = ''rolling_back''"
| "status_name TargetRolledBack = ''rolled_back''"
| "status_name TargetManualIntervention = ''manual_intervention''"
| "status_name TargetCancelled = ''cancelled''"

definition status_event :: "ident \<Rightarrow> upgrade_target \<Rightarrow> upgrade_event_row" where
  "status_event pid t = \<lparr>ue_plan = pid, ue_target = ut_id t, ue_server = ut_server t, ue_command = ut_command t,
     ue_stage = status_name (ut_status t), ue_error_code = ut_error_code t, ue_message = ut_error t,
     ue_occurred = ut_updated t\<rparr>"

definition saved_target :: "upgrade_target \<Rightarrow> upgrade_target \<Rightarrow> upgrade_target" where
  "saved_target t r = r\<lparr>ut_status := ut_status t, ut_attempts := ut_attempts t, ut_command := ut_command t,
     ut_install_command := ut_install_command t, ut_error_code := ut_error_code t, ut_error := ut_error t,
     ut_started := ut_started t, ut_updated := ut_updated t, ut_finished := ut_finished t\<rparr>"

definition save_target :: "faults \<Rightarrow> nat \<Rightarrow> ident \<Rightarrow> upgrade_target \<Rightarrow> upgrade_db \<Rightarrow> upgrade_error + upgrade_db" where
  "save_target flt k pid t d = stmt flt k ErrUpgradeStore
     (case find (\<lambda>r. ut_id r = ut_id t \<and> ut_plan r = pid) (u_targets d) of
        None \<Rightarrow> Inl ErrTargetNotFound
      | Some old \<Rightarrow> stmt flt (k + 1) ErrUpgradeStore
          (let d1 = d\<lparr>u_targets := update_where (\<lambda>r. ut_id r = ut_id t \<and> ut_plan r = pid) (saved_target t) (u_targets d)\<rparr>
           in if ut_status old = ut_status t then Inr d1
              else stmt flt (k + 2) ErrUpgradeStore
                (if row_by event_key (event_key (status_event pid t)) (u_events d1) \<noteq> None then Inl ErrUpgradeStore
                 else Inr (d1\<lparr>u_events := u_events d1 @ [status_event pid t]\<rparr>))))"

fun save_targets :: "faults \<Rightarrow> nat \<Rightarrow> ident \<Rightarrow> upgrade_target list \<Rightarrow> upgrade_db \<Rightarrow> upgrade_error + upgrade_db" where
  "save_targets flt k pid [] d = Inr d"
| "save_targets flt k pid (t # ts) d =
     (case save_target flt k pid t d of Inl e \<Rightarrow> Inl e | Inr d1 \<Rightarrow> save_targets flt (k + 3) pid ts d1)"

definition saved_plan :: "upgrade_plan \<Rightarrow> plan_row \<Rightarrow> plan_row" where
  "saved_plan p r = r\<lparr>up_status := up_status p, up_current := up_current p, up_reason := up_reason p,
     up_started := up_started p, up_finished := up_finished p, up_cancel := up_cancel p,
     up_revision := up_revision r + 1\<rparr>"

definition save_plan :: "faults \<Rightarrow> upgrade_plan \<Rightarrow> upgrade_db \<Rightarrow> upgrade_error + (unit \<times> upgrade_db)" where
  "save_plan flt p d = stmt flt 0 ErrUpgradeStore (stmt flt 1 ErrUpgradeStore
     (case row_by up_id (up_id p) (u_plans d) of
        None \<Rightarrow> Inl ErrPlanNotFound
      | Some r \<Rightarrow>
          if up_revision r \<noteq> up_revision p then Inl ErrInvalidTransition
          else if active_plan_status (up_status p) \<and> active_elsewhere (up_id p) d then Inl ErrActivePlanExists
          else (case save_targets flt 5 (up_id p) (up_targets p)
                       (d\<lparr>u_plans := update_where (\<lambda>r. up_id r = up_id p) (saved_plan p) (u_plans d)\<rparr>) of
                  Inl e \<Rightarrow> Inl e
                | Inr d1 \<Rightarrow> stmt flt 2 ErrUpgradeStore (Inr ((), d1)))))"

definition SavePlan :: "faults \<Rightarrow> upgrade_plan \<Rightarrow> upgrade_db \<Rightarrow> (upgrade_error + upgrade_plan) \<times> upgrade_db" where
  "SavePlan flt p d =
     (case tx d (save_plan flt p d) of
        (Inl e, d1) \<Rightarrow> (Inl e, d1)
      | (Inr _, d1) \<Rightarrow> (read_Plan (\<lambda>k. flt (k + 3)) (up_id p) d1, d1))"

section \<open>The service\<close>

text \<open>
  What the outside world does to one call: the clock, the fresh identifiers in the order they are
  drawn, the failing statements of each store call, and what other calls do to the database between
  the reading of the plan and its saving.
\<close>

record upgrade_env =
  ux_now :: time
  ux_id :: "nat \<Rightarrow> ident"
  ux_flt :: "nat \<Rightarrow> faults"
  ux_meanwhile :: "upgrade_db \<Rightarrow> upgrade_db"

record plan_input =
  pi_release :: ident
  pi_servers :: "ident list"
  pi_batch_size :: int
  pi_drain_timeout :: int
  pi_reconnect_timeout :: int
  pi_verification :: int
  pi_creator :: ident

definition selfUpgradeCapability :: string where
  "selfUpgradeCapability = ''self_upgrade_v1''"

definition applyPlanDefaults :: "plan_input \<Rightarrow> plan_input" where
  "applyPlanDefaults i = i\<lparr>
     pi_batch_size := (if pi_batch_size i = 0 then 1 else pi_batch_size i),
     pi_drain_timeout := (if pi_drain_timeout i = 0 then 3600 else pi_drain_timeout i),
     pi_reconnect_timeout := (if pi_reconnect_timeout i = 0 then 120 else pi_reconnect_timeout i),
     pi_verification := (if pi_verification i = 0 then 30 else pi_verification i)\<rparr>"

definition validatePlanInput :: "plan_input \<Rightarrow> bool" where
  "validatePlanInput i \<longleftrightarrow>
     \<not> (blank (pi_release i) \<or> blank (pi_creator i) \<or> length (pi_servers i) = 0 \<or>
        pi_batch_size i < 1 \<or> pi_batch_size i > 100 \<or> pi_drain_timeout i < 60 \<or> pi_drain_timeout i > 86400 \<or>
        pi_reconnect_timeout i < 30 \<or> pi_reconnect_timeout i > 3600 \<or>
        pi_verification i < 10 \<or> pi_verification i > 600) \<and>
     list_all (\<lambda>s. \<not> blank s) (pi_servers i) \<and> distinct (pi_servers i)"

definition hasArtifact :: "release_info \<Rightarrow> string \<Rightarrow> string \<Rightarrow> bool" where
  "hasArtifact r os arch = list_ex (\<lambda>a. ai_os a = os \<and> ai_arch a = arch) (ri_artifacts r)"

definition terminalTargetStatus :: "target_status \<Rightarrow> bool" where
  "terminalTargetStatus s \<longleftrightarrow> s = TargetSucceeded \<or> s = TargetRolledBack \<or> s = TargetManualIntervention \<or> s = TargetCancelled"

definition server_usable :: "node_row \<Rightarrow> bool" where
  "server_usable n \<longleftrightarrow> no_enabled n \<and> (no_status n = StatusOnline \<or> no_status n = StatusDraining)"

definition check_version :: "release_info \<Rightarrow> upgrade_target option \<Rightarrow> node_row \<Rightarrow> upgrade_error option" where
  "check_version r rollback n =
     (case rollback of
        Some src \<Rightarrow>
          if no_id n \<noteq> ut_server src \<or> no_version n \<noteq> ut_target src then Some ErrRollbackSourceChanged
          else if no_version n = ri_version r then Some ErrNoUpgradeNeeded
          else None
      | None \<Rightarrow>
          (case compareStableVersions (no_version n) (ri_version r) of
             None \<Rightarrow> Some ErrVersionNotComparable
           | Some c \<Rightarrow> if c = 0 then Some ErrNoUpgradeNeeded
                        else if c > 0 then Some ErrDowngradeNotAllowed else None))"

definition check_server :: "release_info \<Rightarrow> upgrade_target option \<Rightarrow> node_row \<Rightarrow> upgrade_error option" where
  "check_server r rollback n =
     (if \<not> server_usable n then Some ErrServerIneligible
      else if selfUpgradeCapability \<notin> set (no_capabilities n) then Some ErrUpgradeUnsupported
      else (case check_version r rollback n of
              Some e \<Rightarrow> Some e
            | None \<Rightarrow> if \<not> hasArtifact r (no_os n) (no_arch n) then Some ErrArtifactUnavailable else None))"

definition batch_of :: "int \<Rightarrow> nat \<Rightarrow> int" where
  "batch_of batchSize i = (if i > 0 then 2 + (int i - 1) div batchSize else 1)"

definition new_target :: "upgrade_env \<Rightarrow> release_info \<Rightarrow> int \<Rightarrow> nat \<Rightarrow> node_row \<Rightarrow> upgrade_target" where
  "new_target x r batchSize i n =
     \<lparr>ut_id = ux_id x (2 + 2 * i), ut_plan = ux_id x 0, ut_server = no_id n, ut_batch = batch_of batchSize i,
      ut_source = no_version n, ut_target = ri_version r, ut_source_draining = no_draining n,
      ut_status = TargetWaiting, ut_attempts = 0, ut_command = ux_id x (1 + 2 * i),
      ut_install_command = ux_id x (1 + 2 * i), ut_error_code = [], ut_error = UText [],
      ut_started = None, ut_updated = ux_now x, ut_finished = None\<rparr>"

fun plan_targets :: "upgrade_env \<Rightarrow> release_info \<Rightarrow> upgrade_target option \<Rightarrow> int \<Rightarrow> nat \<Rightarrow> node_row list \<Rightarrow>
    upgrade_error + upgrade_target list" where
  "plan_targets x r rollback batchSize i [] = Inr []"
| "plan_targets x r rollback batchSize i (n # ns) =
     (case check_server r rollback n of
        Some e \<Rightarrow> Inl e
      | None \<Rightarrow> (case plan_targets x r rollback batchSize (i + 1) ns of
                  Inl e \<Rightarrow> Inl e
                | Inr ts \<Rightarrow> Inr (new_target x r batchSize i n # ts)))"

definition new_plan :: "upgrade_env \<Rightarrow> release_info \<Rightarrow> plan_input \<Rightarrow> upgrade_target list \<Rightarrow> upgrade_plan" where
  "new_plan x r i ts =
     \<lparr>up_id = ux_id x 0, up_release = ri_id r, up_status = PlanRunning, up_first_batch = 1,
      up_batch_size = pi_batch_size i, up_drain_timeout = pi_drain_timeout i,
      up_reconnect_timeout = pi_reconnect_timeout i, up_verification = pi_verification i, up_current = 1,
      up_revision = 0, up_cancel = False, up_creator = pi_creator i, up_reason = UText [],
      up_created = ux_now x, up_started = Some (ux_now x), up_finished = None,
      up_version = ri_version r, up_targets = ts\<rparr>"

definition createPlan :: "upgrade_env \<Rightarrow> plan_input \<Rightarrow> upgrade_target option \<Rightarrow> upgrade_db \<Rightarrow>
    (upgrade_error + upgrade_plan) \<times> upgrade_db" where
  "createPlan x i0 rollback d =
     (let i = applyPlanDefaults i0 in
      if \<not> validatePlanInput i then (Inl ErrInvalidPlan, d)
      else if (case rollback of None \<Rightarrow> False
               | Some src \<Rightarrow> ut_status src \<noteq> TargetSucceeded \<or> pi_servers i \<noteq> [ut_server src])
      then (Inl ErrInvalidTransition, d)
      else (case ActivePlan (ux_flt x 0) d of
        Inl e \<Rightarrow> (Inl e, d)
      | Inr (Some _) \<Rightarrow> (Inl ErrActivePlanExists, d)
      | Inr None \<Rightarrow>
        (case read_Release (ux_flt x 1) (pi_release i) d of
           Inl e \<Rightarrow> (Inl e, d)
         | Inr r \<Rightarrow>
             if ri_status r \<noteq> ''available'' \<or> selfUpgradeCapability \<notin> set (ri_capabilities r)
             then (Inl ErrUpgradeUnsupported, d)
             else if (case rollback of None \<Rightarrow> False | Some src \<Rightarrow> ri_version r \<noteq> ut_source src)
             then (Inl ErrInvalidTransition, d)
             else (case read_servers (ux_flt x 2) 0 (pi_servers i) d of
                     Inl e \<Rightarrow> (Inl e, d)
                   | Inr ns \<Rightarrow>
                       if length ns \<noteq> length (pi_servers i) then (Inl ErrServerIneligible, d)
                       else (case plan_targets x r rollback (pi_batch_size i) 0 ns of
                               Inl e \<Rightarrow> (Inl e, d)
                             | Inr ts \<Rightarrow> CreatePlan (ux_flt x 3) (new_plan x r i ts) (ux_meanwhile x d))))))"

definition create_upgrade :: "upgrade_env \<Rightarrow> plan_input \<Rightarrow> upgrade_db \<Rightarrow> (upgrade_error + upgrade_plan) \<times> upgrade_db" where
  "create_upgrade x i d = createPlan x i None d"

definition Pause :: "upgrade_env \<Rightarrow> ident \<Rightarrow> string \<Rightarrow> upgrade_db \<Rightarrow> (upgrade_error + upgrade_plan) \<times> upgrade_db" where
  "Pause x pid reason d =
     (case read_Plan (ux_flt x 0) pid d of
        Inl e \<Rightarrow> (Inl e, d)
      | Inr p \<Rightarrow>
          if up_status p = PlanPaused then (Inr p, d)
          else if up_status p \<noteq> PlanPending \<and> up_status p \<noteq> PlanRunning then (Inl ErrInvalidTransition, d)
          else SavePlan (ux_flt x 1)
                 (p\<lparr>up_status := PlanPaused, up_reason := UText (trim_space reason)\<rparr>) (ux_meanwhile x d))"

definition resumable :: "release_info \<Rightarrow> node_row list \<Rightarrow> upgrade_target \<Rightarrow> upgrade_error option" where
  "resumable r ns t =
     (if ut_status t \<noteq> TargetWaiting \<and> ut_status t \<noteq> TargetDraining then None
      else (case row_by no_id (ut_server t) (rev ns) of
              None \<Rightarrow> Some ErrServerIneligible
            | Some n \<Rightarrow>
                if \<not> server_usable n then Some ErrServerIneligible
                else if selfUpgradeCapability \<notin> set (no_capabilities n) then Some ErrUpgradeUnsupported
                else if no_version n \<noteq> ut_source t then Some ErrUpgradeSourceChanged
                else if \<not> hasArtifact r (no_os n) (no_arch n) then Some ErrArtifactUnavailable
                else None))"

definition first_error :: "('a \<Rightarrow> 'e option) \<Rightarrow> 'a list \<Rightarrow> 'e option" where
  "first_error f xs = (case List.map_filter f xs of [] \<Rightarrow> None | e # _ \<Rightarrow> Some e)"

definition Resume :: "upgrade_env \<Rightarrow> ident \<Rightarrow> upgrade_db \<Rightarrow> (upgrade_error + upgrade_plan) \<times> upgrade_db" where
  "Resume x pid d =
     (case read_Plan (ux_flt x 0) pid d of
        Inl e \<Rightarrow> (Inl e, d)
      | Inr p \<Rightarrow>
          if up_status p = PlanRunning \<or> up_status p = PlanPending then (Inr p, d)
          else if up_status p \<noteq> PlanPaused then (Inl ErrInvalidTransition, d)
          else if up_cancel p then (Inl ErrInvalidTransition, d)
          else (case read_Release (ux_flt x 1) (up_release p) d of
                  Inl e \<Rightarrow> (Inl e, d)
                | Inr r \<Rightarrow>
                    if ri_status r \<noteq> ''available'' \<or> selfUpgradeCapability \<notin> set (ri_capabilities r)
                    then (Inl ErrUpgradeUnsupported, d)
                    else (case read_servers (ux_flt x 2) 0
                             (map ut_server (filter (\<lambda>t. ut_status t = TargetWaiting \<or> ut_status t = TargetDraining) (up_targets p))) d of
                            Inl e \<Rightarrow> (Inl e, d)
                          | Inr ns \<Rightarrow>
                              (case first_error (resumable r ns) (up_targets p) of
                                 Some e \<Rightarrow> (Inl e, d)
                               | None \<Rightarrow> SavePlan (ux_flt x 3)
                                   (p\<lparr>up_status := PlanRunning, up_reason := UText []\<rparr>) (ux_meanwhile x d)))))"

definition cancel_target :: "time \<Rightarrow> upgrade_target \<Rightarrow> upgrade_target" where
  "cancel_target now t = (if ut_status t = TargetWaiting
     then t\<lparr>ut_status := TargetCancelled, ut_updated := now, ut_finished := Some now\<rparr> else t)"

definition Cancel :: "upgrade_env \<Rightarrow> ident \<Rightarrow> upgrade_db \<Rightarrow> (upgrade_error + upgrade_plan) \<times> upgrade_db" where
  "Cancel x pid d =
     (case read_Plan (ux_flt x 0) pid d of
        Inl e \<Rightarrow> (Inl e, d)
      | Inr p \<Rightarrow>
          if up_status p = PlanCancelled \<or> up_cancel p then (Inr p, d)
          else if \<not> active_plan_status (up_status p) then (Inl ErrInvalidTransition, d)
          else
            (let now = ux_now x;
                 started = list_ex (\<lambda>t. ut_status t \<noteq> TargetWaiting \<and> \<not> terminalTargetStatus (ut_status t)) (up_targets p);
                 p1 = p\<lparr>up_targets := map (cancel_target now) (up_targets p)\<rparr>
             in SavePlan (ux_flt x 1)
                  (if started then p1\<lparr>up_status := PlanPaused, up_cancel := True, up_reason := UCancelling\<rparr>
                   else p1\<lparr>up_status := PlanCancelled, up_cancel := True, up_finished := Some now\<rparr>)
                  (ux_meanwhile x d)))"

definition in_progress :: "target_status \<Rightarrow> bool" where
  "in_progress s \<longleftrightarrow> s = TargetDraining \<or> s = TargetDownloading \<or> s = TargetVerifying \<or> s = TargetInstalling \<or>
     s = TargetReconnecting \<or> s = TargetHealthChecking"

definition retry_target :: "upgrade_env \<Rightarrow> upgrade_target \<Rightarrow> upgrade_target" where
  "retry_target x t = t\<lparr>ut_status := TargetDraining, ut_command := ux_id x 0, ut_install_command := ux_id x 0,
     ut_attempts := ut_attempts t + 1, ut_error_code := [], ut_error := UText [], ut_finished := None,
     ut_updated := ux_now x\<rparr>"

text \<open>The loop stops at the first target with the identifier.\<close>

definition RetryTarget :: "upgrade_env \<Rightarrow> ident \<Rightarrow> ident \<Rightarrow> upgrade_db \<Rightarrow> (upgrade_error + upgrade_plan) \<times> upgrade_db" where
  "RetryTarget x pid tid d =
     (case read_Plan (ux_flt x 0) pid d of
        Inl e \<Rightarrow> (Inl e, d)
      | Inr p \<Rightarrow>
          if up_cancel p then (Inl ErrInvalidTransition, d)
          else (case takeWhile (\<lambda>t. ut_id t \<noteq> tid) (up_targets p) of before \<Rightarrow>
            (case drop (length before) (up_targets p) of
               [] \<Rightarrow> (Inl ErrTargetNotFound, d)
             | t # after \<Rightarrow>
                 if in_progress (ut_status t) then (Inr p, d)
                 else if ut_status t \<noteq> TargetRolledBack \<and> ut_status t \<noteq> TargetManualIntervention
                 then (Inl ErrInvalidTransition, d)
                 else (case read_servers (ux_flt x 1) 0 [ut_server t] d of
                         Inl e \<Rightarrow> (Inl e, d)
                       | Inr ns \<Rightarrow>
                           if length ns \<noteq> 1 \<or> no_id (hd ns) \<noteq> ut_server t then (Inl ErrServerIneligible, d)
                           else if no_version (hd ns) \<noteq> ut_source t then (Inl ErrUpgradeSourceChanged, d)
                           else SavePlan (ux_flt x 2)
                                  (p\<lparr>up_targets := before @ retry_target x t # after,
                                     up_status := PlanRunning, up_reason := UText []\<rparr>) (ux_meanwhile x d)))))"

definition CreateRollbackPlan :: "upgrade_env \<Rightarrow> ident \<Rightarrow> ident \<Rightarrow> ident \<Rightarrow> upgrade_db \<Rightarrow>
    (upgrade_error + upgrade_plan) \<times> upgrade_db" where
  "CreateRollbackPlan x pid tid actor d =
     (case read_Plan (ux_flt x 4) pid d of
        Inl e \<Rightarrow> (Inl e, d)
      | Inr p \<Rightarrow>
          (case row_by ut_id tid (up_targets p) of
             None \<Rightarrow> (Inl ErrTargetNotFound, d)
           | Some src \<Rightarrow>
               if ut_status src = TargetRollingBack \<or> ut_status src = TargetRolledBack then (Inr p, d)
               else if ut_status src \<noteq> TargetSucceeded then (Inl ErrInvalidTransition, d)
               else (case ReleaseByVersion (ux_flt x 5) (ut_source src) d of
                       Inl e \<Rightarrow> (Inl e, d)
                     | Inr r \<Rightarrow>
                         (case ActivePlan (ux_flt x 6) d of
                            Inl e \<Rightarrow> (Inl e, d)
                          | Inr (Some _) \<Rightarrow> (Inl ErrActivePlanExists, d)
                          | Inr None \<Rightarrow>
                              if up_status p = PlanSucceeded \<or> up_status p = PlanCancelled
                              then createPlan x
                                     \<lparr>pi_release = ri_id r, pi_servers = [ut_server src], pi_batch_size = 1,
                                      pi_drain_timeout = up_drain_timeout p,
                                      pi_reconnect_timeout = up_reconnect_timeout p,
                                      pi_verification = up_verification p, pi_creator = actor\<rparr> (Some src) d
                              else (Inl ErrInvalidTransition, d)))))"

section \<open>The coordinator\<close>

datatype upgrade_action = UpgradeInstall | UpgradeRollback

datatype upgrade_stage = StageAccepted | StageDownloading | StageVerifying | StageInstalling
  | StageReconnecting | StageSucceeded | StageRollingBack | StageRolledBack | StageFailed
  | StageOther string

record upgrade_command =
  uc_command :: ident
  uc_plan :: ident
  uc_target :: ident
  uc_action :: upgrade_action
  uc_source_version :: string
  uc_target_version :: string
  uc_install_command :: ident
  uc_url :: string
  uc_file :: string
  uc_size :: int
  uc_sha :: string
  uc_reconnect :: duration

record upgrade_event =
  ev_command :: ident
  ev_target :: ident
  ev_stage :: upgrade_stage
  ev_at :: time
  ev_code :: string
  ev_text :: string

type_synonym sent_commands = "(ident \<times> upgrade_command) list"

text \<open>Target \<open>i\<close> of a scan makes store calls \<open>cx_flt i j\<close> (0 drain, 1 runtime, 2 release) and draws
  fresh identifiers \<open>cx_id i j\<close> for target \<open>j\<close>; store calls outside the loop fail by \<open>cx_outer\<close>.
  \<open>cx_send\<close> says which commands the channel takes.\<close>

record coord_env =
  cx_now :: time
  cx_id :: "nat \<Rightarrow> nat \<Rightarrow> ident"
  cx_flt :: "nat \<Rightarrow> nat \<Rightarrow> faults"
  cx_outer :: "nat \<Rightarrow> faults"
  cx_meanwhile :: "upgrade_db \<Rightarrow> upgrade_db"
  cx_send :: "ident \<Rightarrow> upgrade_command \<Rightarrow> bool"

definition installCommand :: "upgrade_plan \<Rightarrow> upgrade_target \<Rightarrow> artifact_info \<Rightarrow> upgrade_command" where
  "installCommand p t a = \<lparr>uc_command = ut_command t, uc_plan = up_id p, uc_target = ut_id t,
     uc_action = UpgradeInstall, uc_source_version = ut_source t, uc_target_version = ut_target t,
     uc_install_command = [], uc_url = ai_url a, uc_file = ai_file a, uc_size = ai_size a, uc_sha = ai_sha a,
     uc_reconnect = up_reconnect_timeout p * second\<rparr>"

definition rollbackCommand :: "upgrade_plan \<Rightarrow> upgrade_target \<Rightarrow> upgrade_command" where
  "rollbackCommand p t = \<lparr>uc_command = ut_command t, uc_plan = up_id p, uc_target = ut_id t,
     uc_action = UpgradeRollback, uc_source_version = ut_target t, uc_target_version = ut_source t,
     uc_install_command = ut_install_command t, uc_url = [], uc_file = [], uc_size = 0, uc_sha = [],
     uc_reconnect = up_reconnect_timeout p * second\<rparr>"

definition matchingArtifact :: "artifact_info list \<Rightarrow> string \<Rightarrow> string \<Rightarrow> artifact_info option" where
  "matchingArtifact items os arch =
     find (\<lambda>a. (os = [] \<or> ai_os a = os) \<and> (arch = [] \<or> ai_arch a = arch)) items"

definition markSourceVersionChanged :: "time \<Rightarrow> nat \<Rightarrow> upgrade_plan \<Rightarrow> upgrade_plan" where
  "markSourceVersionChanged now i p = p\<lparr>up_status := PlanPaused, up_reason := USourceChanged,
     up_targets := (up_targets p)[i := (up_targets p ! i)\<lparr>ut_status := TargetManualIntervention,
        ut_error_code := ''source_version_changed'', ut_error := USourceChanged, ut_updated := now,
        ut_finished := Some now\<rparr>]\<rparr>"

definition rollback_skips :: "int \<Rightarrow> upgrade_target \<Rightarrow> bool" where
  "rollback_skips batch t \<longleftrightarrow> ut_batch t \<noteq> batch \<or> ut_status t = TargetCancelled \<or> ut_status t = TargetRollingBack \<or>
     ut_status t = TargetRolledBack \<or> ut_status t = TargetManualIntervention"

definition uninstalled :: "ident \<Rightarrow> string \<Rightarrow> upgrade_target \<Rightarrow> bool" where
  "uninstalled failed code t \<longleftrightarrow> ut_status t = TargetWaiting \<or> ut_status t = TargetDraining \<or>
     (ut_id t = failed \<and> (ut_status t = TargetDownloading \<or> ut_status t = TargetVerifying \<or>
        code = ''apply_start_failed'' \<or> code = ''apply_rolled_back'' \<or> code = ''stage_failed''))"

definition rollback_target :: "int \<Rightarrow> ident \<Rightarrow> string \<Rightarrow> time \<Rightarrow> ident \<Rightarrow> upgrade_target \<Rightarrow> upgrade_target" where
  "rollback_target batch failed code now fresh t =
     (if rollback_skips batch t then t
      else if uninstalled failed code t
      then t\<lparr>ut_status := TargetRolledBack, ut_updated := now, ut_finished := Some now\<rparr>
      else t\<lparr>ut_status := TargetRollingBack, ut_command := fresh, ut_updated := now, ut_finished := None\<rparr>)"

definition rollbackBatch :: "(nat \<Rightarrow> ident) \<Rightarrow> int \<Rightarrow> ident \<Rightarrow> string \<Rightarrow> time \<Rightarrow> upgrade_plan \<Rightarrow>
    upgrade_plan \<times> sent_commands" where
  "rollbackBatch ids batch failed code now p0 =
     (let p = p0\<lparr>up_status := PlanPaused, up_reason := UBatchFailed\<rparr>;
          ts = map (\<lambda>(j, t). (t, rollback_target batch failed code now (ids j) t)) (enumerate 0 (up_targets p))
      in (p\<lparr>up_targets := map snd ts\<rparr>,
          map (\<lambda>(t, t'). (ut_server t', rollbackCommand p t'))
            (filter (\<lambda>(t, t'). \<not> rollback_skips batch t \<and> \<not> uninstalled failed code t) ts)))"

definition node_available :: "node_row \<Rightarrow> string \<Rightarrow> time \<Rightarrow> bool" where
  "node_available n version now \<longleftrightarrow> no_enabled n \<and> (no_status n = StatusOnline \<or> no_status n = StatusDraining) \<and>
     no_version n = version \<and> no_running n \<noteq> None \<and>
     (case no_last_seen n of None \<Rightarrow> False | Some t \<Rightarrow> now - t \<le> 15 * second)"

definition withoutBatchCommands :: "sent_commands \<Rightarrow> upgrade_plan \<Rightarrow> int \<Rightarrow> sent_commands" where
  "withoutBatchCommands cs p batch =
     filter (\<lambda>(s, c). \<not> list_ex (\<lambda>t. ut_batch t = batch \<and> uc_target c = ut_id t) (up_targets p)) cs"

fun rank :: "target_status \<Rightarrow> nat option" where
  "rank TargetWaiting = Some 0"
| "rank TargetDraining = Some 1"
| "rank TargetDownloading = Some 2"
| "rank TargetVerifying = Some 3"
| "rank TargetInstalling = Some 4"
| "rank TargetReconnecting = Some 5"
| "rank TargetHealthChecking = Some 6"
| "rank TargetSucceeded = Some 7"
| "rank _ = None"

definition forwardTransition :: "target_status \<Rightarrow> target_status \<Rightarrow> bool" where
  "forwardTransition current nxt =
     (if current = nxt then True
      else if current = TargetRollingBack \<and> nxt = TargetRolledBack then True
      else (case (rank current, rank nxt) of (Some a, Some b) \<Rightarrow> b > a | _ \<Rightarrow> False))"

fun targetStatusForStage :: "upgrade_stage \<Rightarrow> target_status option" where
  "targetStatusForStage StageAccepted = Some TargetDownloading"
| "targetStatusForStage StageDownloading = Some TargetDownloading"
| "targetStatusForStage StageVerifying = Some TargetVerifying"
| "targetStatusForStage StageInstalling = Some TargetInstalling"
| "targetStatusForStage StageReconnecting = Some TargetReconnecting"
| "targetStatusForStage StageSucceeded = Some TargetReconnecting"
| "targetStatusForStage StageRollingBack = Some TargetRollingBack"
| "targetStatusForStage StageRolledBack = Some TargetRolledBack"
| "targetStatusForStage _ = None"

fun stage_name :: "upgrade_stage \<Rightarrow> string" where
  "stage_name StageAccepted = ''accepted''"
| "stage_name StageDownloading = ''downloading''"
| "stage_name StageVerifying = ''verifying''"
| "stage_name StageInstalling = ''installing''"
| "stage_name StageReconnecting = ''reconnecting''"
| "stage_name StageSucceeded = ''succeeded''"
| "stage_name StageRollingBack = ''rolling_back''"
| "stage_name StageRolledBack = ''rolled_back''"
| "stage_name StageFailed = ''failed''"
| "stage_name (StageOther s) = s"

definition batchSucceeded :: "upgrade_plan \<Rightarrow> int \<Rightarrow> bool" where
  "batchSucceeded p b \<longleftrightarrow> list_ex (\<lambda>t. ut_batch t = b) (up_targets p) \<and>
     list_all (\<lambda>t. ut_batch t = b \<longrightarrow> ut_status t = TargetSucceeded) (up_targets p)"

definition hasBatch :: "upgrade_plan \<Rightarrow> int \<Rightarrow> bool" where
  "hasBatch p b = list_ex (\<lambda>t. ut_batch t = b) (up_targets p)"

definition allTargetsTerminal :: "upgrade_plan \<Rightarrow> bool" where
  "allTargetsTerminal p = list_all (\<lambda>t. terminalTargetStatus (ut_status t)) (up_targets p)"

subsection \<open>Scanning the active plan\<close>

record scan_state =
  co_plan :: upgrade_plan
  co_changed :: bool
  co_commands :: sent_commands
  co_may :: bool
  co_db :: upgrade_db

definition change_target :: "nat \<Rightarrow> (upgrade_target \<Rightarrow> upgrade_target) \<Rightarrow> scan_state \<Rightarrow> scan_state" where
  "change_target i f st = st\<lparr>co_changed := True, co_plan := (co_plan st)\<lparr>up_targets :=
     (up_targets (co_plan st))[i := f (up_targets (co_plan st) ! i)]\<rparr>\<rparr>"

definition roll_back :: "coord_env \<Rightarrow> nat \<Rightarrow> string \<Rightarrow> scan_state \<Rightarrow> scan_state" where
  "roll_back x i code st =
     (let p = co_plan st; t = up_targets p ! i;
          kept = withoutBatchCommands (co_commands st) p (ut_batch t);
          (p1, cs) = rollbackBatch (cx_id x i) (ut_batch t) (ut_id t) code (cx_now x) p
      in st\<lparr>co_plan := p1, co_changed := True, co_commands := kept @ cs\<rparr>)"

definition source_changed :: "coord_env \<Rightarrow> nat \<Rightarrow> scan_state \<Rightarrow> scan_state" where
  "source_changed x i st = st\<lparr>co_plan := markSourceVersionChanged (cx_now x) i (co_plan st),
     co_changed := True, co_may := False\<rparr>"

definition find_artifact :: "coord_env \<Rightarrow> nat \<Rightarrow> node_row \<Rightarrow> scan_state \<Rightarrow> upgrade_error + artifact_info" where
  "find_artifact x i n st =
     (case read_Release (cx_flt x i 2) (up_release (co_plan st)) (co_db st) of
        Inl e \<Rightarrow> Inl e
      | Inr r \<Rightarrow> (case matchingArtifact (ri_artifacts r) (no_os n) (no_arch n) of
                   None \<Rightarrow> Inl ErrArtifactUnavailable
                 | Some a \<Rightarrow> Inr a))"

definition scan_draining :: "coord_env \<Rightarrow> nat \<Rightarrow> scan_state \<Rightarrow> upgrade_error option \<times> scan_state" where
  "scan_draining x i st =
     (let p = co_plan st; t = up_targets p ! i in
      if \<not> co_may st \<and> \<not> up_cancel p then (None, st)
      else if (case ut_started t of None \<Rightarrow> False | Some s \<Rightarrow> cx_now x - s > up_drain_timeout p * second)
      then (None, st\<lparr>co_plan := p\<lparr>up_status := PlanPaused, up_reason := UDrainTimeout\<rparr>, co_changed := True\<rparr>)
      else (case SetServerDraining (cx_flt x i 0) (ut_server t) True (co_db st) of
        (Inl e, d) \<Rightarrow> (Some e, st\<lparr>co_db := d\<rparr>)
      | (Inr _, d) \<Rightarrow>
          (let st1 = st\<lparr>co_db := d\<rparr> in
           case ServerRuntime (cx_flt x i 1) (ut_server t) d of
             Inl e \<Rightarrow> (Some e, st1)
           | Inr n \<Rightarrow>
               if \<not> server_usable n \<or> running_tasks n > 0 then (None, st1)
               else if no_version n \<noteq> ut_source t then (None, source_changed x i st1)
               else (case find_artifact x i n st1 of
                       Inl e \<Rightarrow> (Some e, st1)
                     | Inr a \<Rightarrow>
                         (let st2 = change_target i (\<lambda>t. t\<lparr>ut_status := TargetDownloading,
                                      ut_attempts := ut_attempts t + 1, ut_updated := cx_now x\<rparr>) st1;
                              p2 = co_plan st2
                          in (None, st2\<lparr>co_commands := co_commands st2 @
                                [(ut_server t, installCommand p2 (up_targets p2 ! i) a)]\<rparr>))))))"

definition scan_installing :: "coord_env \<Rightarrow> nat \<Rightarrow> scan_state \<Rightarrow> upgrade_error option \<times> scan_state" where
  "scan_installing x i st =
     (let p = co_plan st; t = up_targets p ! i in
      case ServerRuntime (cx_flt x i 1) (ut_server t) (co_db st) of
        Inl e \<Rightarrow> (Some e, st)
      | Inr n \<Rightarrow>
          if no_version n \<noteq> ut_source t \<and> no_version n \<noteq> ut_target t then (None, source_changed x i st)
          else (case find_artifact x i n st of
                  Inl e \<Rightarrow> (Some e, st)
                | Inr a \<Rightarrow> (None, st\<lparr>co_commands := co_commands st @ [(ut_server t, installCommand p t a)]\<rparr>)))"

definition scan_checking :: "coord_env \<Rightarrow> nat \<Rightarrow> scan_state \<Rightarrow> upgrade_error option \<times> scan_state" where
  "scan_checking x i st =
     (let p = co_plan st; t = up_targets p ! i; now = cx_now x in
      case ServerRuntime (cx_flt x i 1) (ut_server t) (co_db st) of
        Inl e \<Rightarrow> (Some e, st)
      | Inr n \<Rightarrow>
          if \<not> node_available n (ut_target t) now then (None, roll_back x i ''health_check_failed'' st)
          else if now - ut_updated t \<ge> up_verification p * second
          then (if (case no_last_seen n of None \<Rightarrow> True | Some s \<Rightarrow> \<not> s > ut_updated t)
                then (None, roll_back x i ''health_check_failed'' st)
                else (case (if ut_source_draining t then (Inr (), co_db st)
                            else SetServerDraining (cx_flt x i 0) (ut_server t) False (co_db st)) of
                        (Inl e, d) \<Rightarrow> (Some e, st\<lparr>co_db := d\<rparr>)
                      | (Inr _, d) \<Rightarrow>
                          (None, change_target i (\<lambda>t. t\<lparr>ut_status := TargetSucceeded, ut_updated := now,
                             ut_finished := Some now\<rparr>) (st\<lparr>co_db := d\<rparr>))))
          else (None, st))"

definition scan_rolling_back :: "coord_env \<Rightarrow> nat \<Rightarrow> scan_state \<Rightarrow> upgrade_error option \<times> scan_state" where
  "scan_rolling_back x i st =
     (let p = co_plan st; t = up_targets p ! i; now = cx_now x in
      if now - ut_updated t \<ge> up_reconnect_timeout p * second
      then (None, (let st1 = change_target i (\<lambda>t. t\<lparr>ut_status := TargetManualIntervention,
                        ut_error_code := ''rollback_timeout'', ut_error := URollbackTimeout,
                        ut_updated := now, ut_finished := Some now\<rparr>) st
                   in st1\<lparr>co_plan := (co_plan st1)\<lparr>up_status := PlanPaused, up_reason := URollbackUnconfirmed\<rparr>\<rparr>))
      else (None, st\<lparr>co_commands := co_commands st @ [(ut_server t, rollbackCommand p t)]\<rparr>))"

definition scan_target :: "coord_env \<Rightarrow> nat \<Rightarrow> scan_state \<Rightarrow> upgrade_error option \<times> scan_state" where
  "scan_target x i st =
     (let p = co_plan st; t = up_targets p ! i in
      if ut_batch t \<noteq> up_current p then (None, st)
      else (case ut_status t of
        TargetWaiting \<Rightarrow>
          if \<not> co_may st then (None, st)
          else (None, change_target i (\<lambda>t. t\<lparr>ut_status := TargetDraining, ut_started := Some (cx_now x),
                  ut_updated := cx_now x\<rparr>) st)
      | TargetDraining \<Rightarrow> scan_draining x i st
      | TargetDownloading \<Rightarrow> scan_installing x i st
      | TargetVerifying \<Rightarrow> scan_installing x i st
      | TargetInstalling \<Rightarrow> scan_installing x i st
      | TargetReconnecting \<Rightarrow>
          if cx_now x - ut_updated t \<ge> up_reconnect_timeout p * second
          then (None, roll_back x i ''reconnect_timeout'' st) else (None, st)
      | TargetHealthChecking \<Rightarrow> scan_checking x i st
      | TargetRollingBack \<Rightarrow> scan_rolling_back x i st
      | _ \<Rightarrow> (None, st)))"

fun scan_targets :: "coord_env \<Rightarrow> nat list \<Rightarrow> scan_state \<Rightarrow> upgrade_error option \<times> scan_state" where
  "scan_targets x [] st = (None, st)"
| "scan_targets x (i # is) st =
     (case scan_target x i st of (Some e, st1) \<Rightarrow> (Some e, st1) | (None, st1) \<Rightarrow> scan_targets x is st1)"

definition finish_scan :: "time \<Rightarrow> scan_state \<Rightarrow> scan_state" where
  "finish_scan now st =
     (let p = co_plan st in
      if up_cancel p \<and> allTargetsTerminal p
      then st\<lparr>co_plan := p\<lparr>up_status := PlanCancelled, up_finished := Some now\<rparr>, co_changed := True\<rparr>
      else if co_may st \<and> batchSucceeded p (up_current p)
      then (if hasBatch p (up_current p + 1)
            then st\<lparr>co_plan := p\<lparr>up_current := up_current p + 1\<rparr>, co_changed := True\<rparr>
            else st\<lparr>co_plan := p\<lparr>up_status := PlanSucceeded, up_finished := Some now\<rparr>, co_changed := True\<rparr>)
      else st)"

text \<open>Commands go out one after the other until the channel refuses one.\<close>

fun send_all :: "(ident \<Rightarrow> upgrade_command \<Rightarrow> bool) \<Rightarrow> sent_commands \<Rightarrow> (upgrade_error + unit) \<times> sent_commands" where
  "send_all send [] = (Inr (), [])"
| "send_all send ((s, c) # cs) =
     (if send s c then (case send_all send cs of (res, out) \<Rightarrow> (res, (s, c) # out)) else (Inl ErrSend, []))"

definition start_scan :: "upgrade_plan \<Rightarrow> upgrade_db \<Rightarrow> scan_state" where
  "start_scan p d = \<lparr>co_plan = p, co_changed = False, co_commands = [],
     co_may = ((up_status p = PlanRunning \<or> up_status p = PlanPending) \<and> \<not> up_cancel p), co_db = d\<rparr>"

definition scan_plan :: "coord_env \<Rightarrow> upgrade_db \<Rightarrow> ((upgrade_error + unit) \<times> sent_commands) \<times> upgrade_db" where
  "scan_plan x d =
     (case ActivePlan (cx_outer x 0) d of
        Inl e \<Rightarrow> ((Inl e, []), d)
      | Inr None \<Rightarrow> ((Inr (), []), d)
      | Inr (Some p) \<Rightarrow>
          (case scan_targets x [0..<length (up_targets p)] (start_scan p d) of
             (Some e, st) \<Rightarrow> ((Inl e, []), co_db st)
           | (None, st) \<Rightarrow>
               (let st1 = finish_scan (cx_now x) st in
                if co_changed st1
                then (case SavePlan (cx_outer x 1) (co_plan st1) (cx_meanwhile x (co_db st1)) of
                        (Inl e, d1) \<Rightarrow> ((Inl e, []), d1)
                      | (Inr _, d1) \<Rightarrow> (send_all (cx_send x) (co_commands st1), d1))
                else (send_all (cx_send x) (co_commands st1), co_db st1))))"

subsection \<open>Events and heartbeats\<close>

text \<open>\<^verbatim>\<open>matchTarget\<close>: a failed read counts as no target.\<close>

definition matchTarget :: "faults \<Rightarrow> ident \<Rightarrow> ident \<Rightarrow> ident \<Rightarrow> upgrade_db \<Rightarrow> (upgrade_plan \<times> nat) option" where
  "matchTarget flt sid tid cid d =
     (case ActivePlan flt d of
        Inr (Some p) \<Rightarrow>
          map_option (\<lambda>i. (p, i)) (find (\<lambda>i. let t = up_targets p ! i in
             ut_id t = tid \<and> ut_server t = sid \<and> ut_command t = cid) [0..<length (up_targets p)])
      | _ \<Rightarrow> None)"

definition tolerateConcurrentUpdate :: "upgrade_error \<Rightarrow> upgrade_error + unit" where
  "tolerateConcurrentUpdate e = (if e = ErrInvalidTransition then Inr () else Inl e)"

definition agent_stage_event :: "coord_env \<Rightarrow> upgrade_plan \<Rightarrow> nat \<Rightarrow> ident \<Rightarrow> upgrade_event \<Rightarrow> upgrade_event_row" where
  "agent_stage_event x p i sid ev = \<lparr>ue_plan = up_id p, ue_target = ut_id (up_targets p ! i), ue_server = sid,
     ue_command = ev_command ev, ue_stage = stage_name (ev_stage ev), ue_error_code = ev_code ev,
     ue_message = UText (ev_text ev),
     ue_occurred = (if is_zero_time (ev_at ev) then cx_now x else ev_at ev)\<rparr>"

text \<open>Save the plan, tolerating a concurrent change, then store the event.\<close>

definition save_and_persist :: "coord_env \<Rightarrow> upgrade_event_row \<Rightarrow> upgrade_plan \<Rightarrow> upgrade_db \<Rightarrow>
    ((upgrade_error + unit) \<times> bool) \<times> upgrade_db" where
  "save_and_persist x row p d =
     (case SavePlan (cx_outer x 1) p (cx_meanwhile x d) of
        (Inl e, d1) \<Rightarrow> ((tolerateConcurrentUpdate e, False), d1)
      | (Inr _, d1) \<Rightarrow> (case AppendEvent (cx_outer x 2) row d1 of (res, d2) \<Rightarrow> ((res, res = Inr ()), d2)))"

definition set_target :: "nat \<Rightarrow> (upgrade_target \<Rightarrow> upgrade_target) \<Rightarrow> upgrade_plan \<Rightarrow> upgrade_plan" where
  "set_target i f p = p\<lparr>up_targets := (up_targets p)[i := f (up_targets p ! i)]\<rparr>"

definition failed_event :: "coord_env \<Rightarrow> upgrade_plan \<Rightarrow> nat \<Rightarrow> ident \<Rightarrow> upgrade_event \<Rightarrow> upgrade_db \<Rightarrow>
    ((upgrade_error + unit) \<times> sent_commands) \<times> upgrade_db" where
  "failed_event x p i sid ev d =
     (let t = up_targets p ! i; row = agent_stage_event x p i sid ev; now = cx_now x in
      if ev_code ev = ''rollback_failed'' \<or> ut_status t = TargetRollingBack
      then (let p1 = (set_target i (\<lambda>t. t\<lparr>ut_status := TargetManualIntervention, ut_error_code := ev_code ev,
                        ut_error := UText (ev_text ev), ut_updated := now\<rparr>) p)
                      \<lparr>up_status := PlanPaused, up_reason := URollbackFailed\<rparr>;
                d1 = snd (SetServerDraining (cx_outer x 3) sid True d)
            in case save_and_persist x row p1 d1 of ((res, _), d2) \<Rightarrow> ((res, []), d2))
      else (case rollbackBatch (cx_id x i) (ut_batch t) (ut_id t) (ev_code ev) now p of
              (p1, cs) \<Rightarrow>
                (case save_and_persist x row p1 d of
                   ((res, False), d2) \<Rightarrow> ((res, []), d2)
                 | ((res, True), d2) \<Rightarrow> (send_all (cx_send x) cs, d2))))"

definition ApplyUpgradeEvent :: "coord_env \<Rightarrow> ident \<Rightarrow> upgrade_event \<Rightarrow> upgrade_db \<Rightarrow>
    ((upgrade_error + unit) \<times> sent_commands) \<times> upgrade_db" where
  "ApplyUpgradeEvent x sid ev d =
     (case matchTarget (cx_outer x 0) sid (ev_target ev) (ev_command ev) d of
        None \<Rightarrow> ((Inr (), []), d)
      | Some (p, i) \<Rightarrow>
          (let t = up_targets p ! i; row = agent_stage_event x p i sid ev;
               persist = (case AppendEvent (cx_outer x 2) row d of (res, d1) \<Rightarrow> ((res, []), d1)) in
           if ev_stage ev = StageFailed then failed_event x p i sid ev d
           else if ut_status t = TargetRollingBack \<and> (ev_stage ev = StageReconnecting \<or> ev_stage ev = StageSucceeded)
           then persist
           else (case targetStatusForStage (ev_stage ev) of
                   None \<Rightarrow> ((Inl ErrInvalidTransition, []), d)
                 | Some status \<Rightarrow>
                     if ut_status t = status then persist
                     else if \<not> forwardTransition (ut_status t) status then ((Inr (), []), d)
                     else (let p1 = set_target i (\<lambda>t. t\<lparr>ut_status := status, ut_updated := cx_now x,
                                      ut_finished := (if status = TargetRolledBack then Some (cx_now x) else ut_finished t),
                                      ut_error_code := ev_code ev, ut_error := UText (ev_text ev)\<rparr>) p
                           in case save_and_persist x row p1 d of ((res, _), d2) \<Rightarrow> ((res, []), d2)))))"

record upgrade_heartbeat =
  uh_server :: ident
  uh_version :: string
  uh_upgrade :: "(ident \<times> ident) option"

text \<open>\<open>uh_upgrade\<close> holds the target and the command of the heartbeat's upgrade state.\<close>

definition ObserveHeartbeat :: "coord_env \<Rightarrow> upgrade_heartbeat \<Rightarrow> upgrade_db \<Rightarrow>
    ((upgrade_error + unit) \<times> sent_commands) \<times> upgrade_db" where
  "ObserveHeartbeat x h d =
     (case uh_upgrade h of
        None \<Rightarrow> ((Inr (), []), d)
      | Some (tid, cid) \<Rightarrow>
          (case matchTarget (cx_outer x 0) (uh_server h) tid cid d of
             None \<Rightarrow> ((Inr (), []), d)
           | Some (p, i) \<Rightarrow>
               (let t = up_targets p ! i; now = cx_now x;
                    save = (\<lambda>p1. SavePlan (cx_outer x 1) p1 (cx_meanwhile x d)) in
                if ut_status t = TargetRollingBack
                then if uh_version h \<noteq> ut_source t then ((Inr (), []), d)
                     else (case save (set_target i (\<lambda>t. t\<lparr>ut_status := TargetRolledBack, ut_updated := now,
                                        ut_finished := Some now\<rparr>) p) of
                             (res, d1) \<Rightarrow> ((map_sum id (\<lambda>_. ()) res, []), d1))
                else if ut_status t \<noteq> TargetReconnecting then ((Inr (), []), d)
                else if uh_version h \<noteq> ut_target t
                then (let p1 = (set_target i (\<lambda>t. t\<lparr>ut_status := TargetRollingBack, ut_command := cx_id x i i,
                                  ut_updated := now\<rparr>) p)\<lparr>up_status := PlanPaused, up_reason := UVersionMismatch\<rparr>
                      in case save p1 of
                           (Inl e, d1) \<Rightarrow> ((Inl e, []), d1)
                         | (Inr _, d1) \<Rightarrow> (send_all (cx_send x) [(ut_server t, rollbackCommand p1 (up_targets p1 ! i))], d1))
                else (case save (set_target i (\<lambda>t. t\<lparr>ut_status := TargetHealthChecking, ut_updated := now\<rparr>) p) of
                        (res, d1) \<Rightarrow> ((map_sum id (\<lambda>_. ()) res, []), d1)))))"

end
