(* ===== verification/Upgrade_Theorems.thy ===== *)
theory Upgrade_Theorems
  imports Agent_Upgrade
begin

text \<open>
  What agent upgrades guarantee: versions are ordered as numbers, a plan starts with one canary and
  only moves servers forward, concurrent changes of a plan never overwrite each other, install
  commands go only to idle servers of the current batch, and a failed batch is rolled back
  completely; and the situations in which a plan gets stuck.
\<close>

section \<open>Versions\<close>

definition canonical :: "string \<Rightarrow> bool" where
  "canonical s \<longleftrightarrow> s \<noteq> [] \<and> (length s > 1 \<longrightarrow> hd s \<noteq> CHR ''0'') \<and> list_all is_digit s"

lemma decimal_value_Cons: "decimal_value (c # s) = digit_value c * 10 ^ length s + decimal_value s"
proof (induction s rule: rev_induct)
  case Nil
  then show ?case by (simp add: decimal_value_def)
next
  case (snoc x s)
  have "decimal_value (c # s @ [x]) = 10 * decimal_value (c # s) + digit_value x"
    using decimal_value_snoc [of "c # s" x] by simp
  then show ?case using snoc by (simp add: decimal_value_snoc algebra_simps)
qed

lemma digit_order: "is_digit c \<Longrightarrow> is_digit d \<Longrightarrow> c < d \<longleftrightarrow> digit_value c < digit_value d"
  by (auto simp: is_digit_def digit_value_def less_char_def)

lemma digit_inject: "is_digit c \<Longrightarrow> is_digit d \<Longrightarrow> digit_value c = digit_value d \<longleftrightarrow> c = d"
  using digit_order [of c d] digit_order [of d c] by (metis less_irrefl linorder_neqE)

lemma decimal_order:
  assumes "list_all is_digit a" "list_all is_digit b" "length a = length b"
  shows "(a < b \<longleftrightarrow> decimal_value a < decimal_value b) \<and> (a = b \<longleftrightarrow> decimal_value a = decimal_value b)"
  using assms
proof (induction a arbitrary: b)
  case (Cons c a)
  then obtain d e where b: "b = d # e" "length a = length e" by (cases b) auto
  have dig: "is_digit c" "is_digit d" "list_all is_digit a" "list_all is_digit e" using Cons.prems b by auto
  have IH: "(a < e \<longleftrightarrow> decimal_value a < decimal_value e) \<and> (a = e \<longleftrightarrow> decimal_value a = decimal_value e)"
    using Cons.IH [of e] dig b by simp
  have bound: "decimal_value a < 10 ^ length a" "decimal_value e < 10 ^ length a"
    using decimal_value_bound [of a] decimal_value_bound [of e] dig b by auto
  have far: "digit_value x * 10 ^ n + u < digit_value y * 10 ^ n + v"
    if "digit_value x < digit_value y" "u < 10 ^ n" for x y n and u v :: nat
  proof -
    have "(digit_value x + 1) * 10 ^ n \<le> digit_value y * 10 ^ n" using that(1) by (intro mult_le_mono1) simp
    then show ?thesis using that(2) by (simp add: algebra_simps)
  qed
  show ?case
  proof (cases "digit_value c" "digit_value d" rule: linorder_cases)
    case less
    then have "c < d" using dig digit_order [of c d] by simp
    moreover have "decimal_value (c # a) < decimal_value b"
      using far [OF less bound(1)] b by (simp add: decimal_value_Cons)
    ultimately show ?thesis using b by auto
  next
    case equal
    then have "c = d" using digit_inject dig by blast
    then show ?thesis using IH b by (auto simp: decimal_value_Cons)
  next
    case greater
    then have "d < c" using dig digit_order [of d c] by simp
    moreover have "decimal_value b < decimal_value (c # a)"
      using far [OF greater bound(2)] b by (simp add: decimal_value_Cons)
    ultimately show ?thesis using b by auto
  qed
qed (simp add: decimal_value_def)

lemma decimal_shorter:
  assumes "canonical a" "canonical b" "length a < length b"
  shows "decimal_value a < decimal_value b"
proof -
  obtain c s where b: "b = c # s" "is_digit c" using assms(2) by (cases b) (auto simp: canonical_def)
  have "s \<noteq> []" using assms(1,3) b by (auto simp: canonical_def)
  then have "c \<noteq> CHR ''0''" using assms(2) b by (auto simp: canonical_def)
  then have "1 \<le> digit_value c" using b(2) digit_inject [of c "CHR ''0''"]
    by (auto simp: digit_value_def is_digit_def)
  then have "10 ^ length s \<le> decimal_value b" unfolding b decimal_value_Cons
    by (metis le_add1 le_trans mult_le_mono1 nat_mult_1)
  moreover have "decimal_value a < 10 ^ length a" using assms(1) decimal_value_bound by (simp add: canonical_def)
  moreover have "(10::nat) ^ length a \<le> 10 ^ length s" using assms(3) b by (intro power_increasing) auto
  ultimately show ?thesis by linarith
qed

lemma decimal_compare:
  assumes "canonical a" "canonical b"
  shows "(if length a < length b then -1 else if length a > length b then 1 else str_compare a b) =
    (if decimal_value a < decimal_value b then -1 else if decimal_value a = decimal_value b then 0 else (1::int))"
  using decimal_shorter [OF assms] decimal_shorter [OF assms(2,1)] decimal_order [of a b] assms
  by (auto simp: canonical_def str_compare_def)

lemma compare_parts_numbers:
  assumes "list_all canonical ls" "list_all canonical rs" "length ls = length rs"
  shows "compare_parts ls rs =
    (if map decimal_value ls < map decimal_value rs then -1
     else if map decimal_value ls = map decimal_value rs then 0 else 1)"
  using assms
proof (induction ls rs rule: compare_parts.induct)
  case (1 l ls r rs)
  then show ?case using decimal_compare [of l r] by (auto simp: str_compare_def split: if_splits)
qed auto

lemma stableVersionParts_canonical:
  "stableVersionParts v = Some ps \<Longrightarrow> length ps = 3 \<and> list_all canonical ps"
  by (auto simp: stableVersionParts_def Let_def canonical_def list_ex_iff list_all_iff split: if_splits)

definition version_number :: "string \<Rightarrow> nat list option" where
  "version_number v = map_option (map decimal_value) (stableVersionParts v)"

lemma version_order:
  "compareStableVersions a b =
     (case (version_number a, version_number b) of
        (Some m, Some n) \<Rightarrow> Some (if m < n then -1 else if m = n then 0 else 1)
      | _ \<Rightarrow> None)"
proof (cases "stableVersionParts a = None \<or> stableVersionParts b = None")
  case True
  then show ?thesis by (auto simp: compareStableVersions_def version_number_def split: option.splits)
next
  case False
  then obtain ps qs where parts: "stableVersionParts a = Some ps" "stableVersionParts b = Some qs" by auto
  then show ?thesis
    using compare_parts_numbers [of ps qs] stableVersionParts_canonical [OF parts(1)] stableVersionParts_canonical [OF parts(2)]
    by (simp add: compareStableVersions_def version_number_def)
qed

section \<open>Saving\<close>

lemma save_target_plans: "save_target flt k pid t d = Inr d' \<Longrightarrow> u_plans d' = u_plans d"
  by (auto simp: save_target_def Let_def split: option.splits if_splits)

lemma save_targets_plans: "save_targets flt k pid ts d = Inr d' \<Longrightarrow> u_plans d' = u_plans d"
  by (induction flt k pid ts d rule: save_targets.induct) (auto split: sum.splits dest: save_target_plans)

lemma SavePlan_db:
  assumes "SavePlan flt p d = (res, d')"
  shows "d' = d \<and> (\<exists>e. res = Inl e) \<or> save_plan flt p d = Inr ((), d')"
  using assms by (auto simp: SavePlan_def tx_def split: sum.splits)

lemma save_plan_revision:
  assumes "save_plan flt p d = Inr ((), d')"
  shows "\<exists>r. row_by up_id (up_id p) (u_plans d) = Some r \<and> up_revision r = up_revision p \<and>
    row_by up_id (up_id p) (u_plans d') = Some (saved_plan p r)"
proof (cases "row_by up_id (up_id p) (u_plans d)")
  case None
  then show ?thesis using assms by (simp add: save_plan_def)
next
  case (Some r)
  let ?d = "d\<lparr>u_plans := update_where (\<lambda>r. up_id r = up_id p) (saved_plan p) (u_plans d)\<rparr>"
  have "up_revision r = up_revision p" using assms Some by (auto simp: save_plan_def split: if_splits)
  moreover have "save_targets flt 5 (up_id p) (up_targets p) ?d = Inr d'"
    using assms Some by (auto simp: save_plan_def split: if_splits sum.splits)
  then have "u_plans d' = u_plans ?d" by (rule save_targets_plans)
  moreover have "up_id (saved_plan p q) = up_id q" for q by (simp add: saved_plan_def)
  ultimately show ?thesis
    using Some row_by_Some [OF Some] by (simp add: row_by_update_where)
qed

lemma save_plan_stale:
  assumes "row_by up_id (up_id p) (u_plans d) = Some r" "up_revision r \<noteq> up_revision p"
  shows "snd (SavePlan flt p d) = d" "fst (SavePlan no_faults p d) = Inl ErrInvalidTransition"
  using assms by (auto simp: SavePlan_def save_plan_def tx_def stmt_def no_faults_def)

section \<open>Creating a plan\<close>

lemma plan_targets_Inr:
  "plan_targets x r rollback bs i ns = Inr ts \<Longrightarrow>
   ts = map (\<lambda>(j, n). new_target x r bs j n) (enumerate i ns) \<and> (\<forall>n \<in> set ns. check_server r rollback n = None)"
  by (induction x r rollback bs i ns arbitrary: ts rule: plan_targets.induct) (auto split: option.splits sum.splits)

lemma insert_targets_Inr: "insert_targets ts d = Inr d' \<Longrightarrow> u_targets d' = u_targets d @ ts"
  by (induction ts d rule: insert_targets.induct) (auto split: if_splits)

lemma insert_plan_Inr:
  "insert_plan flt p d = Inr ((), d') \<Longrightarrow> u_targets d' = u_targets d @ map (\<lambda>t. t\<lparr>ut_plan := up_id p\<rparr>) (up_targets p)"
  by (auto simp: insert_plan_def split: if_splits sum.splits dest!: insert_targets_Inr)

lemma read_servers_Inr: "read_servers flt k is d = Inr ns \<Longrightarrow> \<forall>n \<in> set ns. n \<in> set (u_nodes d)"
  by (induction flt k "is" d arbitrary: ns rule: read_servers.induct)
    (auto split: option.splits sum.splits dest!: row_by_Some)

lemma checked_server:
  "check_server r None n = None \<Longrightarrow> server_usable n \<and>
   (\<exists>a b. version_number (no_version n) = Some a \<and> version_number (ri_version r) = Some b \<and> a < b)"
  by (auto simp: check_server_def check_version_def version_order split: if_splits option.splits)

lemma createPlan_Inr:
  assumes "createPlan x i0 rollback d = (Inr p, d')"
  obtains r ns where "validatePlanInput (applyPlanDefaults i0)" "\<forall>n \<in> set ns. n \<in> set (u_nodes d)"
    "\<forall>n \<in> set ns. check_server r rollback n = None" "length ns = length (pi_servers (applyPlanDefaults i0))"
    "u_targets d' = u_targets (ux_meanwhile x d) @
       map (\<lambda>(j, n). new_target x r (pi_batch_size (applyPlanDefaults i0)) j n) (enumerate 0 ns)"
proof -
  let ?i = "applyPlanDefaults i0"
  obtain r :: release_info and ns ts where steps: "validatePlanInput ?i" "read_servers (ux_flt x 2) 0 (pi_servers ?i) d = Inr ns"
    "length ns = length (pi_servers ?i)" "plan_targets x r rollback (pi_batch_size ?i) 0 ns = Inr ts"
    "CreatePlan (ux_flt x 3) (new_plan x r ?i ts) (ux_meanwhile x d) = (Inr p, d')"
    using assms
    by (auto simp: createPlan_def Let_def split: if_splits sum.splits option.splits
        simp del: read_servers.simps plan_targets.simps)
  have "insert_plan (ux_flt x 3) (new_plan x r ?i ts) (ux_meanwhile x d) = Inr ((), d')"
    using steps(5) by (auto simp: CreatePlan_def tx_def split: sum.splits)
  moreover have "map (\<lambda>t. t\<lparr>ut_plan := up_id (new_plan x r ?i ts)\<rparr>) ts = ts"
    using plan_targets_Inr [OF steps(4)] by (auto simp: new_plan_def new_target_def)
  ultimately have "u_targets d' = u_targets (ux_meanwhile x d) @ ts"
    using insert_plan_Inr by (fastforce simp: new_plan_def)
  then show ?thesis
    using that [of ns r] steps plan_targets_Inr [OF steps(4)] read_servers_Inr [OF steps(2)] by blast
qed

lemma batch_window:
  assumes "1 \<le> bs" "b \<noteq> 1"
  shows "int (length (filter (\<lambda>j. batch_of bs j = b) [0..<n])) \<le> bs"
proof -
  let ?lo = "nat (1 + (b - 2) * bs)"
  have "j \<in> {?lo..<?lo + nat bs}" if "batch_of bs j = b" for j
  proof -
    have j: "j > 0" "(int j - 1) div bs = b - 2" using that assms(2) by (auto simp: batch_of_def split: if_splits)
    have "int j - 1 = bs * (b - 2) + (int j - 1) mod bs" using j(2) by (metis mult_div_mod_eq)
    moreover have "0 \<le> (int j - 1) mod bs" "(int j - 1) mod bs < bs" using assms(1) by simp_all
    moreover have "0 \<le> (b - 2) * bs"
      using j assms(1) by (metis add_le_imp_le_left diff_ge_0_iff_ge int_one_le_iff_zero_less linorder_not_le mult_nonneg_nonneg of_nat_0_less_iff order_trans pos_imp_zdiv_neg_iff zero_le_one)
    ultimately show ?thesis by (auto simp: algebra_simps)
  qed
  then have "set (filter (\<lambda>j. batch_of bs j = b) [0..<n]) \<subseteq> {?lo..<?lo + nat bs}" by auto
  then have "card (set (filter (\<lambda>j. batch_of bs j = b) [0..<n])) \<le> nat bs"
    using card_mono [of "{?lo..<?lo + nat bs}"] by fastforce
  moreover have "card (set (filter (\<lambda>j. batch_of bs j = b) [0..<n])) = length (filter (\<lambda>j. batch_of bs j = b) [0..<n])"
    by (intro distinct_card) simp
  ultimately show ?thesis using assms(1) by simp
qed

lemma batch_of_one: "1 \<le> bs \<Longrightarrow> batch_of bs j = 1 \<longleftrightarrow> j = 0"
  using pos_imp_zdiv_nonneg_iff [of bs "int j - 1"] by (auto simp: batch_of_def)

lemma batches_of_enumerate:
  "length (filter (\<lambda>t. ut_batch t = b) (map (\<lambda>(j, n). new_target x r bs j n) (enumerate 0 ns))) =
   length (filter (\<lambda>j. batch_of bs j = b) [0..<length ns])"
proof -
  have "map ut_batch (map (\<lambda>(j, n). new_target x r bs j n) (enumerate 0 ns)) = map (batch_of bs) [0..<length ns]"
    by (rule nth_equalityI) (simp_all add: nth_enumerate_eq new_target_def)
  moreover have "length (filter (\<lambda>t. f t = b) ts) = length (filter ((=) b) (map f ts))" for f :: "'c \<Rightarrow> int" and ts
    by (induction ts) auto
  ultimately show ?thesis by metis
qed

section \<open>Scanning\<close>

definition same_target :: "upgrade_target \<Rightarrow> upgrade_target \<Rightarrow> bool" where
  "same_target t t' \<longleftrightarrow> ut_id t' = ut_id t \<and> ut_plan t' = ut_plan t \<and> ut_server t' = ut_server t \<and> ut_batch t' = ut_batch t \<and>
     ut_source t' = ut_source t \<and> ut_target t' = ut_target t"

definition node_like :: "node_row \<Rightarrow> node_row \<Rightarrow> bool" where
  "node_like m n \<longleftrightarrow> no_id n = no_id m \<and> no_version n = no_version m \<and> no_running n = no_running m \<and>
     no_os n = no_os m \<and> no_arch n = no_arch m \<and> (server_usable n \<longleftrightarrow> server_usable m)"

text \<open>The conditions under which an install command is sent.\<close>

definition ready_to_install :: "node_row \<Rightarrow> upgrade_target \<Rightarrow> bool" where
  "ready_to_install n t \<longleftrightarrow>
     ut_status t = TargetDraining \<and> server_usable n \<and> running_tasks n \<le> 0 \<and> no_version n = ut_source t \<or>
     ut_status t \<in> {TargetDownloading, TargetVerifying, TargetInstalling} \<and>
       (no_version n = ut_source t \<or> no_version n = ut_target t)"

definition guarded :: "upgrade_db \<Rightarrow> upgrade_plan \<Rightarrow> ident \<Rightarrow> upgrade_command \<Rightarrow> bool" where
  "guarded d p s c \<longleftrightarrow> (\<exists>t \<in> set (up_targets p). \<exists>n \<in> set (u_nodes d). \<exists>r \<in> set (u_releases d).
     ut_id t = uc_target c \<and> ut_server t = s \<and> ut_batch t = up_current p \<and> ut_command t = uc_command c \<and>
     ut_target t = uc_target_version c \<and> no_id n = s \<and> ready_to_install n t \<and> ri_id r = up_release p \<and>
     (\<exists>a \<in> set (ri_artifacts r). ai_sha a = uc_sha c \<and> ai_file a = uc_file c \<and> ai_size a = uc_size c \<and>
        (no_os n = [] \<or> ai_os a = no_os n) \<and> (no_arch n = [] \<or> ai_arch a = no_arch n)))"

definition plan_like :: "upgrade_plan \<Rightarrow> upgrade_plan \<Rightarrow> bool" where
  "plan_like p q \<longleftrightarrow> up_id q = up_id p \<and> up_current q = up_current p \<and> up_release q = up_release p \<and>
     length (up_targets q) = length (up_targets p) \<and>
     (\<forall>j < length (up_targets p). same_target (up_targets p ! j) (up_targets q ! j))"

definition untouched :: "nat \<Rightarrow> upgrade_plan \<Rightarrow> upgrade_plan \<Rightarrow> bool" where
  "untouched i p q \<longleftrightarrow> (\<forall>j. i \<le> j \<and> j < length (up_targets p) \<longrightarrow>
     up_targets q ! j = up_targets p ! j \<or> ut_status (up_targets q ! j) \<in> {TargetRollingBack, TargetRolledBack})"

definition db_like :: "upgrade_db \<Rightarrow> upgrade_db \<Rightarrow> bool" where
  "db_like d e \<longleftrightarrow> u_releases e = u_releases d \<and> (\<forall>n \<in> set (u_nodes e). \<exists>m \<in> set (u_nodes d). node_like m n)"

definition scan_inv :: "upgrade_db \<Rightarrow> upgrade_plan \<Rightarrow> nat \<Rightarrow> scan_state \<Rightarrow> bool" where
  "scan_inv d p i st \<longleftrightarrow> plan_like p (co_plan st) \<and> untouched i p (co_plan st) \<and> db_like d (co_db st) \<and>
     (\<forall>(s, c) \<in> set (co_commands st). uc_action c = UpgradeInstall \<longrightarrow> guarded d p s c)"

lemma same_target_trans: "same_target t u \<Longrightarrow> same_target u v \<Longrightarrow> same_target t v"
  by (simp add: same_target_def)

lemma scan_inv_start: "scan_inv d p 0 (start_scan p d)"
  by (auto simp: scan_inv_def start_scan_def plan_like_def same_target_def untouched_def db_like_def node_like_def)

lemma scan_inv_Suc: "scan_inv d p i st \<Longrightarrow> scan_inv d p (Suc i) st"
  by (auto simp: scan_inv_def untouched_def)

lemma db_like_drain: "SetServerDraining flt sid dr e = (res, e') \<Longrightarrow> db_like d e \<Longrightarrow> db_like d e'"
proof -
  assume a: "SetServerDraining flt sid dr e = (res, e')" "db_like d e"
  have "node_like n (set_draining dr n)" for n
    by (auto simp: node_like_def set_draining_def server_usable_def)
  then have tr: "node_like m (set_draining dr n)" if "node_like m n" for m n
    using that unfolding node_like_def by metis
  have "e' = e \<or> u_releases e' = u_releases e \<and>
      u_nodes e' = update_where (\<lambda>n. no_id n = sid) (set_draining dr) (u_nodes e)"
    using a(1) by (auto simp: SetServerDraining_def split: if_splits)
  moreover have "\<exists>m \<in> set (u_nodes d). node_like m (if no_id k = sid then set_draining dr k else k)"
    if k: "k \<in> set (u_nodes e)" for k
  proof -
    obtain m where "m \<in> set (u_nodes d)" "node_like m k" using a(2) k unfolding db_like_def by blast
    then show ?thesis using tr by (intro bexI [of _ m]) simp_all
  qed
  ultimately show ?thesis
    using a(2) by (elim disjE) (simp, simp only: db_like_def set_update_where, blast)
qed

lemma scan_inv_change:
  assumes "scan_inv d p i st" "i < length (up_targets p)" "\<And>t. same_target t (f t)"
  shows "scan_inv d p (Suc i) (change_target i f st)"
proof -
  have "same_target (up_targets p ! i) (up_targets (co_plan st) ! i)"
    using assms(1,2) by (simp add: scan_inv_def plan_like_def)
  then have "same_target (up_targets p ! i) (f (up_targets (co_plan st) ! i))"
    using assms(3) by (rule same_target_trans)
  then have "plan_like p (co_plan (change_target i f st))"
    using assms(1,2) by (auto simp: scan_inv_def change_target_def plan_like_def nth_list_update)
  moreover have "untouched (Suc i) p (co_plan (change_target i f st))"
    using assms(1) by (auto simp: scan_inv_def change_target_def untouched_def)
  ultimately show ?thesis using assms(1) by (simp add: scan_inv_def change_target_def)
qed

lemma rollback_target_same: "same_target t (rollback_target b failed code now fresh t)"
  by (simp add: rollback_target_def same_target_def)

lemma rollbackBatch_nth:
  assumes "rollbackBatch ids b failed code now p = (q, cs)"
  shows "length (up_targets q) = length (up_targets p)" "up_id q = up_id p" "up_current q = up_current p"
    "up_release q = up_release p"
    "j < length (up_targets p) \<Longrightarrow> up_targets q ! j = rollback_target b failed code now (ids j) (up_targets p ! j)"
    "\<forall>(s, c) \<in> set cs. uc_action c = UpgradeRollback"
  using assms by (auto simp: rollbackBatch_def Let_def nth_enumerate_eq rollbackCommand_def)

lemma scan_inv_roll_back:
  assumes "scan_inv d p i st"
  shows "scan_inv d p i (roll_back x i code st)"
proof -
  let ?t = "up_targets (co_plan st) ! i"
  obtain q cs where r: "rollbackBatch (cx_id x i) (ut_batch ?t) (ut_id ?t) code (cx_now x) (co_plan st) = (q, cs)"
    by fastforce
  note n = rollbackBatch_nth [OF r]
  have pl: "plan_like p (co_plan st)" "untouched i p (co_plan st)" using assms by (auto simp: scan_inv_def)
  have "plan_like p q"
    using pl(1) n(1-5) same_target_trans [OF _ rollback_target_same] by (simp add: plan_like_def)
  moreover have "untouched i p q"
    unfolding untouched_def
  proof (intro allI impI)
    fix j
    assume j: "i \<le> j \<and> j < length (up_targets p)"
    then have "up_targets q ! j = rollback_target (ut_batch ?t) (ut_id ?t) code (cx_now x) (cx_id x i j) (up_targets (co_plan st) ! j)"
      using n(5) pl(1) by (simp add: plan_like_def)
    moreover have "up_targets (co_plan st) ! j = up_targets p ! j \<or>
        ut_status (up_targets (co_plan st) ! j) \<in> {TargetRollingBack, TargetRolledBack}"
      using pl(2) j by (simp add: untouched_def)
    ultimately show "up_targets q ! j = up_targets p ! j \<or> ut_status (up_targets q ! j) \<in> {TargetRollingBack, TargetRolledBack}"
      by (elim disjE) (auto simp: rollback_target_def rollback_skips_def)
  qed
  moreover have "\<forall>(s, c) \<in> set (withoutBatchCommands (co_commands st) (co_plan st) (ut_batch ?t) @ cs).
      uc_action c = UpgradeInstall \<longrightarrow> guarded d p s c"
    using assms n(6) by (auto simp: scan_inv_def withoutBatchCommands_def)
  ultimately show ?thesis using assms r by (simp add: scan_inv_def roll_back_def Let_def)
qed

lemma markSourceVersionChanged_change:
  "scan_inv d p (Suc i) (source_changed x i st) \<longleftrightarrow>
   scan_inv d p (Suc i) (change_target i (\<lambda>t. t\<lparr>ut_status := TargetManualIntervention,
        ut_error_code := ''source_version_changed'', ut_error := USourceChanged, ut_updated := cx_now x,
        ut_finished := Some (cx_now x)\<rparr>) st)"
  by (simp add: scan_inv_def source_changed_def change_target_def markSourceVersionChanged_def plan_like_def untouched_def)

lemma scan_inv_source_changed:
  assumes "scan_inv d p i st" "i < length (up_targets p)"
  shows "scan_inv d p (Suc i) (source_changed x i st)"
  unfolding markSourceVersionChanged_change by (rule scan_inv_change [OF assms]) (simp add: same_target_def)

lemma find_artifact_Inr:
  assumes "find_artifact x i n st = Inr a"
  shows "\<exists>r \<in> set (u_releases (co_db st)). ri_id r = up_release (co_plan st) \<and>
    (\<exists>b \<in> set (ri_artifacts r). ai_sha b = ai_sha a \<and> ai_file b = ai_file a \<and> ai_size b = ai_size a \<and>
       (no_os n = [] \<or> ai_os b = no_os n) \<and> (no_arch n = [] \<or> ai_arch b = no_arch n))"
proof -
  obtain rel where rel: "row_by ri_id (up_release (co_plan st)) (u_releases (co_db st)) = Some rel"
    "matchingArtifact (ri_artifacts (release_of (co_db st) rel)) (no_os n) (no_arch n) = Some a"
    using assms by (auto simp: find_artifact_def read_Release_def split: sum.splits option.splits)
  have "a \<in> set (ri_artifacts (release_of (co_db st) rel)) \<and>
      (no_os n = [] \<or> ai_os a = no_os n) \<and> (no_arch n = [] \<or> ai_arch a = no_arch n)"
    using rel(2) by (auto simp: matchingArtifact_def find_Some_iff)
  then obtain b where "b \<in> set (ri_artifacts rel)" "a = b\<lparr>ai_url := download_url (u_base (co_db st)) (ri_version rel) b\<rparr>"
    "no_os n = [] \<or> ai_os a = no_os n" "no_arch n = [] \<or> ai_arch a = no_arch n"
    by (auto simp: release_of_def)
  then show ?thesis using row_by_Some [OF rel(1)] by (intro bexI [of _ rel] conjI bexI [of _ b]) auto
qed

lemma install_guarded:
  assumes inv: "scan_inv d p i st" and i: "i < length (up_targets p)" and batch: "ut_batch (up_targets p ! i) = up_current p"
    and n: "ServerRuntime flt (ut_server (up_targets p ! i)) (co_db st) = Inr n"
    and ready: "ready_to_install n (up_targets p ! i)" and a: "find_artifact x i n st = Inr a"
    and t': "same_target (up_targets p ! i) t'" "ut_command t' = ut_command (up_targets p ! i)"
  shows "guarded d p (ut_server (up_targets p ! i)) (installCommand q t' a)"
proof -
  let ?t = "up_targets p ! i"
  have "n \<in> set (u_nodes (co_db st))" "no_id n = ut_server ?t"
    using n by (auto simp: ServerRuntime_def split: option.splits dest!: row_by_Some)
  then obtain m where m: "m \<in> set (u_nodes d)" "node_like m n"
    using inv unfolding scan_inv_def db_like_def by blast
  have rm: "ready_to_install m ?t" "no_id m = ut_server ?t"
    using ready m(2) \<open>no_id n = ut_server ?t\<close> by (auto simp: ready_to_install_def node_like_def running_tasks_def)
  have "u_releases (co_db st) = u_releases d" "up_release (co_plan st) = up_release p"
    using inv by (auto simp: scan_inv_def db_like_def plan_like_def)
  then obtain r b where r: "r \<in> set (u_releases d)" "ri_id r = up_release p" "b \<in> set (ri_artifacts r)"
    "ai_sha b = ai_sha a" "ai_file b = ai_file a" "ai_size b = ai_size a"
    "no_os n = [] \<or> ai_os b = no_os n" "no_arch n = [] \<or> ai_arch b = no_arch n"
    using find_artifact_Inr [OF a] by auto
  have "?t \<in> set (up_targets p)" using i by simp
  then show ?thesis
    unfolding guarded_def using m rm r batch t'
    by (intro bexI [of _ ?t] bexI [of _ m] bexI [of _ r] conjI bexI [of _ b])
      (simp_all add: installCommand_def same_target_def node_like_def)
qed

lemma scan_inv_db: "scan_inv d p i st \<Longrightarrow> db_like d e \<Longrightarrow> scan_inv d p i (st\<lparr>co_db := e\<rparr>)"
  by (simp add: scan_inv_def)

lemma scan_inv_commands:
  "scan_inv d p i st \<Longrightarrow> uc_action c = UpgradeInstall \<longrightarrow> guarded d p s c \<Longrightarrow>
   scan_inv d p i (st\<lparr>co_commands := co_commands st @ [(s, c)]\<rparr>)"
  by (auto simp: scan_inv_def)

lemma scan_inv_pause:
  "scan_inv d p i st \<Longrightarrow> scan_inv d p i (st\<lparr>co_plan := (co_plan st)\<lparr>up_status := s, up_reason := r\<rparr>, co_changed := b\<rparr>)"
  "scan_inv d p i st \<Longrightarrow> scan_inv d p i (st\<lparr>co_plan := (co_plan st)\<lparr>up_status := s, up_reason := r\<rparr>\<rparr>)"
  by (simp_all add: scan_inv_def plan_like_def untouched_def)

lemma current_target:
  assumes "scan_inv d p i st" "i < length (up_targets p)"
    "ut_status (up_targets (co_plan st) ! i) \<notin> {TargetRollingBack, TargetRolledBack}"
  shows "up_targets (co_plan st) ! i = up_targets p ! i"
  using assms unfolding scan_inv_def untouched_def by blast

lemma scan_draining_inv:
  assumes inv: "scan_inv d p i st" and i: "i < length (up_targets p)"
    and t: "ut_status (up_targets (co_plan st) ! i) = TargetDraining"
    and batch: "ut_batch (up_targets (co_plan st) ! i) = up_current (co_plan st)"
    and step: "scan_draining x i st = (e, st')"
  shows "scan_inv d p (Suc i) st'"
proof -
  have same: "up_targets (co_plan st) ! i = up_targets p ! i" using current_target [OF inv i] t by simp
  note inv1 = scan_inv_Suc [OF inv]
  obtain res d1 where dr: "SetServerDraining (cx_flt x i 0) (ut_server (up_targets p ! i)) True (co_db st) = (res, d1)"
    by fastforce
  let ?st = "st\<lparr>co_db := d1\<rparr>"
  have d1: "scan_inv d p i ?st"
    using inv db_like_drain [OF dr] by (auto intro!: scan_inv_db simp: scan_inv_def)
  have cur: "up_current (co_plan st) = up_current p" using inv by (simp add: scan_inv_def plan_like_def)
  have install: "scan_inv d p (Suc i) st2" if n: "ServerRuntime (cx_flt x i 1) (ut_server (up_targets p ! i)) d1 = Inr n"
    "server_usable n" "\<not> running_tasks n > 0" "no_version n = ut_source (up_targets p ! i)"
    "find_artifact x i n ?st = Inr a"
    "st2 = (let st2 = change_target i (\<lambda>t. t\<lparr>ut_status := TargetDownloading, ut_attempts := ut_attempts t + 1,
                 ut_updated := cx_now x\<rparr>) ?st; p2 = co_plan st2
            in st2\<lparr>co_commands := co_commands st2 @ [(ut_server (up_targets p ! i), installCommand p2 (up_targets p2 ! i) a)]\<rparr>)"
    for n a st2
  proof -
    let ?f = "\<lambda>t. t\<lparr>ut_status := TargetDownloading, ut_attempts := ut_attempts t + 1, ut_updated := cx_now x\<rparr>"
    let ?c = "change_target i ?f ?st"
    have ch: "scan_inv d p (Suc i) ?c" by (rule scan_inv_change [OF d1 i]) (simp add: same_target_def)
    have len: "i < length (up_targets (co_plan st))" using inv i by (simp add: scan_inv_def plan_like_def)
    have "up_targets (co_plan ?c) ! i = ?f (up_targets p ! i)" using len same by (simp add: change_target_def)
    then have "guarded d p (ut_server (up_targets p ! i)) (installCommand (co_plan ?c) (up_targets (co_plan ?c) ! i) a)"
      using n t same batch cur
      by (intro install_guarded [OF d1 i, of "cx_flt x i 1" n x a]) (auto simp: ready_to_install_def same_target_def)
    then show ?thesis unfolding n(6) Let_def by (intro scan_inv_commands [OF ch]) simp
  qed
  have "e = None \<and> st' = st \<or> st' = st\<lparr>co_plan := (co_plan st)\<lparr>up_status := PlanPaused, up_reason := UDrainTimeout\<rparr>, co_changed := True\<rparr> \<or>
    st' = ?st \<or> st' = source_changed x i ?st \<or>
    (\<exists>n a. ServerRuntime (cx_flt x i 1) (ut_server (up_targets p ! i)) d1 = Inr n \<and> server_usable n \<and> \<not> running_tasks n > 0 \<and>
       no_version n = ut_source (up_targets p ! i) \<and> find_artifact x i n ?st = Inr a \<and>
       st' = (let st2 = change_target i (\<lambda>t. t\<lparr>ut_status := TargetDownloading, ut_attempts := ut_attempts t + 1,
                 ut_updated := cx_now x\<rparr>) ?st; p2 = co_plan st2
            in st2\<lparr>co_commands := co_commands st2 @ [(ut_server (up_targets p ! i), installCommand p2 (up_targets p2 ! i) a)]\<rparr>))"
    using step dr unfolding scan_draining_def same Let_def
    by (auto split: if_splits option.splits sum.splits)
  then show ?thesis
    using inv1 scan_inv_pause(1) [OF inv1] scan_inv_Suc [OF d1] scan_inv_source_changed [OF d1 i] install
    by (elim disjE exE conjE) blast+
qed

lemma scan_installing_inv:
  assumes inv: "scan_inv d p i st" and i: "i < length (up_targets p)"
    and t: "ut_status (up_targets (co_plan st) ! i) \<in> {TargetDownloading, TargetVerifying, TargetInstalling}"
    and batch: "ut_batch (up_targets (co_plan st) ! i) = up_current (co_plan st)"
    and step: "scan_installing x i st = (e, st')"
  shows "scan_inv d p (Suc i) st'"
proof -
  have same: "up_targets (co_plan st) ! i = up_targets p ! i" using current_target [OF inv i] t by auto
  have cur: "up_current (co_plan st) = up_current p" using inv by (simp add: scan_inv_def plan_like_def)
  have install: "scan_inv d p (Suc i) (st\<lparr>co_commands := co_commands st @
        [(ut_server (up_targets p ! i), installCommand (co_plan st) (up_targets p ! i) a)]\<rparr>)"
    if "ServerRuntime (cx_flt x i 1) (ut_server (up_targets p ! i)) (co_db st) = Inr n"
      "no_version n = ut_source (up_targets p ! i) \<or> no_version n = ut_target (up_targets p ! i)"
      "find_artifact x i n st = Inr a" for n a
    using that t same batch cur scan_inv_Suc [OF inv]
    by (intro scan_inv_commands impI install_guarded [OF inv i, of "cx_flt x i 1" n x a])
      (auto simp: ready_to_install_def same_target_def)
  show ?thesis
    using step install scan_inv_Suc [OF inv] scan_inv_source_changed [OF inv i] unfolding scan_installing_def same Let_def
    by (auto split: if_splits sum.splits)
qed

lemma scan_checking_inv:
  assumes inv: "scan_inv d p i st" and i: "i < length (up_targets p)"
    and step: "scan_checking x i st = (e, st')"
  shows "scan_inv d p (Suc i) st'"
proof -
  have db: "scan_inv d p i (st\<lparr>co_db := d1\<rparr>)"
    if "SetServerDraining (cx_flt x i 0) sid False (co_db st) = (res, d1)" for sid res d1
    using inv db_like_drain [OF that] by (auto intro!: scan_inv_db simp: scan_inv_def)
  have ok: "scan_inv d p (Suc i) (change_target i (\<lambda>t. t\<lparr>ut_status := TargetSucceeded, ut_updated := cx_now x,
      ut_finished := Some (cx_now x)\<rparr>) st1)" if "scan_inv d p i st1" for st1
    by (rule scan_inv_change [OF that i]) (simp add: same_target_def)
  have "st\<lparr>co_db := co_db st\<rparr> = st" by simp
  then show ?thesis
    using step db [THEN scan_inv_Suc] db [THEN ok] ok [OF inv] scan_inv_Suc [OF inv] scan_inv_Suc [OF scan_inv_roll_back [OF inv]]
    unfolding scan_checking_def Let_def by (auto split: if_splits sum.splits option.splits prod.splits)
qed

lemma scan_target_inv:
  assumes inv: "scan_inv d p i st" and i: "i < length (up_targets p)" and step: "scan_target x i st = (e, st')"
  shows "scan_inv d p (Suc i) st'"
proof (cases "ut_batch (up_targets (co_plan st) ! i) = up_current (co_plan st)")
  case False
  then show ?thesis using step scan_inv_Suc [OF inv] by (auto simp: scan_target_def Let_def)
next
  case True
  have change: "scan_inv d p (Suc i) (change_target i (\<lambda>t. t\<lparr>ut_status := s, ut_started := a, ut_updated := b\<rparr>) st)"
    for s a b by (rule scan_inv_change [OF inv i]) (simp add: same_target_def)
  have "scan_inv d p (Suc i) (change_target i (\<lambda>t. t\<lparr>ut_status := s, ut_error_code := a, ut_error := b, ut_updated := c,
      ut_finished := f\<rparr>) st)" for s a b c f
    by (rule scan_inv_change [OF inv i]) (simp add: same_target_def)
  then have rolling: "scan_inv d p (Suc i) st'" if "scan_rolling_back x i st = (e, st')"
    using that scan_inv_pause(2) scan_inv_commands [OF scan_inv_Suc [OF inv]]
    by (auto simp: scan_rolling_back_def rollbackCommand_def Let_def split: if_splits)
  show ?thesis
    using step True change scan_inv_Suc [OF inv] rolling scan_checking_inv [OF inv i] scan_draining_inv [OF inv i _ True]
      scan_installing_inv [OF inv i _ True] scan_inv_Suc [OF scan_inv_roll_back [OF inv]]
    by (cases "ut_status (up_targets (co_plan st) ! i)") (auto simp: scan_target_def Let_def split: if_splits)
qed

lemma scan_targets_inv:
  "scan_inv d p i st \<Longrightarrow> i + n = length (up_targets p) \<Longrightarrow> scan_targets x [i..<i + n] st = (e, st') \<Longrightarrow>
   \<exists>j. scan_inv d p j st'"
proof (induction n arbitrary: i st)
  case (Suc n)
  obtain e1 st1 where one: "scan_target x i st = (e1, st1)" by fastforce
  have "scan_inv d p (Suc i) st1" using scan_target_inv [OF Suc.prems(1) _ one] Suc.prems(2) by simp
  moreover have "[i..<i + Suc n] = i # [Suc i..<Suc i + n]" by (simp add: upt_rec)
  ultimately show ?case
    using Suc.IH [of "Suc i" st1] Suc.prems one by (cases e1) (auto simp del: upt_Suc)
qed auto

lemma send_all_prefix: "send_all f cs = (res, out) \<Longrightarrow> set out \<subseteq> set cs"
  by (induction f cs arbitrary: res out rule: send_all.induct) (auto split: if_splits prod.splits)

lemma finish_scan_commands [simp]: "co_commands (finish_scan now st) = co_commands st"
  by (simp add: finish_scan_def Let_def)

lemma scan_plan_sends:
  assumes "scan_plan x d = ((res, out), d')" "(s, c) \<in> set out"
  obtains p e st where "ActivePlan (cx_outer x 0) d = Inr (Some p)"
    "scan_targets x [0..<length (up_targets p)] (start_scan p d) = (e, st)" "(s, c) \<in> set (co_commands st)"
proof -
  obtain p where p: "ActivePlan (cx_outer x 0) d = Inr (Some p)"
    using assms by (auto simp: scan_plan_def split: sum.splits option.splits)
  obtain e st where st: "scan_targets x [0..<length (up_targets p)] (start_scan p d) = (e, st)" by fastforce
  have "\<exists>r. send_all (cx_send x) (co_commands st) = (r, out)"
    using assms p st
    by (auto simp: scan_plan_def Let_def split: option.splits if_splits prod.splits sum.splits)
  then show ?thesis using send_all_prefix assms(2) that [OF p st] by blast
qed

section \<open>A sample deployment\<close>

definition sample_release :: release_info where
  "sample_release = \<lparr>ri_id = ''r12'', ri_version = ''v1.10.0'', ri_status = ''available'',
     ri_capabilities = [selfUpgradeCapability],
     ri_artifacts = [\<lparr>ai_os = ''linux'', ai_arch = ''amd64'', ai_file = ''agent'', ai_sha = ''abc'', ai_url = [], ai_size = 7\<rparr>]\<rparr>"

definition sample_node :: "ident \<Rightarrow> int \<Rightarrow> node_row" where
  "sample_node i k = \<lparr>no_id = i, no_status = StatusOnline, no_enabled = True, no_draining = False, no_version = ''v1.9.3'',
     no_os = ''linux'', no_arch = ''amd64'', no_capabilities = [selfUpgradeCapability], no_last_seen = Some 1,
     no_running = Some k\<rparr>"

definition sample_upgrade_db :: "int \<Rightarrow> upgrade_db" where
  "sample_upgrade_db k = \<lparr>u_base = ''https://yl'', u_releases = [sample_release],
     u_nodes = [sample_node ''s1'' k, sample_node ''s2'' 0, sample_node ''s3'' 0], u_plans = [], u_targets = [], u_events = []\<rparr>"

definition sample_env :: "time \<Rightarrow> (nat \<Rightarrow> ident) \<Rightarrow> upgrade_env" where
  "sample_env now ids = \<lparr>ux_now = now, ux_id = ids, ux_flt = (\<lambda>_. no_faults), ux_meanwhile = id\<rparr>"

definition sample_ids :: "nat \<Rightarrow> ident" where
  "sample_ids k = CHR ''i'' # [char_of (65 + k)]"

definition sample_input :: plan_input where
  "sample_input = \<lparr>pi_release = ''r12'', pi_servers = [''s1'', ''s2'', ''s3''], pi_batch_size = 2, pi_drain_timeout = 60,
     pi_reconnect_timeout = 0, pi_verification = 0, pi_creator = ''admin''\<rparr>"

definition sample_coord :: "time \<Rightarrow> coord_env" where
  "sample_coord now = \<lparr>cx_now = now, cx_id = (\<lambda>i j. [char_of (97 + i), char_of (97 + j)]), cx_flt = (\<lambda>_ _. no_faults),
     cx_outer = (\<lambda>_. no_faults), cx_meanwhile = id, cx_send = (\<lambda>_ _. True)\<rparr>"

definition sample_created :: "int \<Rightarrow> (upgrade_error + upgrade_plan) \<times> upgrade_db" where
  "sample_created k = create_upgrade (sample_env 1 sample_ids) sample_input (sample_upgrade_db k)"

section \<open>Properties\<close>

text \<open>C26. Stable versions are compared as numbers, although the code compares digit strings of any
  length: two versions compare exactly when both are well formed, and then as the lexicographic
  order of their three numbers.\<close>

theorem version_order_numeric:
  "compareStableVersions a b =
     (case (version_number a, version_number b) of
        (Some m, Some n) \<Rightarrow> Some (if m < n then -1 else if m = n then 0 else 1)
      | _ \<Rightarrow> None)"
  by (rule version_order)

text \<open>C27. Concurrent changes of a plan never overwrite each other: once a save has committed, every
  other save of a plan read at the same revision changes nothing and, unless the store fails, is
  refused as an invalid transition.\<close>

theorem concurrent_save_refused:
  assumes "SavePlan flt p d = (Inr q, d1)" "up_id p' = up_id p" "up_revision p' = up_revision p"
  shows "snd (SavePlan flt' p' d1) = d1 \<and> fst (SavePlan no_faults p' d1) = Inl ErrInvalidTransition"
proof -
  have "save_plan flt p d = Inr ((), d1)" using SavePlan_db [OF assms(1)] by blast
  from save_plan_revision [OF this] obtain r :: plan_row where r: "up_revision r = up_revision p"
    "row_by up_id (up_id p) (u_plans d1) = Some (saved_plan p r)" by blast
  have "up_revision (saved_plan p r) \<noteq> up_revision p'" unfolding assms(3) r(1) [symmetric] by (simp add: saved_plan_def)
  moreover have "row_by up_id (up_id p') (u_plans d1) = Some (saved_plan p r)" unfolding assms(2) by (rule r(2))
  ultimately show ?thesis using save_plan_stale by blast
qed

text \<open>C28. A created upgrade starts with one canary: exactly one target is in batch 1, every later
  batch has at most the batch size, every target is waiting, its server was usable, and its version
  strictly increases.\<close>

theorem upgrade_plan_canary:
  assumes "create_upgrade x i d = (Inr p, d')"
  shows "\<exists>ts. u_targets d' = u_targets (ux_meanwhile x d) @ ts \<and> length ts = length (pi_servers i) \<and>
    length (filter (\<lambda>t. ut_batch t = 1) ts) = 1 \<and>
    (\<forall>b. b \<noteq> 1 \<longrightarrow> int (length (filter (\<lambda>t. ut_batch t = b) ts)) \<le> pi_batch_size (applyPlanDefaults i)) \<and>
    (\<forall>t \<in> set ts. ut_status t = TargetWaiting \<and>
       (\<exists>n \<in> set (u_nodes d). no_id n = ut_server t \<and> server_usable n \<and> no_version n = ut_source t) \<and>
       (\<exists>a b. version_number (ut_source t) = Some a \<and> version_number (ut_target t) = Some b \<and> a < b))"
proof -
  let ?bs = "pi_batch_size (applyPlanDefaults i)"
  obtain r ns where c: "validatePlanInput (applyPlanDefaults i)" "\<forall>n \<in> set ns. n \<in> set (u_nodes d)"
    "\<forall>n \<in> set ns. check_server r None n = None" "length ns = length (pi_servers (applyPlanDefaults i))"
    "u_targets d' = u_targets (ux_meanwhile x d) @ map (\<lambda>(j, n). new_target x r ?bs j n) (enumerate 0 ns)"
    by (rule createPlan_Inr [OF assms [unfolded create_upgrade_def]])
  let ?ts = "map (\<lambda>(j, n). new_target x r ?bs j n) (enumerate 0 ns)"
  have bs: "1 \<le> ?bs" and ns: "ns \<noteq> []" using c(1,4) by (auto simp: validatePlanInput_def)
  have "[0..<length ns] = 0 # [1..<length ns]" using ns upt_conv_Cons [of 0 "length ns"] by simp
  then have "filter (\<lambda>j. batch_of ?bs j = 1) [0..<length ns] = [0]"
    using bs by (simp add: batch_of_one filter_empty_conv)
  then have "length (filter (\<lambda>t. ut_batch t = 1) ?ts) = 1" unfolding batches_of_enumerate by simp
  moreover have "\<forall>b. b \<noteq> 1 \<longrightarrow> int (length (filter (\<lambda>t. ut_batch t = b) ?ts)) \<le> ?bs"
    unfolding batches_of_enumerate using batch_window [OF bs] by blast
  moreover have "ut_status t = TargetWaiting \<and>
       (\<exists>n \<in> set (u_nodes d). no_id n = ut_server t \<and> server_usable n \<and> no_version n = ut_source t) \<and>
       (\<exists>a b. version_number (ut_source t) = Some a \<and> version_number (ut_target t) = Some b \<and> a < b)"
    if t: "t \<in> set ?ts" for t
  proof -
    obtain j n where n: "n \<in> set ns" "t = new_target x r ?bs j n" using t by (force dest: in_set_enumerate_eq [THEN iffD1])
    then have "n \<in> set (u_nodes d)" "check_server r None n = None" using c(2,3) by blast+
    then show ?thesis unfolding n(2) new_target_def upgrade_target.simps using checked_server [of r n] by blast
  qed
  ultimately show ?thesis using c(4,5) by (intro exI [of _ ?ts]) (simp add: applyPlanDefaults_def)
qed



section \<open>Witnesses\<close>

definition sample_plan :: upgrade_plan where
  "sample_plan = (case read_Plan no_faults ''iA'' (snd (sample_created 0)) of Inr p \<Rightarrow> p)"

definition sample_save :: "(upgrade_error + upgrade_plan) \<times> upgrade_db" where
  "sample_save = SavePlan no_faults sample_plan (snd (sample_created 0))"

lemma Inr_pair: "\<not> isl (fst r) \<Longrightarrow> r = (Inr (projr (fst r)), snd r)"
  by (cases r) (simp add: sum.collapse)

theorem concurrent_save_refused_witness:
  "fst (SavePlan no_faults (sample_plan\<lparr>up_status := PlanPaused\<rparr>) (snd sample_save)) = Inl ErrInvalidTransition"
proof -
  have "\<not> isl (fst sample_save)" by code_simp
  then have "SavePlan no_faults sample_plan (snd (sample_created 0)) = (Inr (projr (fst sample_save)), snd sample_save)"
    unfolding sample_save_def [symmetric] by (rule Inr_pair)
  then show ?thesis
    using concurrent_save_refused [of no_faults sample_plan _ _ "snd sample_save" "sample_plan\<lparr>up_status := PlanPaused\<rparr>"]
    by simp
qed

theorem upgrade_plan_canary_witness:
  "length (filter (\<lambda>t. ut_batch t = 1) (u_targets (snd (sample_created 0)))) = 1 \<and>
   map ut_batch (u_targets (snd (sample_created 0))) = [1, 2, 2]"
proof -
  have "\<not> isl (fst (sample_created 0))" by code_simp
  then have "create_upgrade (sample_env 1 sample_ids) sample_input (sample_upgrade_db 0) =
      (Inr (projr (fst (sample_created 0))), snd (sample_created 0))"
    unfolding sample_created_def by (rule Inr_pair)
  from upgrade_plan_canary [OF this] have "length (filter (\<lambda>t. ut_batch t = 1) (u_targets (snd (sample_created 0)))) = 1"
    by (auto simp: sample_env_def sample_upgrade_db_def)
  moreover have "map ut_batch (u_targets (snd (sample_created 0))) = [1, 2, 2]" by code_simp
  ultimately show ?thesis by blast
qed

text \<open>One server and a plan with one target, in a given state.\<close>

definition sample_target :: "target_status \<Rightarrow> upgrade_target" where
  "sample_target s = \<lparr>ut_id = ''t1'', ut_plan = ''p1'', ut_server = ''s1'', ut_batch = 1, ut_source = ''v1.9.3'',
     ut_target = ''v1.10.0'', ut_source_draining = False, ut_status = s, ut_attempts = 1, ut_command = ''c1'',
     ut_install_command = ''c1'', ut_error_code = [], ut_error = UText [], ut_started = Some 1, ut_updated = 1,
     ut_finished = None\<rparr>"

definition sample_row :: "plan_status \<Rightarrow> plan_row" where
  "sample_row s = \<lparr>up_id = ''p1'', up_release = ''r12'', up_status = s, up_first_batch = 1, up_batch_size = 1,
     up_drain_timeout = 60, up_reconnect_timeout = 120, up_verification = 30, up_current = 1, up_revision = 1,
     up_cancel = False, up_creator = ''admin'', up_reason = UText [], up_created = 1, up_started = Some 1, up_finished = None\<rparr>"

definition sample_in :: "plan_status \<Rightarrow> target_status \<Rightarrow> int \<Rightarrow> upgrade_db" where
  "sample_in ps ts k = \<lparr>u_base = ''u'', u_releases = [sample_release], u_nodes = [sample_node ''s1'' k],
     u_plans = [sample_row ps], u_targets = [sample_target ts], u_events = []\<rparr>"

definition sample_install :: "((upgrade_error + unit) \<times> sent_commands) \<times> upgrade_db" where
  "sample_install = scan_plan (sample_coord 3) (sample_in PlanRunning TargetDraining 0)"

definition sample_command :: upgrade_command where
  "sample_command = snd (hd (snd (fst sample_install)))"


definition sample_reconnecting :: upgrade_plan where
  "sample_reconnecting = plan_row.extend (sample_row PlanRunning) (upgrade_plan.fields ''v1.10.0''
     [sample_target TargetReconnecting, (sample_target TargetWaiting)\<lparr>ut_id := ''t2'', ut_server := ''s2'', ut_batch := 2\<rparr>])"

definition sample_rollback :: "upgrade_plan \<times> sent_commands" where
  "sample_rollback = rollbackBatch (\<lambda>_. ''undo'') 1 ''t1'' ''reconnect_timeout'' 9 sample_reconnecting"


section \<open>Plans that get stuck\<close>

definition plan_now :: "upgrade_db \<Rightarrow> (plan_status \<times> bool \<times> target_status) list" where
  "plan_now d = map (\<lambda>p. (up_status p, up_cancel p, ut_status (hd (targets_of d (up_id p))))) (u_plans d)"

definition cancelled_late :: upgrade_db where
  "cancelled_late = snd (scan_plan (sample_coord (61 * second + 2))
     (snd (Cancel (sample_env 2 (\<lambda>_. ''x'')) ''p1'' (sample_in PlanRunning TargetDraining 1))))"


text \<open>A target that is retried keeps its first start time, so the next scan pauses the plan for its
  drain timeout although the server is idle.\<close>

lemma retry_times_out_at_once:
  "plan_now (snd (scan_plan (sample_coord (7201 * second))
     (snd (RetryTarget (sample_env (7200 * second) (\<lambda>_. ''x'')) ''p1'' ''t1'' (sample_in PlanPaused TargetRolledBack 0))))) =
   [(PlanPaused, False, TargetDraining)]"
  by code_simp

text \<open>An agent that reports the stage \<^verbatim>\<open>succeeded\<close> makes the target's own success event a
  duplicate, so the verified target can never be saved as succeeded.\<close>

definition reported_success :: upgrade_db where
  "reported_success = (let d = snd (ApplyUpgradeEvent (sample_coord 2) ''s1''
        \<lparr>ev_command = ''c1'', ev_target = ''t1'', ev_stage = StageSucceeded, ev_at = 2, ev_code = [], ev_text = []\<rparr>
        (sample_in PlanRunning TargetInstalling 0));
      e = snd (ObserveHeartbeat (sample_coord 3) \<lparr>uh_server = ''s1'', uh_version = ''v1.10.0'', uh_upgrade = Some (''t1'', ''c1'')\<rparr> d)
    in e\<lparr>u_nodes := map (\<lambda>n. n\<lparr>no_version := ''v1.10.0'', no_last_seen := Some (40 * second)\<rparr>) (u_nodes e)\<rparr>)"

lemma succeeded_event_blocks_completion:
  "plan_now reported_success = [(PlanRunning, False, TargetHealthChecking)] \<and>
   fst (fst (scan_plan (sample_coord (41 * second)) reported_success)) = Inl ErrUpgradeStore"
  by (intro conjI; code_simp)

end
