(* ===== verification/Secret_Store.thy ===== *)
theory Secret_Store
  imports Go_Encoding Run_Events
begin

text \<open>
  Secrets (\<^verbatim>\<open>internal/secret\<close>): envelope encryption of values in a table, resolving references for
  a run, and masking the values in log text. Authenticated encryption (AES-GCM), the random source
  and the key provider are library code or interfaces and arguments; what is proved relies only on
  opening being the inverse of sealing.
\<close>

section \<open>Storing and resolving\<close>

datatype secret_error = ErrSecretStore | ErrInvalidSecret | ErrSecretNotFound | ErrKeyUnavailable
  | ErrSecretRandom | ErrSecretCipher | ErrRunAccessDenied

datatype secret_scope = ScopeUser | ScopeSystem

record secret_meta =
  se_id :: ident
  se_name :: string
  se_scope :: secret_scope
  se_creator :: ident
  se_created :: time
  se_updated :: time

record stored_secret = secret_meta +
  se_ciphertext :: string
  se_nonce :: string
  se_data_key :: string
  se_key_nonce :: string
  se_version :: int

record master_key =
  mk_version :: int
  mk_material :: string

text \<open>\<open>ae_seal\<close> and \<open>ae_open\<close> take the key, the nonce and the associated data.\<close>

record aead =
  ae_seal :: "string \<Rightarrow> string \<Rightarrow> string \<Rightarrow> string \<Rightarrow> string"
  ae_open :: "string \<Rightarrow> string \<Rightarrow> string \<Rightarrow> string \<Rightarrow> string option"

definition aes_key_size :: "string \<Rightarrow> bool" where
  "aes_key_size k \<longleftrightarrow> length k \<in> {16, 24, 32}"

definition seal :: "aead \<Rightarrow> string option \<Rightarrow> string \<Rightarrow> string \<Rightarrow> string \<Rightarrow> secret_error + (string \<times> string)" where
  "seal ae random key plaintext aad =
     (if \<not> aes_key_size key then Inl ErrSecretCipher
      else (case random of
              None \<Rightarrow> Inl ErrSecretRandom
            | Some nonce \<Rightarrow> if length nonce \<noteq> 12 then Inl ErrSecretRandom
                             else Inr (ae_seal ae key nonce aad plaintext, nonce)))"

definition open_sealed :: "aead \<Rightarrow> string \<Rightarrow> string \<Rightarrow> string \<Rightarrow> string \<Rightarrow> string option" where
  "open_sealed ae key nonce ciphertext aad =
     (if \<not> aes_key_size key \<or> length nonce \<noteq> 12 then None else ae_open ae key nonce aad ciphertext)"

definition validMasterKey :: "master_key \<Rightarrow> bool" where
  "validMasterKey k \<longleftrightarrow> mk_version k > 0 \<and> length (mk_material k) = 32"

definition associatedData :: "'a secret_meta_scheme \<Rightarrow> int \<Rightarrow> string" where
  "associatedData m version = ''yunling-secret'' @ [CHR 0x00] @ se_id m @ [CHR 0x00] @ se_name m @ [CHR 0x00] @
     (if version < 0 then CHR ''-'' # show_nat (nat (- version)) else show_nat (nat version))"

text \<open>The outside of one call: clock, fresh id, creator of the context, random reads (0 the data key, 1 and 2
  the nonces), the key provider and the failing statements.\<close>

record secret_env =
  sx_now :: time
  sx_id :: ident
  sx_creator :: ident
  sx_random :: "nat \<Rightarrow> string option"
  sx_current :: "master_key option"
  sx_by_version :: "int \<Rightarrow> master_key option"
  sx_flt :: faults

definition insert_secret :: "faults \<Rightarrow> stored_secret \<Rightarrow> stored_secret list \<Rightarrow> (secret_error + secret_meta) \<times> stored_secret list" where
  "insert_secret flt s d =
     (if flt 0 \<or> row_by se_id (se_id s) d \<noteq> None \<or> row_by se_name (se_name s) d \<noteq> None \<or> se_version s \<le> 0
      then (Inl ErrSecretStore, d)
      else (Inr (secret_meta.truncate s), d @ [s]))"

definition create_secret :: "aead \<Rightarrow> secret_env \<Rightarrow> string \<Rightarrow> string \<Rightarrow> secret_scope \<Rightarrow> stored_secret list \<Rightarrow>
    (secret_error + secret_meta) \<times> stored_secret list" where
  "create_secret ae x name0 plaintext scope d =
     (let name = trim_space name0 in
      if name = [] \<or> plaintext = [] then (Inl ErrInvalidSecret, d)
      else (case sx_current x of
        None \<Rightarrow> (Inl ErrKeyUnavailable, d)
      | Some master \<Rightarrow>
          if \<not> validMasterKey master then (Inl ErrKeyUnavailable, d)
          else
            (let m = \<lparr>se_id = sx_id x, se_name = name, se_scope = scope, se_creator = sx_creator x,
                      se_created = sx_now x, se_updated = sx_now x\<rparr>;
                 aad = associatedData m (mk_version master)
             in case sx_random x 0 of
                  None \<Rightarrow> (Inl ErrSecretRandom, d)
                | Some dataKey \<Rightarrow>
                    if length dataKey \<noteq> 32 then (Inl ErrSecretRandom, d)
                    else (case seal ae (sx_random x 1) dataKey plaintext aad of
                            Inl e \<Rightarrow> (Inl e, d)
                          | Inr (c, n) \<Rightarrow>
                              (case seal ae (sx_random x 2) (mk_material master) dataKey aad of
                                 Inl e \<Rightarrow> (Inl e, d)
                               | Inr (kc, kn) \<Rightarrow>
                                   insert_secret (sx_flt x)
                                     (secret_meta.extend m (stored_secret.fields c n kc kn (mk_version master))) d)))))"

definition load_secrets :: "faults \<Rightarrow> ident list \<Rightarrow> stored_secret list \<Rightarrow> secret_error + stored_secret list" where
  "load_secrets flt ids d =
     (if ids = [] then Inr [] else stmt flt 0 ErrSecretStore (Inr (filter (\<lambda>s. se_id s \<in> set ids) d)))"

definition list_secrets :: "faults \<Rightarrow> stored_secret list \<Rightarrow> secret_error + secret_meta list" where
  "list_secrets flt d = stmt flt 0 ErrSecretStore (Inr (map secret_meta.truncate
     (slice_stable (\<lambda>a b. if se_created a \<noteq> se_created b then se_created a > se_created b else se_id a > se_id b)
       (filter (\<lambda>s. se_scope s = ScopeUser) d))))"

definition decrypt_secret :: "aead \<Rightarrow> secret_env \<Rightarrow> stored_secret \<Rightarrow> secret_error + string" where
  "decrypt_secret ae x s =
     (case sx_by_version x (se_version s) of
        None \<Rightarrow> Inl ErrKeyUnavailable
      | Some master \<Rightarrow>
          if \<not> validMasterKey master \<or> mk_version master \<noteq> se_version s then Inl ErrKeyUnavailable
          else
            (let aad = associatedData s (se_version s) in
             case open_sealed ae (mk_material master) (se_key_nonce s) (se_data_key s) aad of
               None \<Rightarrow> Inl ErrKeyUnavailable
             | Some dataKey \<Rightarrow>
                 if length dataKey \<noteq> 32 then Inl ErrKeyUnavailable
                 else (case open_sealed ae dataKey (se_nonce s) (se_ciphertext s) aad of
                         None \<Rightarrow> Inl ErrSecretCipher
                       | Some plaintext \<Rightarrow> Inr plaintext)))"

fun decrypt_all :: "aead \<Rightarrow> secret_env \<Rightarrow> stored_secret list \<Rightarrow> secret_error + (ident \<times> string) list" where
  "decrypt_all ae x [] = Inr []"
| "decrypt_all ae x (s # ss) =
     (case decrypt_secret ae x s of
        Inl e \<Rightarrow> Inl e
      | Inr v \<Rightarrow> (case decrypt_all ae x ss of Inl e \<Rightarrow> Inl e | Inr vs \<Rightarrow> Inr ((se_id s, v) # vs)))"

fun dedup :: "'a list \<Rightarrow> 'a list \<Rightarrow> 'a list" where
  "dedup seen [] = []"
| "dedup seen (x # xs) = (if x \<in> set seen then dedup seen xs else x # dedup (x # seen) xs)"

definition Resolve :: "aead \<Rightarrow> secret_env \<Rightarrow> ident list \<Rightarrow> stored_secret list \<Rightarrow> secret_error + (ident \<times> string) list" where
  "Resolve ae x refs d =
     (if list_ex blank refs then Inl ErrInvalidSecret
      else
        (let unique = dedup [] refs in
         case load_secrets (sx_flt x) unique d of
           Inl e \<Rightarrow> Inl e
         | Inr stored \<Rightarrow> if length stored \<noteq> length unique then Inl ErrSecretNotFound else decrypt_all ae x stored))"

text \<open>\<^verbatim>\<open>RunValueSource.ValuesForRun\<close>: the values bound to a run, for redaction.\<close>

definition ValuesForRun :: "faults \<Rightarrow> (ident list \<Rightarrow> secret_error + (ident \<times> string) list) \<Rightarrow> ident \<Rightarrow> string \<Rightarrow> db \<Rightarrow>
    secret_error + string list" where
  "ValuesForRun flt resolve rid token d =
     (if rid = [] \<or> token = [] then Inl ErrRunAccessDenied
      else stmt flt 0 ErrSecretStore
        (case run_row_of d rid of
           None \<Rightarrow> Inl ErrRunAccessDenied
         | Some r \<Rightarrow>
             (case (if tr_token r = Some token then row_by df_id (tr_def r) (db_defs d) else None) of
                None \<Rightarrow> Inl ErrRunAccessDenied
              | Some df \<Rightarrow>
                  (let bindings = (case queued_secret_refs d rid of None \<Rightarrow> df_secret_refs df | Some b \<Rightarrow> b);
                       ids = dedup [] (map (str_at bindings) (sort (remdups (map fst bindings))))
                   in case resolve ids of
                        Inl e \<Rightarrow> Inl e
                      | Inr resolved \<Rightarrow>
                          if list_ex (\<lambda>i. map_of resolved i = None) ids then Inl ErrSecretNotFound
                          else Inr (map (str_at resolved) ids)))))"

section \<open>Masking\<close>

definition mask :: string where
  "mask = ''******''"

definition value_variants :: "string \<Rightarrow> string list" where
  "value_variants v = (if v = [] then [] else
     [v, base64_encode False True v, base64_encode False False v, base64_encode True True v, base64_encode True False v,
      query_escape v, path_escape v])"

definition mask_variants :: "string list \<Rightarrow> string list" where
  "mask_variants values = filter (\<lambda>v. v \<noteq> [] \<and> v \<noteq> mask) (remdups (concat (map value_variants values)))"

text \<open>\<open>lower\<close> is \<^verbatim>\<open>strings.ToLower\<close>.\<close>

definition mask_one :: "(string \<Rightarrow> string) \<Rightarrow> string \<Rightarrow> string \<Rightarrow> string" where
  "mask_one lower text v =
     (let r = replace_all v mask text in
      if CHR 0x25 \<in> set v \<and> lower v \<noteq> v then replace_all (lower v) mask r else r)"

text \<open>\<open>iter\<close> is the order in which Go's map yields the variants.\<close>

definition Mask :: "(string \<Rightarrow> string) \<Rightarrow> (string list \<Rightarrow> string list) \<Rightarrow> string \<Rightarrow> string list \<Rightarrow> string" where
  "Mask lower iter text values =
     foldl (mask_one lower) text (slice_stable (\<lambda>a b. length a > length b) (iter (mask_variants values)))"

section \<open>Lemmas\<close>

lemma mask_stars [simp]: "mask \<noteq> []" "set mask = {CHR ''*''}"
  by (auto simp: mask_def)

lemma mask_replace:
  assumes "v \<noteq> []" "CHR ''*'' \<notin> set v" "u \<noteq> []" "\<not> sublist v body"
  shows "\<not> sublist v (replace_all u mask body)"
  using sublist_replace_all [OF assms(3) mask_stars(1) assms(1), of body] assms(2,4) by auto

lemma mask_one_keeps_out:
  assumes "v \<noteq> []" "CHR ''*'' \<notin> set v" "u \<noteq> []" "lower u \<noteq> []" "\<not> sublist v (replace_all u mask body)"
  shows "\<not> sublist v (mask_one lower body u)"
  using mask_replace [OF assms(1,2,4,5)] assms(5) unfolding mask_one_def Let_def by (simp split: if_split)

lemma mask_one_removes:
  assumes "v \<noteq> []" "CHR ''*'' \<notin> set v" "u \<noteq> []" "lower u \<noteq> []" "v = u \<or> \<not> sublist v body"
  shows "\<not> sublist v (mask_one lower body u)"
proof (rule mask_one_keeps_out [where lower = lower, OF assms(1-4)])
  show "\<not> sublist v (replace_all u mask body)"
    using assms(5)
  proof
    assume "v = u"
    then show ?thesis using replace_all_removes [OF assms(1) mask_stars(1), of body] assms(2) by auto
  next
    assume "\<not> sublist v body"
    then show ?thesis by (rule mask_replace [OF assms(1-3)])
  qed
qed

lemma mask_fold:
  assumes "v \<noteq> []" "CHR ''*'' \<notin> set v" "\<And>u. u \<noteq> [] \<Longrightarrow> lower u \<noteq> []" "[] \<notin> set us" "v \<in> set us \<or> \<not> sublist v body"
  shows "\<not> sublist v (foldl (mask_one lower) body us)"
  using assms(4,5)
proof (induction us arbitrary: body)
  case (Cons u us)
  have u: "u \<noteq> []" using Cons.prems(1) by auto
  have "v \<in> set us \<or> \<not> sublist v (mask_one lower body u)"
    using mask_one_removes [where lower = lower, OF assms(1,2) u assms(3) [OF u], of body] Cons.prems(2) by auto
  then show ?case using Cons.IH [of "mask_one lower body u"] Cons.prems(1) by simp
qed simp

lemma dedup_set: "set (dedup seen xs) = set xs - set seen \<and> distinct (dedup seen xs)"
  by (induction seen xs rule: dedup.induct) auto

lemma decrypt_all_lookup:
  "decrypt_all ae x ss = Inr vs \<Longrightarrow> distinct (map se_id ss) \<Longrightarrow> s \<in> set ss \<Longrightarrow>
   \<exists>v. decrypt_secret ae x s = Inr v \<and> map_of vs (se_id s) = Some v"
proof (induction ss arbitrary: vs)
  case (Cons t ss)
  then show ?case by (cases "s = t") (auto split: sum.splits, metis image_eqI)
qed simp

lemma create_secret_Inr:
  assumes "create_secret ae x name plaintext scope d = (Inr m, d')"
  obtains master k s where "sx_current x = Some master" "validMasterKey master" "length k = 32"
    "d' = d @ [s]" "m = secret_meta.truncate s" "se_id s = sx_id x" "se_version s = mk_version master"
    "row_by se_id (se_id s) d = None" "length (se_nonce s) = 12" "length (se_key_nonce s) = 12"
    "se_ciphertext s = ae_seal ae k (se_nonce s) (associatedData s (mk_version master)) plaintext"
    "se_data_key s = ae_seal ae (mk_material master) (se_key_nonce s) (associatedData s (mk_version master)) k"
proof -
  let ?m = "\<lparr>se_id = sx_id x, se_name = trim_space name, se_scope = scope, se_creator = sx_creator x,
     se_created = sx_now x, se_updated = sx_now x\<rparr> :: secret_meta"
  have start: "\<not> (trim_space name = [] \<or> plaintext = [])" by (rule notI) (use assms in \<open>simp add: create_secret_def\<close>)
  obtain master where master: "sx_current x = Some master" "validMasterKey master"
    using assms start by (cases "sx_current x") (simp_all add: create_secret_def Let_def split: if_splits)
  obtain k where k: "sx_random x 0 = Some k" "length k = 32"
    using assms start master by (cases "sx_random x 0") (simp_all add: create_secret_def Let_def split: if_splits)
  let ?a = "associatedData ?m (mk_version master)"
  obtain c n where c: "seal ae (sx_random x 1) k plaintext ?a = Inr (c, n)"
    using assms start master k by (cases "seal ae (sx_random x 1) k plaintext ?a") (auto simp add: create_secret_def Let_def)
  obtain kc kn where kc: "seal ae (sx_random x 2) (mk_material master) k ?a = Inr (kc, kn)"
    using assms start master k c
    by (cases "seal ae (sx_random x 2) (mk_material master) k ?a") (auto simp add: create_secret_def Let_def)
  let ?s = "secret_meta.extend ?m (stored_secret.fields c n kc kn (mk_version master)) :: stored_secret"
  have ins: "insert_secret (sx_flt x) ?s d = (Inr m, d')"
    using assms start master k c kc by (simp add: create_secret_def Let_def)
  have aad: "associatedData ?s (mk_version master) = ?a"
    by (simp add: associatedData_def secret_meta.defs stored_secret.defs)
  have fields: "se_id ?s = sx_id x" "se_version ?s = mk_version master" "se_nonce ?s = n" "se_key_nonce ?s = kn"
    "se_ciphertext ?s = c" "se_data_key ?s = kc"
    by (simp_all add: secret_meta.defs stored_secret.defs)
  have sealed: "length n = 12" "c = ae_seal ae k n ?a plaintext" "length kn = 12" "kc = ae_seal ae (mk_material master) kn ?a k"
    using c kc by (auto simp: seal_def split: if_splits option.splits)
  have "d' = d @ [?s]" "m = secret_meta.truncate ?s" "row_by se_id (se_id ?s) d = None"
    using ins by (simp_all add: insert_secret_def split: if_splits)
  then show ?thesis
    using that [of master k ?s] master k(2) fields sealed unfolding aad fields by blast
qed

section \<open>Properties\<close>



text \<open>C33. What is stored as a secret is what a run resolves it to, if opening inverts sealing, the
  master key of its version is still available and the store does not fail.\<close>

theorem secret_roundtrip:
  assumes "create_secret ae x name plaintext scope d = (Inr m, d')"
    and aead: "\<And>k n a p. ae_open ae k n a (ae_seal ae k n a p) = Some p"
    and "sx_current x = Some master" "sx_by_version y (mk_version master) = Some master"
    and "\<not> sx_flt y 0" "\<not> blank (sx_id x)"
  shows "Resolve ae y [se_id m] d' = Inr [(se_id m, plaintext)]"
proof -
  obtain k s where s: "validMasterKey master" "length k = 32" "d' = d @ [s]" "m = secret_meta.truncate s" "se_id s = sx_id x"
    "se_version s = mk_version master" "row_by se_id (se_id s) d = None" "length (se_nonce s) = 12" "length (se_key_nonce s) = 12"
    "se_ciphertext s = ae_seal ae k (se_nonce s) (associatedData s (mk_version master)) plaintext"
    "se_data_key s = ae_seal ae (mk_material master) (se_key_nonce s) (associatedData s (mk_version master)) k"
    using create_secret_Inr [OF assms(1)] assms(3) by (metis option.inject)
  have id: "se_id m = se_id s" using s(4) by (simp add: secret_meta.defs)
  have "\<forall>t \<in> set d. se_id t \<noteq> se_id s" using s(7) unfolding row_by_None by (metis image_eqI)
  then have "filter (\<lambda>t. se_id t \<in> set [se_id s]) d' = [s]" using s(3) by (simp add: filter_empty_conv)
  moreover have "decrypt_secret ae y s = Inr plaintext"
    using s assms(4) aead by (simp add: decrypt_secret_def open_sealed_def aes_key_size_def validMasterKey_def Let_def)
  ultimately show ?thesis
    using assms(5,6) id s(5) by (simp add: Resolve_def load_secrets_def stmt_def)
qed

definition sample_aead :: aead where
  "sample_aead = \<lparr>ae_seal = (\<lambda>k n a p. p), ae_open = (\<lambda>k n a c. Some c)\<rparr>"

definition sample_master :: master_key where
  "sample_master = \<lparr>mk_version = 1, mk_material = replicate 32 CHR ''k''\<rparr>"

definition sample_secret_env :: secret_env where
  "sample_secret_env = \<lparr>sx_now = 5, sx_id = ''id'', sx_creator = ''u'',
     sx_random = (\<lambda>i. Some (replicate (if i = 0 then 32 else 12) CHR ''r'')),
     sx_current = Some sample_master, sx_by_version = (\<lambda>_. Some sample_master), sx_flt = no_faults\<rparr>"

definition sample_secret :: "(secret_error + secret_meta) \<times> stored_secret list" where
  "sample_secret = create_secret sample_aead sample_secret_env ''db'' ''pw'' ScopeUser []"

theorem secret_roundtrip_witness:
  "Resolve sample_aead sample_secret_env [''id''] (snd sample_secret) = Inr [(''id'', ''pw'')]"
proof -
  have "\<not> isl (fst sample_secret)" by code_simp
  then have made: "create_secret sample_aead sample_secret_env ''db'' ''pw'' ScopeUser [] =
      (Inr (projr (fst sample_secret)), snd sample_secret)"
    unfolding sample_secret_def [symmetric] by (cases sample_secret) (simp add: sum.collapse)
  have id: "se_id (projr (fst sample_secret)) = ''id''" "\<not> blank (sx_id sample_secret_env)" by code_simp+
  show ?thesis
    using secret_roundtrip [OF made, of sample_master sample_secret_env] id
    by (simp add: sample_aead_def sample_secret_env_def no_faults_def)
qed

text \<open>Two values of the same length that overlap in the text are masked differently from call to call.\<close>

lemma mask_depends_on_map_order:
  "Mask to_lower id ''abcd'' [''abc'', ''bcd''] = ''******d'' \<and> Mask to_lower rev ''abcd'' [''abc'', ''bcd''] = ''a******''"
  by code_simp

end
