(* ===== verification/Log_Stream.thy ===== *)
theory Log_Stream
  imports Secret_Store Utf8
begin

text \<open>
  Run logs (\<^verbatim>\<open>internal/logstream\<close>, \<^verbatim>\<open>internal/agent/log_client.go\<close>): the agent cuts the output of a
  process into numbered chunks in a spool on its disk, sends what is pending and removes what is
  acknowledged; the central service accepts the chunks of a stream in order, exactly once, after
  masking secrets, and archives the logs of finished runs.

  A directory of the spool is named by digests of the run and the token, the files by the sequence
  number; a file holds the chunk and the length of its JSON encoding. The digest (SHA-256), the
  length of the encoding, the compression of archives and the object store are arguments, as are
  the failures of the disk.
\<close>

section \<open>Chunks\<close>

datatype log_error = ErrInvalidChunk | ErrSequenceGap | ErrChunkConflict | ErrLogStore | ErrTokenMismatch
  | ErrRedaction | ErrSpoolLimitExceeded | ErrSpoolIO | ErrSend | ErrRunNotArchivable | ErrObjectStore
  | ErrRunNotFound

record log_chunk =
  lc_run :: ident
  lc_token :: string
  lc_seq :: nat
  lc_stream :: string
  lc_content :: string
  lc_at :: time

record chunk_row = log_chunk +
  lw_cursor :: int
  lw_received :: time

record archive_row =
  aw_run :: ident
  aw_key :: string
  aw_size :: int
  aw_sha :: string
  aw_first :: time
  aw_last :: time
  aw_at :: time
  aw_cursor :: int
  aw_count :: int

record log_db =
  lg_db :: db
  lg_chunks :: "chunk_row list"
  lg_archives :: "archive_row list"

definition DefaultChunkSize :: nat where
  "DefaultChunkSize = 65536"

definition validStream :: "string \<Rightarrow> bool" where
  "validStream s \<longleftrightarrow> s = ''stdout'' \<or> s = ''stderr'' \<or> s = ''system''"

definition validChunk :: "log_chunk \<Rightarrow> bool" where
  "validChunk c \<longleftrightarrow> \<not> (blank (lc_run c) \<or> blank (lc_token c) \<or> lc_seq c = 0) \<and> validStream (lc_stream c) \<and>
     length (lc_content c) \<le> DefaultChunkSize"

type_synonym log_key = "ident \<times> string \<times> string"

definition key_of :: "'a log_chunk_scheme \<Rightarrow> log_key" where
  "key_of c = (lc_run c, lc_token c, lc_stream c)"

section \<open>The central service\<close>

definition NextSequence :: "faults \<Rightarrow> log_key \<Rightarrow> log_db \<Rightarrow> log_error + nat" where
  "NextSequence flt k d = stmt flt 0 ErrLogStore
     (Inr (foldr max (map lc_seq (filter (\<lambda>r. key_of r = k) (lg_chunks d))) 0 + 1))"

definition find_chunk :: "bool \<Rightarrow> log_chunk \<Rightarrow> log_db \<Rightarrow> log_error + log_chunk option" where
  "find_chunk fails c d = (if fails then Inl ErrLogStore
     else Inr (map_option log_chunk.truncate (find (\<lambda>r. key_of r = key_of c \<and> lc_seq r = lc_seq c) (lg_chunks d))))"

text \<open>
  What one call of \<^verbatim>\<open>Accept\<close> meets: failing statements (0 next sequence, 1 find, 2 insert refused,
  3 the answer of the insert lost, 4 the second find), the configured redaction, the clocks and
  the next value of the cursor column.
\<close>

record accept_env =
  ax_flt :: faults
  ax_values :: "(ident \<Rightarrow> string \<Rightarrow> secret_error + string list) option"
  ax_mask :: "string \<Rightarrow> string list \<Rightarrow> string"
  ax_now :: time
  ax_received :: time
  ax_cursor :: int

text \<open>A text column takes no zero byte and a bigint no number from \<open>2 ^ 63\<close> on.\<close>

definition insert_chunk :: "accept_env \<Rightarrow> log_chunk \<Rightarrow> log_db \<Rightarrow> log_error option \<times> log_db" where
  "insert_chunk x c d =
     (if ax_flt x 2 \<or> CHR 0x00 \<in> set (lc_content c) \<or> lc_seq c \<ge> 2 ^ 63 then (Some ErrLogStore, d)
      else if \<not> list_ex (\<lambda>r. tr_id r = lc_run c \<and> tr_token r = Some (lc_token c)) (db_runs (lg_db d))
      then (Some ErrTokenMismatch, d)
      else if list_ex (\<lambda>r. key_of r = key_of c \<and> lc_seq r = lc_seq c) (lg_chunks d) then (Some ErrLogStore, d)
      else (if ax_flt x 3 then Some ErrLogStore else None,
            d\<lparr>lg_chunks := lg_chunks d @ [log_chunk.extend c (chunk_row.fields (ax_cursor x) (ax_received x))]\<rparr>))"

definition redact :: "accept_env \<Rightarrow> log_chunk \<Rightarrow> log_error + string" where
  "redact x c =
     (case ax_values x of
        None \<Rightarrow> Inr (lc_content c)
      | Some values \<Rightarrow>
          (case values (lc_run c) (lc_token c) of
             Inl e \<Rightarrow> Inl ErrRedaction
           | Inr vs \<Rightarrow> Inr (ax_mask x (lc_content c) vs)))"

definition accept_redacted :: "accept_env \<Rightarrow> log_chunk \<Rightarrow> log_db \<Rightarrow> (log_error + nat) \<times> log_db" where
  "accept_redacted x c d =
     (case NextSequence (ax_flt x) (key_of c) d of
        Inl e \<Rightarrow> (Inl e, d)
      | Inr n \<Rightarrow>
          if lc_seq c > n then (Inl ErrSequenceGap, d)
          else if lc_seq c < n
          then (case find_chunk (ax_flt x 1) c d of
                  Inl e \<Rightarrow> (Inl e, d)
                | Inr None \<Rightarrow> (Inl ErrChunkConflict, d)
                | Inr (Some s) \<Rightarrow> if lc_content s \<noteq> lc_content c then (Inl ErrChunkConflict, d) else (Inr n, d))
          else (case insert_chunk x c d of
                  (None, d1) \<Rightarrow> (Inr (n + 1), d1)
                | (Some e, d1) \<Rightarrow>
                    (case find_chunk (ax_flt x 4) c d1 of
                       Inr (Some s) \<Rightarrow> if lc_content s = lc_content c then (Inr (n + 1), d1) else (Inl e, d1)
                     | _ \<Rightarrow> (Inl e, d1))))"

definition Accept :: "accept_env \<Rightarrow> log_chunk \<Rightarrow> log_db \<Rightarrow> (log_error + nat) \<times> log_db" where
  "Accept x c d =
     (if \<not> validChunk c then (Inl ErrInvalidChunk, d)
      else
        (let c1 = (if is_zero_time (lc_at c) then c\<lparr>lc_at := ax_now x\<rparr> else c) in
         case redact x c1 of
           Inl e \<Rightarrow> (Inl e, d)
         | Inr content \<Rightarrow> accept_redacted x (c1\<lparr>lc_content := content\<rparr>) d))"

section \<open>The spool\<close>

record spool_file =
  sf_chunk :: log_chunk
  sf_size :: int

record spool_dir =
  sd_path :: "string \<times> string \<times> string"
  sd_cursor :: "string option"
  sd_files :: "(string \<times> spool_file) list"

record spool =
  so_chunk_size :: nat
  so_max :: int
  so_used :: int
  so_dirs :: "spool_dir list"

definition DefaultSpoolMaxBytes :: int where
  "DefaultSpoolMaxBytes = 536870912"

definition directory :: "(string \<Rightarrow> string) \<Rightarrow> log_key \<Rightarrow> string \<times> string \<times> string" where
  "directory digest k = (case k of (run, token, stream) \<Rightarrow> (digest run, digest token, stream))"

text \<open>File names: \<^verbatim>\<open>%020d.json\<close>.\<close>

definition file_name :: "nat \<Rightarrow> string" where
  "file_name n = replicate (20 - length (show_nat n)) CHR ''0'' @ show_nat n @ ''.json''"

definition sequenceFromName :: "string \<Rightarrow> nat option" where
  "sequenceFromName name =
     (if \<not> suffix ''.json'' name then None
      else (case parse_uint64 (take (length name - 5) name) of
              Some n \<Rightarrow> if n > 0 then Some n else None
            | None \<Rightarrow> None))"

definition chunk_files :: "spool_dir \<Rightarrow> (string \<times> spool_file) list" where
  "chunk_files dir = filter (\<lambda>(name, f). sequenceFromName name \<noteq> None) (sd_files dir)"

definition bufferedBytes :: "spool_dir list \<Rightarrow> int" where
  "bufferedBytes dirs = sum_list (map (\<lambda>(name, f). sf_size f) (concat (map chunk_files dirs)))"

text \<open>A new spool on a disk that may hold directories of an earlier process; \<open>root\<close> is its path. Creating the
  directory (0) and measuring it (1) may fail.\<close>

definition NewSpool :: "faults \<Rightarrow> string \<Rightarrow> nat \<Rightarrow> int \<Rightarrow> spool_dir list \<Rightarrow> log_error + spool" where
  "NewSpool io root chunkSize maxBytes dirs =
     (if blank root \<or> chunkSize = 0 \<or> chunkSize > DefaultChunkSize then Inl ErrInvalidChunk
      else if io 0 then Inl ErrSpoolIO
      else if maxBytes \<le> 0 then Inl ErrInvalidChunk
      else if io 1 then Inl ErrSpoolIO
      else Inr \<lparr>so_chunk_size = chunkSize, so_max = maxBytes, so_used = bufferedBytes dirs, so_dirs = dirs\<rparr>)"

definition dir_at :: "string \<times> string \<times> string \<Rightarrow> spool \<Rightarrow> spool_dir option" where
  "dir_at path s = row_by sd_path path (so_dirs s)"

definition mkdir :: "string \<times> string \<times> string \<Rightarrow> spool \<Rightarrow> spool" where
  "mkdir path s = (case dir_at path s of Some _ \<Rightarrow> s
     | None \<Rightarrow> s\<lparr>so_dirs := so_dirs s @ [\<lparr>sd_path = path, sd_cursor = None, sd_files = []\<rparr>]\<rparr>)"

definition change_dir :: "string \<times> string \<times> string \<Rightarrow> (spool_dir \<Rightarrow> spool_dir) \<Rightarrow> spool \<Rightarrow> spool" where
  "change_dir path f s = s\<lparr>so_dirs := update_where (\<lambda>d. sd_path d = path) f (so_dirs s)\<rparr>"

definition pending_at :: "string \<times> string \<times> string \<Rightarrow> spool \<Rightarrow> log_chunk list" where
  "pending_at path s = (case dir_at path s of None \<Rightarrow> []
     | Some d \<Rightarrow> slice_stable (\<lambda>a b. lc_seq a < lc_seq b) (map (sf_chunk \<circ> snd) (chunk_files d)))"

definition u64 :: "nat \<Rightarrow> nat" where
  "u64 n = n mod 2 ^ 64"

definition spool_next :: "bool \<Rightarrow> string option \<Rightarrow> log_chunk list \<Rightarrow> log_error + nat" where
  "spool_next fails cursor pending =
     (if fails then Inl ErrSpoolIO
      else (case cursor of
        Some body \<Rightarrow>
          (case parse_uint64 (trim_space body) of
             None \<Rightarrow> Inl ErrInvalidChunk
           | Some next \<Rightarrow>
               if next = 0 then Inl ErrInvalidChunk
               else if pending \<noteq> [] \<and> next \<le> lc_seq (last pending) then Inr (u64 (lc_seq (last pending) + 1))
               else Inr next)
      | None \<Rightarrow> if pending \<noteq> [] then Inr (u64 (lc_seq (last pending) + 1)) else Inr 1))"

text \<open>Cutting: back to the start of a rune if there is one.\<close>

definition rune_start :: "char \<Rightarrow> bool" where
  "rune_start c \<longleftrightarrow> \<not> cont (of_char c)"

fun back_off :: "string \<Rightarrow> nat \<Rightarrow> nat" where
  "back_off s 0 = 0"
| "back_off s (Suc l) = (if Suc l < length s \<and> \<not> rune_start (s ! Suc l) then back_off s l else Suc l)"

definition cut_length :: "nat \<Rightarrow> string \<Rightarrow> nat" where
  "cut_length n s = (let m = min (length s) n; l = back_off s m in if l = 0 then m else l)"

lemma back_off_le: "back_off s l \<le> l"
  by (induction l) auto

lemma cut_length_pos: "0 < n \<Longrightarrow> s \<noteq> [] \<Longrightarrow> 0 < cut_length n s"
  by (auto simp: cut_length_def Let_def)

function split_content :: "nat \<Rightarrow> string \<Rightarrow> string list" where
  "split_content n s = (if s = [] \<or> n = 0 then [] else take (cut_length n s) s # split_content n (drop (cut_length n s) s))"
  by pat_completeness auto
termination
proof (relation "measure (\<lambda>(n, s). length s)")
  fix n :: nat and s :: string
  assume "\<not> (s = [] \<or> n = 0)"
  then show "((n, drop (cut_length n s) s), (n, s)) \<in> measure (\<lambda>(n, s). length s)"
    using cut_length_pos [of n s] by (cases s) auto
qed simp

declare split_content.simps [simp del]

text \<open>\<^verbatim>\<open>strings.ToValidUTF8(s, "\<close>U+FFFD\<^verbatim>\<open>")\<close>: a run of malformed bytes becomes one replacement.\<close>

function valid_from :: "bool \<Rightarrow> string \<Rightarrow> string" where
  "valid_from bad s =
     (if s = [] then []
      else (let w = snd (decode_rune s) in
            if \<not> byte_at s 0 < 128 \<and> w = 1
            then (if bad then [] else encode_scalar rune_error) @ valid_from True (tl s)
            else take w s @ valid_from False (drop w s)))"
  by pat_completeness auto
termination
proof (relation "measure (\<lambda>(bad, s). length s)")
  fix s :: string and w :: nat
  assume "s \<noteq> []" "w = snd (decode_rune s)"
  then show "((False, drop w s), (bad, s)) \<in> measure (\<lambda>(bad, s). length s)" for bad
    using decode_size [of s] by (cases s) auto
qed auto

declare valid_from.simps [simp del]

definition to_valid_utf8 :: "string \<Rightarrow> string" where
  "to_valid_utf8 s = valid_from False s"

fun number_chunks :: "log_key \<Rightarrow> (nat \<Rightarrow> time) \<Rightarrow> nat \<Rightarrow> string list \<Rightarrow> log_chunk list" where
  "number_chunks k now next [] = []"
| "number_chunks k now next (p # ps) =
     (case k of (run, token, stream) \<Rightarrow>
        \<lparr>lc_run = run, lc_token = token, lc_seq = next, lc_stream = stream, lc_content = to_valid_utf8 p, lc_at = now next\<rparr>)
     # number_chunks k now (u64 (next + 1)) ps"

definition write_chunk :: "string \<times> string \<times> string \<Rightarrow> (log_chunk \<Rightarrow> int) \<Rightarrow> log_chunk \<Rightarrow> spool \<Rightarrow> spool" where
  "write_chunk path enc c s =
     (change_dir path (\<lambda>d. d\<lparr>sd_files := AList.update (file_name (lc_seq c)) \<lparr>sf_chunk = c, sf_size = enc c\<rparr> (sd_files d)\<rparr>)
       (mkdir path s))\<lparr>so_used := so_used s + enc c\<rparr>"

text \<open>Writing stops at the first failure; what is written stays.\<close>

fun write_chunks :: "faults \<Rightarrow> nat \<Rightarrow> string \<times> string \<times> string \<Rightarrow> (log_chunk \<Rightarrow> int) \<Rightarrow> log_chunk list \<Rightarrow> spool \<Rightarrow>
    bool \<times> spool" where
  "write_chunks io k path enc [] s = (True, s)"
| "write_chunks io k path enc (c # cs) s =
     (if io k then (False, mkdir path s) else write_chunks io (k + 1) path enc cs (write_chunk path enc c s))"

text \<open>The cursor file is removed and then replaced: a failure may come before, between or not at all.\<close>

definition writeSequenceCursor :: "bool \<Rightarrow> bool \<Rightarrow> string \<times> string \<times> string \<Rightarrow> nat \<Rightarrow> spool \<Rightarrow> bool \<times> spool" where
  "writeSequenceCursor before between path next s =
     (let s1 = mkdir path s in
      if before then (False, s1)
      else if between then (False, change_dir path (\<lambda>d. d\<lparr>sd_cursor := None\<rparr>) s1)
      else (True, change_dir path (\<lambda>d. d\<lparr>sd_cursor := Some (show_nat next)\<rparr>) s1))"

text \<open>The outside of an append: the clock by sequence number, the length of the JSON encoding, and failing disk
  operations: 0 reading, 1 the cursor, 2 and 3 writing the cursor, from 4 on the chunks.\<close>

record spool_env =
  pe_now :: "nat \<Rightarrow> time"
  pe_enc :: "log_chunk \<Rightarrow> int"
  pe_io :: faults

definition spool_append :: "(string \<Rightarrow> string) \<Rightarrow> spool_env \<Rightarrow> log_key \<Rightarrow> string \<Rightarrow> spool \<Rightarrow>
    (log_error + log_chunk list) \<times> spool" where
  "spool_append digest x k content s =
     (case k of (run, token, stream) \<Rightarrow>
        if blank run \<or> blank token \<or> \<not> validStream stream then (Inl ErrInvalidChunk, s)
        else if pe_io x 0 then (Inl ErrSpoolIO, s)
        else
          (let path = directory digest k; cursor = (case dir_at path s of None \<Rightarrow> None | Some d \<Rightarrow> sd_cursor d) in
           case spool_next (pe_io x 1) cursor (pending_at path s) of
             Inl e \<Rightarrow> (Inl e, s)
           | Inr next \<Rightarrow>
               (let pieces = split_content (so_chunk_size s) content;
                    result = number_chunks k (pe_now x) next pieces;
                    bytes = sum_list (map (pe_enc x) result)
                in if result \<noteq> [] \<and> (so_used s \<ge> so_max s \<or> bytes > so_max s - so_used s)
                   then (Inl ErrSpoolLimitExceeded, s)
                   else (case write_chunks (pe_io x) 4 path (pe_enc x) result s of
                           (False, s1) \<Rightarrow> (Inl ErrSpoolIO, s1)
                         | (True, s1) \<Rightarrow>
                             if result = [] then (Inr result, s1)
                             else (case writeSequenceCursor (pe_io x 2) (pe_io x 3) path (u64 (next + length result)) s1 of
                                     (False, s2) \<Rightarrow> (Inl ErrSpoolIO, s2)
                                   | (True, s2) \<Rightarrow> (Inr result, s2))))))"

definition Pending :: "(string \<Rightarrow> string) \<Rightarrow> bool \<Rightarrow> log_key \<Rightarrow> spool \<Rightarrow> log_error + log_chunk list" where
  "Pending digest fails k s =
     (case k of (run, token, stream) \<Rightarrow>
        if blank run \<or> blank token \<or> \<not> validStream stream then Inl ErrInvalidChunk
        else if fails then Inl ErrSpoolIO else Inr (pending_at (directory digest k) s))"

definition chunk_less :: "log_chunk \<Rightarrow> log_chunk \<Rightarrow> bool" where
  "chunk_less a b =
     (if lc_run a \<noteq> lc_run b then lc_run a < lc_run b
      else if lc_token a \<noteq> lc_token b then lc_token a < lc_token b
      else if lc_seq a \<noteq> lc_seq b then lc_seq a < lc_seq b
      else if lc_stream a \<noteq> lc_stream b then lc_stream a < lc_stream b
      else lc_at a < lc_at b)"

definition AllPending :: "bool \<Rightarrow> spool \<Rightarrow> log_error + log_chunk list" where
  "AllPending fails s = (if fails then Inl ErrSpoolIO
     else Inr (slice_stable chunk_less (map (sf_chunk \<circ> snd) (concat (map chunk_files (so_dirs s))))))"

text \<open>Acknowledged files go one by one; a failing removal stops.\<close>

fun remove_acked :: "faults \<Rightarrow> nat \<Rightarrow> nat \<Rightarrow> (string \<times> spool_file) list \<Rightarrow> int \<Rightarrow> bool \<times> (string \<times> spool_file) list \<times> int" where
  "remove_acked io k next [] used = (True, [], used)"
| "remove_acked io k next ((name, f) # fs) used =
     (case sequenceFromName name of
        Some n \<Rightarrow>
          if n \<ge> next then (case remove_acked io (k + 1) next fs used of (ok, rest, u) \<Rightarrow> (ok, (name, f) # rest, u))
          else if io k then (False, (name, f) # fs, used)
          else remove_acked io (k + 1) next fs (max 0 (used - sf_size f))
      | None \<Rightarrow> (case remove_acked io (k + 1) next fs used of (ok, rest, u) \<Rightarrow> (ok, (name, f) # rest, u)))"

definition Acknowledge :: "(string \<Rightarrow> string) \<Rightarrow> faults \<Rightarrow> log_key \<Rightarrow> nat \<Rightarrow> spool \<Rightarrow> (log_error + unit) \<times> spool" where
  "Acknowledge digest io k next s =
     (case k of (run, token, stream) \<Rightarrow>
        if blank run \<or> blank token \<or> \<not> validStream stream \<or> next = 0 then (Inl ErrInvalidChunk, s)
        else (let path = directory digest k in
              case dir_at path s of
                None \<Rightarrow> (Inr (), s)
              | Some d \<Rightarrow>
                  if io 0 then (Inl ErrSpoolIO, s)
                  else (case remove_acked io 1 next (sd_files d) (so_used s) of
                          (ok, fs, used) \<Rightarrow>
                            (if ok then Inr () else Inl ErrSpoolIO,
                             (change_dir path (\<lambda>d. d\<lparr>sd_files := fs\<rparr>) s)\<lparr>so_used := used\<rparr>))))"

section \<open>The client\<close>

text \<open>\<open>send\<close> is the transport: it may change the other side, and answers with the next sequence number or fails.\<close>

fun send_chunks :: "(string \<Rightarrow> string) \<Rightarrow> (nat \<Rightarrow> log_chunk \<Rightarrow> 's \<Rightarrow> nat option \<times> 's) \<Rightarrow> (nat \<Rightarrow> faults) \<Rightarrow> nat \<Rightarrow> log_chunk list \<Rightarrow>
    spool \<times> 's \<Rightarrow> (log_error + unit) \<times> spool \<times> 's" where
  "send_chunks digest send io k [] (s, w) = (Inr (), s, w)"
| "send_chunks digest send io k (c # cs) (s, w) =
     (case send k c w of
        (None, w1) \<Rightarrow> (Inl ErrSend, s, w1)
      | (Some next, w1) \<Rightarrow>
          (case Acknowledge digest (io k) (key_of c) next s of
             (Inl e, s1) \<Rightarrow> (Inl e, s1, w1)
           | (Inr _, s1) \<Rightarrow> send_chunks digest send io (k + 1) cs (s1, w1)))"

definition flush :: "(string \<Rightarrow> string) \<Rightarrow> (nat \<Rightarrow> log_chunk \<Rightarrow> 's \<Rightarrow> nat option \<times> 's) \<Rightarrow> (nat \<Rightarrow> faults) \<Rightarrow> bool \<Rightarrow> spool \<times> 's \<Rightarrow>
    (log_error + unit) \<times> spool \<times> 's" where
  "flush digest send io fails sw =
     (case AllPending fails (fst sw) of Inl e \<Rightarrow> (Inl e, sw) | Inr cs \<Rightarrow> send_chunks digest send io 0 cs sw)"

text \<open>Sending over the socket: the service answers an error by closing the connection, and the acknowledgement may be
  lost on the way; one with the number 0 is refused.\<close>

definition socket_send :: "(nat \<Rightarrow> accept_env) \<Rightarrow> (nat \<Rightarrow> bool) \<Rightarrow> nat \<Rightarrow> log_chunk \<Rightarrow> log_db \<Rightarrow> nat option \<times> log_db" where
  "socket_send env lost k c d =
     (case Accept (env k) c d of
        (Inl e, d1) \<Rightarrow> (None, d1)
      | (Inr next, d1) \<Rightarrow> (if lost k \<or> next = 0 then None else Some next, d1))"

end
