(* ===== verification/Log_Delivery.thy ===== *)
theory Log_Delivery
  imports Log_Stream
begin

text \<open>
  Cutting, numbering and delivery of log chunks: cutting loses nothing, file names and sequence
  numbers correspond, and appending, acknowledging and sending keep the agreement between the
  spool of the agent and the chunks of the centre. The centre as the client of the agent sees it
  is the locale \<open>log_centre\<close>, which the service behind the socket satisfies.
\<close>

declare split_paired_All [simp del] split_paired_Ex [simp del]

section \<open>File names\<close>

lemma decimal_zeros: "decimal_value (replicate k CHR ''0'' @ s) = decimal_value s"
proof -
  have "foldl (\<lambda>n c. 10 * n + digit_value c) 0 (replicate k CHR ''0'') = 0"
    by (induction k) (simp_all add: digit_value_def)
  then show ?thesis by (simp add: decimal_value_def)
qed

lemma parse_show_nat [simp]: "n < 2 ^ 64 \<Longrightarrow> parse_uint64 (show_nat n) = Some n"
  using show_nat_facts [of n] by (simp add: parse_uint64_def digits_only_def)

lemma sequence_of_file_name:
  assumes "0 < n" "n < 2 ^ 64"
  shows "sequenceFromName (file_name n) = Some n"
proof -
  have "take (length (file_name n) - 5) (file_name n) = replicate (20 - length (show_nat n)) CHR ''0'' @ show_nat n"
    by (simp add: file_name_def)
  moreover have "suffix ''.json'' (file_name n)" by (simp add: file_name_def suffix_def)
  moreover have "list_all is_digit (replicate k CHR ''0'')" for k by (induction k) (simp_all add: is_digit_def)
  ultimately show ?thesis
    using assms show_nat_facts [of n]
    by (simp add: sequenceFromName_def parse_uint64_def decimal_zeros digits_only_def)
qed

lemma file_name_inject: "0 < m \<Longrightarrow> m < 2 ^ 64 \<Longrightarrow> 0 < n \<Longrightarrow> n < 2 ^ 64 \<Longrightarrow> file_name m = file_name n \<Longrightarrow> m = n"
  by (metis option.inject sequence_of_file_name)

lemma digits_not_blank:
  assumes "list_all is_digit s"
  shows "trim_space s = s"
proof -
  have no: "strip_front es t = t" if es: "list_all (\<lambda>e. \<not> is_digit (hd e)) es" and t: "list_all is_digit t" for es t
  proof -
    have "\<not> (e \<noteq> [] \<and> prefix e t)" if "e \<in> set es" for e
      using es t that by (cases e; cases t) (auto simp: list_all_iff)
    then have "find (\<lambda>e. e \<noteq> [] \<and> prefix e t) es = None" by (simp add: find_None_iff)
    then show ?thesis by (subst strip_front.simps) simp
  qed
  have sp: "list_all (\<lambda>e. \<not> is_digit (hd e)) go_spaces" "list_all (\<lambda>e. \<not> is_digit (hd e)) (map rev go_spaces)"
    by code_simp+
  have "strip_front go_spaces s = s" by (rule no [OF sp(1) assms])
  moreover have "strip_front (map rev go_spaces) (rev s) = rev s" by (rule no [OF sp(2)]) (use assms in simp)
  ultimately show ?thesis by (simp add: trim_space_def trim_left_def trim_right_def)
qed

lemma parse_cursor: "n < 2 ^ 64 \<Longrightarrow> parse_uint64 (trim_space (show_nat n)) = Some n"
  using show_nat_facts [of n] by (simp add: digits_not_blank digits_only_def)

section \<open>Cutting\<close>

lemma cut_length_le: "cut_length n s \<le> n" "cut_length n s \<le> length s"
  using back_off_le [of s "min (length s) n"] by (auto simp: cut_length_def Let_def)

lemma split_content_step:
  "s \<noteq> [] \<Longrightarrow> 0 < n \<Longrightarrow> split_content n s = take (cut_length n s) s # split_content n (drop (cut_length n s) s)"
  by (subst split_content.simps) simp

lemma split_content_Nil [simp]: "split_content n [] = []"
  by (subst split_content.simps) simp

lemma concat_split: "0 < n \<Longrightarrow> concat (split_content n s) = s"
proof (induction n s rule: split_content.induct)
  case (1 n s)
  then show ?case by (cases "s = []") (simp_all add: split_content_step)
qed

lemma split_size: "0 < n \<Longrightarrow> p \<in> set (split_content n s) \<Longrightarrow> length p \<le> n \<and> p \<noteq> []"
proof (induction n s rule: split_content.induct)
  case (1 n s)
  show ?case
  proof (cases "s = []")
    case False
    then show ?thesis
      using 1 cut_length_le [of n s] cut_length_pos [of n s] by (auto simp: split_content_step)
  qed (use 1 in simp)
qed

definition utf8 :: "rune list \<Rightarrow> string" where
  "utf8 rs = concat (map encode_scalar rs)"

lemma utf8_simps [simp]: "utf8 [] = []" "utf8 (r # rs) = encode_scalar r @ utf8 rs" "utf8 (rs @ qs) = utf8 rs @ utf8 qs"
  by (simp_all add: utf8_def)

lemma encode_length: "1 \<le> length (encode_scalar r) \<and> length (encode_scalar r) \<le> 4"
  by (simp add: encode_scalar_def)

lemma encode_inner:
  assumes "scalar r" "0 < i" "i < length (encode_scalar r)"
  shows "\<not> rune_start (encode_scalar r ! i)"
proof -
  have "x < 64 \<Longrightarrow> cont (of_char (char_of (128 + x) :: char))" for x :: nat by (simp add: cont_def)
  then have "\<forall>c \<in> set (tl (encode_scalar r)). \<not> rune_start c"
    by (auto simp: encode_scalar_def rune_start_def)
  moreover have "encode_scalar r ! i \<in> set (tl (encode_scalar r))"
    using assms(2,3) by (cases "encode_scalar r"; cases i) auto
  ultimately show ?thesis by blast
qed

lemma utf8_boundary:
  assumes "list_all scalar rs" "l \<le> length (utf8 rs)" "l = length (utf8 rs) \<or> rune_start (utf8 rs ! l)"
  shows "\<exists>qs ts. rs = qs @ ts \<and> take l (utf8 rs) = utf8 qs"
  using assms
proof (induction rs arbitrary: l)
  case (Cons r rs)
  let ?e = "encode_scalar r"
  consider "l = 0" | "0 < l" "l < length ?e" | "length ?e \<le> l" by linarith
  then show ?case
  proof cases
    case 1
    then show ?thesis by (rule_tac x = "[]" in exI) simp
  next
    case 2
    then have "utf8 (r # rs) ! l = ?e ! l" "l \<noteq> length (utf8 (r # rs))" by (auto simp: nth_append)
    then show ?thesis using Cons.prems encode_inner [of r l] 2 by auto
  next
    case 3
    have "l - length ?e = length (utf8 rs) \<or> rune_start (utf8 rs ! (l - length ?e))" "l - length ?e \<le> length (utf8 rs)"
      using Cons.prems(2,3) 3 by (auto simp: nth_append)
    then obtain qs ts where q: "rs = qs @ ts" "take (l - length ?e) (utf8 rs) = utf8 qs"
      using Cons.IH [of "l - length ?e"] Cons.prems(1) by auto
    then show ?thesis using 3 by (rule_tac x = "r # qs" in exI) simp
  qed
qed simp

lemma back_off_stops: "back_off s l = 0 \<or> back_off s l = length s \<or> length s < back_off s l \<or> rune_start (s ! back_off s l)"
  by (induction l) auto

lemma back_off_least: "b \<le> l \<Longrightarrow> 0 < b \<Longrightarrow> b = length s \<or> rune_start (s ! b) \<Longrightarrow> b \<le> back_off s l"
proof (induction l)
  case (Suc l)
  then show ?case by (cases "b = Suc l") (auto simp: le_Suc_eq)
qed simp

lemma back_off_pos:
  assumes "list_all scalar rs" "rs \<noteq> []" "4 \<le> n"
  shows "0 < back_off (utf8 rs) (min (length (utf8 rs)) n)"
proof -
  obtain r qs where rs: "rs = r # qs" using assms(2) by (cases rs) auto
  have e: "1 \<le> length (encode_scalar r)" "length (encode_scalar r) \<le> 4" using encode_length by auto
  have "length (encode_scalar r) = length (utf8 rs) \<or> rune_start (utf8 rs ! length (encode_scalar r))"
  proof (cases qs)
    case (Cons q ts)
    have first: "rune_start (encode_scalar q ! 0)" using Cons assms(1) rs
      by (auto simp: encode_scalar_def rune_start_def cont_def scalar_def)
    show ?thesis using first rs Cons encode_length [of q] by (simp add: nth_append)
  qed (simp add: rs)
  then have "length (encode_scalar r) \<le> back_off (utf8 rs) (min (length (utf8 rs)) n)"
    using e assms(3) rs by (intro back_off_least) auto
  then show ?thesis using e by linarith
qed

lemma cut_boundary:
  assumes "list_all scalar rs" "rs \<noteq> []" "4 \<le> n"
  shows "\<exists>qs ts. rs = qs @ ts \<and> take (cut_length n (utf8 rs)) (utf8 rs) = utf8 qs \<and> drop (cut_length n (utf8 rs)) (utf8 rs) = utf8 ts"
proof -
  let ?l = "back_off (utf8 rs) (min (length (utf8 rs)) n)"
  have pos: "0 < ?l" by (rule back_off_pos [OF assms])
  then have cut: "cut_length n (utf8 rs) = ?l" by (simp add: cut_length_def Let_def)
  have le: "?l \<le> length (utf8 rs)" using back_off_le [of "utf8 rs" "min (length (utf8 rs)) n"] by linarith
  then have "?l = length (utf8 rs) \<or> rune_start (utf8 rs ! ?l)"
    using back_off_stops [of "utf8 rs" "min (length (utf8 rs)) n"] pos by linarith
  then obtain qs ts where q: "rs = qs @ ts" "take ?l (utf8 rs) = utf8 qs" using utf8_boundary [OF assms(1) le] by blast
  have "drop ?l (utf8 rs) = utf8 ts"
    using q append_take_drop_id [of ?l "utf8 rs"] by simp
  then show ?thesis using q cut by metis
qed

lemma split_utf8:
  "list_all scalar rs \<Longrightarrow> 4 \<le> n \<Longrightarrow> \<forall>p \<in> set (split_content n (utf8 rs)). \<exists>qs. list_all scalar qs \<and> p = utf8 qs"
proof (induction "length rs" arbitrary: rs rule: less_induct)
  case less
  show ?case
  proof (cases "rs = []")
    case False
    then obtain qs ts where q: "rs = qs @ ts" "take (cut_length n (utf8 rs)) (utf8 rs) = utf8 qs"
      "drop (cut_length n (utf8 rs)) (utf8 rs) = utf8 ts" using cut_boundary less.prems by blast
    have ne: "utf8 rs \<noteq> []" using False by (cases rs) auto
    then have "utf8 qs \<noteq> []" using cut_length_pos [of n "utf8 rs"] less.prems(2) q(2) by auto
    then have "length ts < length rs" using q(1) by (cases qs) auto
    then have "\<forall>p \<in> set (split_content n (utf8 ts)). \<exists>qs. list_all scalar qs \<and> p = utf8 qs"
      using less.hyps [of ts] less.prems q(1) by simp
    then show ?thesis using q less.prems ne by (auto simp: split_content_step)
  qed simp
qed

lemma valid_from_utf8: "list_all scalar rs \<Longrightarrow> valid_from bad (utf8 rs) = utf8 rs"
proof (induction rs arbitrary: bad)
  case (Cons r rs)
  have d: "decode_rune (utf8 (r # rs)) = (r, length (encode_scalar r))" using Cons.prems decode_encode by simp
  have "length (encode_scalar r) = 1 \<Longrightarrow> byte_at (utf8 (r # rs)) 0 < 128"
    by (auto simp: encode_scalar_def byte_at_def split: if_splits)
  then show ?case using d Cons by (subst valid_from.simps) (auto simp: Let_def)
qed (simp add: valid_from.simps)

section \<open>What the centre stores\<close>

definition rows_of :: "log_db \<Rightarrow> log_key \<Rightarrow> chunk_row list" where
  "rows_of d k = filter (\<lambda>r. key_of r = k) (lg_chunks d)"

definition stored :: "log_db \<Rightarrow> log_key \<Rightarrow> string list" where
  "stored d k = map lc_content (rows_of d k)"

definition contiguous :: "log_db \<Rightarrow> bool" where
  "contiguous d \<longleftrightarrow> (\<forall>k. map lc_seq (rows_of d k) = [1..<Suc (length (stored d k))])"

lemma contiguousD: "contiguous d \<Longrightarrow> map lc_seq (rows_of d k) = [1..<Suc (length (stored d k))]"
  unfolding contiguous_def by (rule spec)

lemma length_stored [simp]: "length (map lc_seq (rows_of d k)) = length (stored d k)"
  by (simp add: stored_def)

lemma foldr_max_upt: "foldr max [1..<Suc n] a = max n a"
  by (induction n arbitrary: a) auto

lemma next_sequence:
  "contiguous d \<Longrightarrow> NextSequence flt k d = (if flt 0 then Inl ErrLogStore else Inr (Suc (length (stored d k))))"
  unfolding NextSequence_def stmt_def rows_of_def [symmetric] contiguousD foldr_max_upt by simp

lemma find_filter: "find (\<lambda>x. P x \<and> Q x) xs = find Q (filter P xs)"
  by (induction xs) auto

lemma find_seq: "map f xs = [1..<Suc n] \<Longrightarrow> 0 < i \<Longrightarrow> i \<le> n \<Longrightarrow> find (\<lambda>x. f x = i) xs = Some (xs ! (i - 1))"
proof -
  assume m: "map f xs = [1..<Suc n]" and i: "0 < i" "i \<le> n"
  have n: "length xs = n" using arg_cong [OF m, of length] by simp
  have f: "f (xs ! j) = Suc j" if "j < n" for j using arg_cong [OF m, of "\<lambda>l. l ! j"] that n by (simp del: upt_Suc)
  show ?thesis unfolding find_Some_iff using i n f by (intro exI [of _ "i - 1"]) auto
qed

lemma find_chunk_at:
  assumes "contiguous d" "0 < lc_seq c" "lc_seq c \<le> length (stored d (key_of c))"
  shows "find_chunk False c d = Inr (Some (log_chunk.truncate (rows_of d (key_of c) ! (lc_seq c - 1))))"
  using find_seq [OF contiguousD [OF assms(1)] assms(2,3)]
  by (simp add: find_chunk_def find_filter rows_of_def)

lemma insert_chunk_db:
  assumes "contiguous d" "insert_chunk x c d = (e, d')" "lc_seq c = Suc (length (stored d (key_of c)))"
  shows "d' = d \<and> e \<noteq> None \<or>
    contiguous d' \<and> stored d' = (stored d)(key_of c := stored d (key_of c) @ [lc_content c]) \<and> lg_db d' = lg_db d"
proof (cases "d' = d")
  case True
  have "d\<lparr>lg_chunks := lg_chunks d @ [r]\<rparr> \<noteq> d" for r
    by (rule notI) (drule arg_cong [where f = lg_chunks], simp)
  then show ?thesis using assms(2) True unfolding insert_chunk_def by (auto split: if_splits)
next
  case False
  let ?r = "log_chunk.extend c (chunk_row.fields (ax_cursor x) (ax_received x)) :: chunk_row"
  have d': "d' = d\<lparr>lg_chunks := lg_chunks d @ [?r]\<rparr>" using assms(2) False by (auto simp: insert_chunk_def split: if_splits)
  have r: "key_of ?r = key_of c" "lc_seq ?r = lc_seq c" "lc_content ?r = lc_content c"
    by (simp_all add: key_of_def log_chunk.defs chunk_row.defs)
  have rows: "rows_of d' k = (if k = key_of c then rows_of d k @ [?r] else rows_of d k)" for k
    using r(1) by (simp add: d' rows_of_def)
  have st: "stored d' = (stored d)(key_of c := stored d (key_of c) @ [lc_content c])"
    using r(3) by (auto simp: stored_def rows fun_eq_iff)
  moreover have "contiguous d'"
    unfolding contiguous_def
  proof
    fix k
    have "map lc_seq (rows_of d k) = [1..<Suc (length (stored d k))]" by (rule contiguousD [OF assms(1)])
    then show "map lc_seq (rows_of d' k) = [1..<Suc (length (stored d' k))]"
      using r(2) assms(3) by (cases "k = key_of c") (simp_all add: rows st)
  qed
  ultimately show ?thesis by (simp add: d')
qed

definition redacted :: "accept_env \<Rightarrow> log_chunk \<Rightarrow> log_chunk \<Rightarrow> bool" where
  "redacted x c c' \<longleftrightarrow> redact x c = Inr (lc_content c') \<and> key_of c' = key_of c \<and> lc_seq c' = lc_seq c"

lemma Accept_cases:
  assumes "Accept x c d = (res, d')"
  obtains "d' = d" "\<exists>e. res = Inl e" | c' where "validChunk c" "redacted x c c'" "accept_redacted x c' d = (res, d')"
proof -
  let ?c = "if is_zero_time (lc_at c) then c\<lparr>lc_at := ax_now x\<rparr> else c"
  have "redact x ?c = redact x c" by (simp add: redact_def split: option.split sum.split)
  then consider "d' = d" "\<exists>e. res = Inl e" |
    r where "validChunk c" "redact x c = Inr r" "accept_redacted x (?c\<lparr>lc_content := r\<rparr>) d = (res, d')"
    using assms by (cases "validChunk c"; cases "redact x c") (auto simp: Accept_def Let_def)
  then show ?thesis
  proof cases
    case 1
    then show ?thesis by (rule that(1))
  next
    case (2 r)
    show ?thesis by (rule that(2) [OF 2(1) _ 2(3)]) (simp add: redacted_def 2(2) key_of_def)
  qed
qed

lemma accept_redacted_db:
  assumes "contiguous d" "accept_redacted x c d = (res, d')"
  shows "contiguous d' \<and> lg_db d' = lg_db d \<and>
    (d' = d \<or> lc_seq c = Suc (length (stored d (key_of c))) \<and>
       stored d' = (stored d)(key_of c := stored d (key_of c) @ [lc_content c])) \<and>
    (\<forall>n. res = Inr n \<longrightarrow> n = Suc (length (stored d' (key_of c))))"
proof -
  let ?n = "Suc (length (stored d (key_of c)))"
  have next_n: "NextSequence (ax_flt x) (key_of c) d = (if ax_flt x 0 then Inl ErrLogStore else Inr ?n)"
    by (rule next_sequence [OF assms(1)])
  show ?thesis
  proof (cases "ax_flt x 0 \<or> lc_seq c \<noteq> ?n")
    case True
    then show ?thesis
      using assms next_n by (auto simp: accept_redacted_def split: if_splits sum.splits option.splits)
  next
    case False
    obtain e d1 where ins: "insert_chunk x c d = (e, d1)" by fastforce
    have d1: "d' = d1" "\<forall>n. res = Inr n \<longrightarrow> n = Suc ?n \<and> (e = None \<or> (\<exists>s. find_chunk (ax_flt x 4) c d1 = Inr (Some s)))"
      using assms(2) next_n False ins
      by (auto simp: accept_redacted_def split: option.splits sum.splits if_splits)
    have db: "d1 = d \<and> e \<noteq> None \<or>
      contiguous d1 \<and> stored d1 = (stored d)(key_of c := stored d (key_of c) @ [lc_content c]) \<and> lg_db d1 = lg_db d"
      by (rule insert_chunk_db [OF assms(1) ins]) (use False in simp)
    have "find_chunk f c d \<noteq> Inr (Some s)" for f s
    proof
      assume "find_chunk f c d = Inr (Some s)"
      then have "find (\<lambda>r. key_of r = key_of c \<and> lc_seq r = lc_seq c) (lg_chunks d) \<noteq> None"
        by (auto simp: find_chunk_def split: if_splits)
      then obtain r where "r \<in> set (rows_of d (key_of c))" "lc_seq r = lc_seq c"
        unfolding find_None_iff rows_of_def by auto
      then have "lc_seq c \<in> set [1..<?n]" using contiguousD [OF assms(1)] by (metis image_eqI set_map)
      then show False using False by (simp del: upt_Suc)
    qed
    then show ?thesis using db d1 False assms(1) by (elim disjE) auto
  qed
qed

section \<open>The spool and the centre together\<close>

definition base_dir :: "string \<times> string \<times> string \<Rightarrow> spool \<Rightarrow> spool_dir" where
  "base_dir p s = (case dir_at p s of Some d \<Rightarrow> d | None \<Rightarrow> \<lparr>sd_path = p, sd_cursor = None, sd_files = []\<rparr>)"

lemma dir_at_mkdir: "dir_at q (mkdir p s) = (if q = p then Some (base_dir p s) else dir_at q s)"
  by (cases "dir_at p s") (auto simp: mkdir_def base_dir_def dir_at_def row_by_append split: option.split)

lemma dir_at_change:
  assumes "\<And>d. sd_path (f d) = sd_path d"
  shows "dir_at q (change_dir p f s) = map_option (\<lambda>d. if q = p then f d else d) (dir_at q s)"
proof -
  have "dir_at q (change_dir p f s) = map_option (\<lambda>d. if sd_path d = p then f d else d) (dir_at q s)"
    by (simp add: dir_at_def change_dir_def row_by_update_where [of sd_path f, OF assms])
  then show ?thesis by (cases "dir_at q s") (auto simp: dir_at_def dest: row_by_Some)
qed

lemma dir_at_used [simp]: "dir_at p (s\<lparr>so_used := u\<rparr>) = dir_at p s"
  by (simp add: dir_at_def)

lemma paths_mkdir: "distinct (map sd_path (so_dirs s)) \<Longrightarrow> distinct (map sd_path (so_dirs (mkdir p s)))"
  by (auto simp: mkdir_def dir_at_def row_by_None split: option.split)

lemma paths_change:
  "(\<And>d. sd_path (f d) = sd_path d) \<Longrightarrow> map sd_path (so_dirs (change_dir p f s)) = map sd_path (so_dirs s)"
  by (simp add: change_dir_def map_update_where)

definition good_key :: "log_key \<Rightarrow> bool" where
  "good_key k \<longleftrightarrow> (case k of (run, token, stream) \<Rightarrow> \<not> blank run \<and> \<not> blank token \<and> validStream stream)"

text \<open>\<open>h\<close> records, per stream, the contents ever spooled; chunk \<open>i\<close> holds entry \<open>i\<close>. \<open>v\<close> is what the centre has
  of each stream, and \<open>M\<close> says which stored texts may stand for a content.\<close>

type_synonym history = "log_key \<Rightarrow> string list"

definition chunk_of :: "history \<Rightarrow> log_chunk \<Rightarrow> bool" where
  "chunk_of h c \<longleftrightarrow> 0 < lc_seq c \<and> lc_seq c \<le> length (h (key_of c)) \<and> lc_content c = h (key_of c) ! (lc_seq c - 1)"

definition files_ok :: "history \<Rightarrow> log_key \<Rightarrow> (string \<times> spool_file) list \<Rightarrow> bool" where
  "files_ok h k fs \<longleftrightarrow> distinct (map fst fs) \<and> (\<forall>(n, f) \<in> set fs.
     key_of (sf_chunk f) = k \<and> chunk_of h (sf_chunk f) \<and> n = file_name (lc_seq (sf_chunk f)))"

definition base_ok :: "(string \<Rightarrow> string) \<Rightarrow> history \<Rightarrow> spool \<Rightarrow> bool" where
  "base_ok dg h s \<longleftrightarrow> 0 < so_chunk_size s \<and> distinct (map sd_path (so_dirs s)) \<and> (\<forall>k. length (h k) < 2 ^ 63) \<and>
     (\<forall>p dir. dir_at p s = Some dir \<longrightarrow> (\<exists>k. good_key k \<and> p = directory dg k \<and> files_ok h k (sd_files dir)))"

definition cursor_ok :: "(string \<Rightarrow> string) \<Rightarrow> history \<Rightarrow> spool \<Rightarrow> log_key \<Rightarrow> bool" where
  "cursor_ok dg h s k \<longleftrightarrow> (let c = sd_cursor (base_dir (directory dg k) s) in
     c = Some (show_nat (Suc (length (h k)))) \<or> h k = [] \<and> c = None)"

definition on_disk :: "(string \<Rightarrow> string) \<Rightarrow> spool \<Rightarrow> log_key \<Rightarrow> nat set" where
  "on_disk dg s k = (lc_seq \<circ> sf_chunk \<circ> snd) ` set (sd_files (base_dir (directory dg k) s))"

definition covered :: "(string \<Rightarrow> string) \<Rightarrow> history \<Rightarrow> spool \<Rightarrow> history \<Rightarrow> bool" where
  "covered dg h s v \<longleftrightarrow> (\<forall>k. {Suc (length (v k))..length (h k)} \<subseteq> on_disk dg s k)"

definition prefix_of :: "(log_key \<Rightarrow> string \<Rightarrow> string set) \<Rightarrow> history \<Rightarrow> history \<Rightarrow> bool" where
  "prefix_of M h v \<longleftrightarrow> (\<forall>k. list_all2 (\<lambda>c c'. c' \<in> M k c) (take (length (v k)) (h k)) (v k))"

definition delivered :: "(log_key \<Rightarrow> string \<Rightarrow> string set) \<Rightarrow> (string \<Rightarrow> string) \<Rightarrow> history \<Rightarrow> spool \<Rightarrow> history \<Rightarrow> bool" where
  "delivered M dg h s v \<longleftrightarrow> base_ok dg h s \<and> (\<forall>k. cursor_ok dg h s k) \<and> covered dg h s v \<and> prefix_of M h v"

lemma directory_inject: "inj dg \<Longrightarrow> directory dg k = directory dg k' \<Longrightarrow> k = k'"
  by (cases k; cases k') (auto simp: directory_def inj_def)

lemma in_update: "(n, f) \<in> set (AList.update m g fs) \<Longrightarrow> (n, f) = (m, g) \<or> (n, f) \<in> set fs"
  by (induction fs) (auto split: if_splits)

lemma set_update_fresh: "m \<notin> fst ` set fs \<Longrightarrow> AList.update m g fs = fs @ [(m, g)]"
  by (induction fs) auto

lemma base_okD:
  assumes "base_ok dg h s" "inj dg" "dir_at (directory dg k) s = Some dir"
  shows "good_key k \<and> files_ok h k (sd_files dir)"
  using assms directory_inject unfolding base_ok_def by metis

lemma files_ok_grow:
  assumes "files_ok h k fs"
  shows "files_ok (h(k' := h k' @ cs)) k fs"
proof -
  have "chunk_of (h(k' := h k' @ cs)) c" if "chunk_of h c" for c
    using that by (auto simp: chunk_of_def nth_append)
  then show ?thesis using assms by (auto simp: files_ok_def)
qed

lemma base_files_ok: "base_ok dg h s \<Longrightarrow> inj dg \<Longrightarrow> files_ok h k (sd_files (base_dir (directory dg k) s))"
  using base_okD by (auto simp: base_dir_def files_ok_def split: option.split)

lemma write_chunk_dir:
  "dir_at q (write_chunk p enc c s) = (if q = p
     then Some ((base_dir p s)\<lparr>sd_files := AList.update (file_name (lc_seq c)) \<lparr>sf_chunk = c, sf_size = enc c\<rparr> (sd_files (base_dir p s))\<rparr>)
     else dir_at q s)"
  unfolding write_chunk_def dir_at_used by (subst dir_at_change) (simp_all add: dir_at_mkdir option.map_ident)

lemma write_one:
  fixes enc :: "log_chunk \<Rightarrow> int"
  assumes ok: "base_ok dg h s" and inj: "inj dg" and c: "good_key (key_of c)" "lc_seq c = Suc (length (h (key_of c)))" "lc_seq c < 2 ^ 63"
  defines "k \<equiv> key_of c"
  defines "h' \<equiv> h(k := h k @ [lc_content c])"
  defines "s' \<equiv> write_chunk (directory dg k) enc c s"
  shows "base_ok dg h' s' \<and> on_disk dg s' k = insert (lc_seq c) (on_disk dg s k) \<and> (\<forall>k'. k' \<noteq> k \<longrightarrow> on_disk dg s' k' = on_disk dg s k') \<and>
    (\<forall>q. sd_cursor (base_dir q s') = sd_cursor (base_dir q s))"
proof -
  let ?p = "directory dg k" and ?f = "\<lparr>sf_chunk = c, sf_size = enc c\<rparr>" and ?n = "file_name (lc_seq c)"
  let ?fs = "sd_files (base_dir ?p s)"
  have fs: "files_ok h k ?fs" by (rule base_files_ok [OF ok inj])
  have lens: "length (h k') < 2 ^ 63" for k' using ok by (simp add: base_ok_def)
  have "m \<noteq> ?n" if m: "(m, g) \<in> set ?fs" for m g
  proof -
    have "m = file_name (lc_seq (sf_chunk g))" "0 < lc_seq (sf_chunk g)" "lc_seq (sf_chunk g) < lc_seq c"
      using fs m c(2) by (auto simp: files_ok_def chunk_of_def k_def)
    then show ?thesis using file_name_inject [of "lc_seq (sf_chunk g)" "lc_seq c"] c(3) by auto
  qed
  then have fresh: "AList.update ?n ?f ?fs = ?fs @ [(?n, ?f)]" by (intro set_update_fresh) force
  have at: "dir_at q s' = (if q = ?p then Some ((base_dir ?p s)\<lparr>sd_files := ?fs @ [(?n, ?f)]\<rparr>) else dir_at q s)" for q
    unfolding s'_def write_chunk_dir fresh by simp
  have chunk: "chunk_of h' c" using c(2) by (simp add: chunk_of_def h'_def k_def nth_append)
  have "files_ok h' k (?fs @ [(?n, ?f)])"
    using files_ok_grow [OF fs, of k "[lc_content c]"] chunk fresh distinct_update [of ?fs ?n ?f]
    unfolding h'_def [symmetric] by (auto simp: files_ok_def k_def)
  then have dirs: "\<exists>k. good_key k \<and> q = directory dg k \<and> files_ok h' k (sd_files dir)" if "dir_at q s' = Some dir" for q dir
  proof (cases "q = ?p")
    case False
    then have "dir_at q s = Some dir" using that by (simp add: at)
    then obtain k' where "good_key k'" "q = directory dg k'" "files_ok h k' (sd_files dir)"
      using ok unfolding base_ok_def by blast
    then show ?thesis using files_ok_grow unfolding h'_def by blast
  qed (use that c(1) in \<open>auto simp: at k_def [symmetric]\<close>)
  have paths: "distinct (map sd_path (so_dirs s'))"
    using ok by (simp add: s'_def write_chunk_def paths_change paths_mkdir base_ok_def)
  have "so_chunk_size s' = so_chunk_size s"
    by (simp add: s'_def write_chunk_def change_dir_def mkdir_def split: option.split)
  moreover have "length (h' k') < 2 ^ 63" for k' using lens c(2,3) by (simp add: h'_def k_def)
  ultimately have base: "base_ok dg h' s'" using ok dirs paths by (simp add: base_ok_def)
  have bd: "base_dir q s' = (if q = ?p then (base_dir ?p s)\<lparr>sd_files := ?fs @ [(?n, ?f)]\<rparr> else base_dir q s)" for q
    by (simp add: base_dir_def at)
  have "on_disk dg s' k = insert (lc_seq c) (on_disk dg s k)" by (simp add: on_disk_def bd)
  moreover have "on_disk dg s' k' = on_disk dg s k'" if "k' \<noteq> k" for k'
  proof -
    have "directory dg k' \<noteq> ?p" using directory_inject [OF inj, of k' k] that by blast
    then show ?thesis by (simp add: on_disk_def bd)
  qed
  moreover have "sd_cursor (base_dir q s') = sd_cursor (base_dir q s)" for q by (simp add: bd)
  ultimately show ?thesis using base by blast
qed

lemma u64_small [simp]: "n < 2 ^ 64 \<Longrightarrow> u64 n = n"
  by (simp add: u64_def)

lemma number_chunks_contents: "map lc_content (number_chunks k now n ps) = map to_valid_utf8 ps"
  by (induction k now n ps rule: number_chunks.induct) (auto split: prod.split)

lemma write_number_chunks:
  assumes inj: "inj dg" and k: "good_key k"
  shows "base_ok dg h s \<Longrightarrow> length (h k) + length ps < 2 ^ 63 \<Longrightarrow>
    write_chunks io j (directory dg k) enc (number_chunks k now (Suc (length (h k))) ps) s = (True, s') \<Longrightarrow>
    base_ok dg (h(k := h k @ map to_valid_utf8 ps)) s' \<and>
    on_disk dg s' k = on_disk dg s k \<union> {Suc (length (h k))..length (h k) + length ps} \<and>
    (\<forall>k'. k' \<noteq> k \<longrightarrow> on_disk dg s' k' = on_disk dg s k') \<and> (\<forall>q. sd_cursor (base_dir q s') = sd_cursor (base_dir q s))"
proof (induction ps arbitrary: h s j)
  case (Cons p ps)
  obtain run token stream where kk: "k = (run, token, stream)" by (cases k)
  define c :: log_chunk where "c = \<lparr>lc_run = run, lc_token = token, lc_seq = Suc (length (h k)), lc_stream = stream,
     lc_content = to_valid_utf8 p, lc_at = now (Suc (length (h k)))\<rparr>"
  define h1 where "h1 = h(k := h k @ [to_valid_utf8 p])"
  define s1 where "s1 = write_chunk (directory dg k) enc c s"
  have key: "key_of c = k" "lc_seq c = Suc (length (h k))" "lc_content c = to_valid_utf8 p" by (simp_all add: key_of_def kk c_def)
  have one: "base_ok dg h1 s1" "on_disk dg s1 k = insert (Suc (length (h k))) (on_disk dg s k)"
      "\<forall>k'. k' \<noteq> k \<longrightarrow> on_disk dg s1 k' = on_disk dg s k'" "\<forall>q. sd_cursor (base_dir q s1) = sd_cursor (base_dir q s)"
    using write_one [OF Cons.prems(1) inj, of c enc] k Cons.prems(2) unfolding key s1_def h1_def by simp_all
  have len: "length (h1 k) = Suc (length (h k))" by (simp add: h1_def)
  have "number_chunks k now (Suc (length (h k))) (p # ps) = c # number_chunks k now (Suc (length (h1 k))) ps"
    using Cons.prems(2) by (simp add: kk c_def h1_def)
  then have "write_chunks io (j + 1) (directory dg k) enc (number_chunks k now (Suc (length (h1 k))) ps) s1 = (True, s')"
    using Cons.prems(3) by (auto simp: s1_def split: if_splits)
  moreover have "length (h1 k) + length ps < 2 ^ 63" using len Cons.prems(2) by simp
  ultimately have rest: "base_ok dg (h1(k := h1 k @ map to_valid_utf8 ps)) s' \<and>
      on_disk dg s' k = on_disk dg s1 k \<union> {Suc (length (h1 k))..length (h1 k) + length ps} \<and>
      (\<forall>k'. k' \<noteq> k \<longrightarrow> on_disk dg s' k' = on_disk dg s1 k') \<and> (\<forall>q. sd_cursor (base_dir q s') = sd_cursor (base_dir q s1))"
    using Cons.IH [OF one(1)] by blast
  have e1: "h1(k := h1 k @ map to_valid_utf8 ps) = h(k := h k @ map to_valid_utf8 (p # ps))" by (simp add: h1_def)
  have e2: "{Suc (length (h k))..length (h k) + length (p # ps)} =
      insert (Suc (length (h k))) {Suc (length (h1 k))..length (h1 k) + length ps}" using len by auto
  have r1: "base_ok dg (h(k := h k @ map to_valid_utf8 (p # ps))) s'" using rest unfolding e1 by (rule conjunct1)
  have r2: "on_disk dg s' k = on_disk dg s k \<union> {Suc (length (h k))..length (h k) + length (p # ps)}"
    using rest one(2) unfolding e2 by simp
  have r3: "\<forall>k'. k' \<noteq> k \<longrightarrow> on_disk dg s' k' = on_disk dg s k'" using rest one(3) by simp
  have r4: "\<forall>q. sd_cursor (base_dir q s') = sd_cursor (base_dir q s)" using rest one(4) by simp
  show ?case by (intro conjI r1 r2 r3 r4)
qed simp

lemma pending_bound:
  assumes "base_ok dg h s" "inj dg" "c \<in> set (pending_at (directory dg k) s)"
  shows "0 < lc_seq c \<and> lc_seq c \<le> length (h k)"
proof -
  have "c \<in> (sf_chunk \<circ> snd) ` set (sd_files (base_dir (directory dg k) s))"
    using assms(3) by (cases "dir_at (directory dg k) s") (force simp: pending_at_def base_dir_def chunk_files_def)+
  then show ?thesis using base_files_ok [OF assms(1,2), of k] by (auto simp: files_ok_def chunk_of_def)
qed

lemma spool_next_value:
  assumes "base_ok dg h s" "inj dg" "cursor_ok dg h s k"
  shows "spool_next False (sd_cursor (base_dir (directory dg k) s)) (pending_at (directory dg k) s) = Inr (Suc (length (h k)))"
proof -
  let ?ps = "pending_at (directory dg k) s" and ?n = "Suc (length (h k))"
  have "length (h k) < 2 ^ 63" using assms(1) by (simp add: base_ok_def)
  then have parse: "parse_uint64 (trim_space (show_nat ?n)) = Some ?n" by (intro parse_cursor) simp
  have last: "lc_seq (last ?ps) < ?n" if "?ps \<noteq> []"
    using pending_bound [OF assms(1,2), of "last ?ps" k] last_in_set [OF that] by simp
  have none: "?ps = []" if "h k = []"
    using pending_bound [OF assms(1,2), of "hd ?ps" k] that by (cases ?ps) auto
  from assms(3) show ?thesis
    using parse last none by (auto simp: cursor_ok_def Let_def spool_next_def)
qed

lemma cursor_write:
  assumes "writeSequenceCursor b b' p n s = (True, s')"
  shows "base_dir q s' = (if q = p then (base_dir p s)\<lparr>sd_cursor := Some (show_nat n)\<rparr> else base_dir q s) \<and>
    so_chunk_size s' = so_chunk_size s \<and> (distinct (map sd_path (so_dirs s)) \<longrightarrow> distinct (map sd_path (so_dirs s'))) \<and>
    dir_at q s' = (if q = p then Some ((base_dir p s)\<lparr>sd_cursor := Some (show_nat n)\<rparr>) else dir_at q s)"
proof -
  have s': "s' = change_dir p (\<lambda>d. d\<lparr>sd_cursor := Some (show_nat n)\<rparr>) (mkdir p s)"
    using assms by (auto simp: writeSequenceCursor_def Let_def split: if_splits)
  have at: "dir_at q s' = (if q = p then Some ((base_dir p s)\<lparr>sd_cursor := Some (show_nat n)\<rparr>) else dir_at q s)"
    unfolding s' by (subst dir_at_change) (simp_all add: dir_at_mkdir option.map_ident)
  then have "base_dir q s' = (if q = p then (base_dir p s)\<lparr>sd_cursor := Some (show_nat n)\<rparr> else base_dir q s)"
    by (simp add: base_dir_def)
  moreover have "so_chunk_size s' = so_chunk_size s" by (simp add: s' change_dir_def mkdir_def split: option.split)
  ultimately show ?thesis using at paths_mkdir by (simp add: s' paths_change)
qed

subsection \<open>Appending\<close>

lemma prefix_of_le: "prefix_of M h v \<Longrightarrow> length (v k) \<le> length (h k)"
  unfolding prefix_of_def by (drule spec [of _ k], drule list_all2_lengthD) simp

lemma prefix_of_grow: "prefix_of M h v \<Longrightarrow> prefix_of M (h(k := h k @ cs)) v"
proof -
  assume p: "prefix_of M h v"
  have "take (length (v k')) ((h(k := h k @ cs)) k') = take (length (v k')) (h k')" for k'
    using prefix_of_le [OF p, of k'] by (cases "k' = k") simp_all
  then show ?thesis using p unfolding prefix_of_def by presburger
qed

lemma cursor_of_dir: "(case dir_at p s of None \<Rightarrow> None | Some d \<Rightarrow> sd_cursor d) = sd_cursor (base_dir p s)"
  by (simp add: base_dir_def split: option.split)

lemma base_ok_cursor:
  assumes "base_ok dg h s" "inj dg" "good_key k" "writeSequenceCursor b b' (directory dg k) n s = (True, s')"
  shows "base_ok dg h s' \<and> (\<forall>k'. on_disk dg s' k' = on_disk dg s k') \<and>
    (\<forall>k'. sd_cursor (base_dir (directory dg k') s') = (if k' = k then Some (show_nat n) else sd_cursor (base_dir (directory dg k') s)))"
proof -
  note w = cursor_write [OF assms(4)]
  have same: "directory dg k' = directory dg k \<longleftrightarrow> k' = k" for k' using directory_inject [OF assms(2)] by blast
  have files: "sd_files (base_dir q s') = sd_files (base_dir q s)" for q using w [of q] by simp
  have "\<exists>k. good_key k \<and> q = directory dg k \<and> files_ok h k (sd_files dir)" if dir: "dir_at q s' = Some dir" for q dir
  proof (cases "q = directory dg k")
    case True
    then have "sd_files dir = sd_files (base_dir (directory dg k) s)" using w [of q] dir by auto
    then show ?thesis using base_files_ok [OF assms(1,2), of k] assms(3) True by auto
  next
    case False
    then have "dir_at q s = Some dir" using w [of q] dir by simp
    then show ?thesis using assms(1) unfolding base_ok_def by blast
  qed
  then have "base_ok dg h s'" using w assms(1) by (simp add: base_ok_def)
  then show ?thesis using w files same by (simp add: on_disk_def)
qed

lemma spool_append_Inr:
  assumes "spool_append dg x k content s = (Inr cs, s')"
  obtains next_n ps s1 where "good_key k" "spool_next False (sd_cursor (base_dir (directory dg k) s)) (pending_at (directory dg k) s) = Inr next_n"
    "cs = number_chunks k (pe_now x) next_n ps" "ps = split_content (so_chunk_size s) content"
    "write_chunks (pe_io x) 4 (directory dg k) (pe_enc x) cs s = (True, s1)"
    "cs = [] \<and> s' = s1 \<or> cs \<noteq> [] \<and>
     writeSequenceCursor (pe_io x 2) (pe_io x 3) (directory dg k) (u64 (next_n + length cs)) s1 = (True, s')"
proof -
  obtain run token stream where kk: "k = (run, token, stream)" by (cases k)
  have start: "good_key k" "\<not> pe_io x 0" "\<not> pe_io x 1"
    using assms by (auto simp: spool_append_def kk good_key_def Let_def spool_next_def split: if_splits)
  obtain next_n where n: "spool_next False (sd_cursor (base_dir (directory dg k) s)) (pending_at (directory dg k) s) = Inr next_n"
    using assms start
    by (cases "spool_next False (sd_cursor (base_dir (directory dg k) s)) (pending_at (directory dg k) s)")
      (simp_all add: spool_append_def kk good_key_def Let_def cursor_of_dir)
  let ?cs = "number_chunks k (pe_now x) next_n (split_content (so_chunk_size s) content)"
  obtain ok s1 where w: "write_chunks (pe_io x) 4 (directory dg k) (pe_enc x) ?cs s = (ok, s1)" by fastforce
  have res: "cs = ?cs" "ok" "?cs = [] \<and> s' = s1 \<or> ?cs \<noteq> [] \<and>
     writeSequenceCursor (pe_io x 2) (pe_io x 3) (directory dg k) (u64 (next_n + length ?cs)) s1 = (True, s')"
    using assms start n w unfolding spool_append_def kk good_key_def Let_def cursor_of_dir
    by (auto split: if_splits bool.splits prod.splits)
  have "write_chunks (pe_io x) 4 (directory dg k) (pe_enc x) cs s = (True, s1)" using w res(2) unfolding res(1) by simp
  from that [OF start(1) n res(1) refl this] show ?thesis using res(3) unfolding res(1) by blast
qed

lemma append_delivered:
  assumes del: "delivered M dg h s v" and inj: "inj dg" and app: "spool_append dg x k content s = (Inr cs, s')"
    and small: "length (h k) + length cs < 2 ^ 63"
  shows "delivered M dg (h(k := h k @ map lc_content cs)) s' v"
proof -
  obtain n ps s1 where a: "good_key k" "spool_next False (sd_cursor (base_dir (directory dg k) s)) (pending_at (directory dg k) s) = Inr n"
    "cs = number_chunks k (pe_now x) n ps" "write_chunks (pe_io x) 4 (directory dg k) (pe_enc x) cs s = (True, s1)"
    "cs = [] \<and> s' = s1 \<or> cs \<noteq> [] \<and>
     writeSequenceCursor (pe_io x 2) (pe_io x 3) (directory dg k) (u64 (n + length cs)) s1 = (True, s')"
    by (rule spool_append_Inr [OF app])
  have ok: "base_ok dg h s" "cursor_ok dg h s k'" "covered dg h s v" "prefix_of M h v" for k' using del by (auto simp: delivered_def)
  have n: "n = Suc (length (h k))" using spool_next_value [OF ok(1) inj ok(2)] a(2) by simp
  have contents: "map lc_content cs = map to_valid_utf8 ps" unfolding a(3) by (rule number_chunks_contents)
  then have len: "length ps = length cs" by (metis length_map)
  let ?h = "h(k := h k @ map lc_content cs)"
  have w: "base_ok dg ?h s1" "on_disk dg s1 k = on_disk dg s k \<union> {Suc (length (h k))..length (h k) + length cs}"
    "\<forall>k'. k' \<noteq> k \<longrightarrow> on_disk dg s1 k' = on_disk dg s k'" "\<forall>q. sd_cursor (base_dir q s1) = sd_cursor (base_dir q s)"
    using write_number_chunks [OF inj a(1) ok(1), of ps "pe_io x" 4 "pe_enc x" "pe_now x" s1] a(3,4) n small
    unfolding contents len by blast+
  have cov: "covered dg ?h s1 v" unfolding covered_def
  proof
    fix k'
    have "{Suc (length (v k'))..length (h k')} \<subseteq> on_disk dg s k'" using ok(3) by (simp add: covered_def)
    then show "{Suc (length (v k'))..length (?h k')} \<subseteq> on_disk dg s1 k'"
      using w(2,3) by (cases "k' = k") (auto simp: subset_iff not_less_eq_eq)
  qed
  have pre: "prefix_of M ?h v" by (rule prefix_of_grow [OF ok(4)])
  show ?thesis
  proof (cases "cs = []")
    case True
    have "cursor_ok dg ?h s1 k'" for k' using ok(2) [of k'] w(4) True by (simp add: cursor_ok_def Let_def)
    then show ?thesis using a(5) True w(1) cov pre by (auto simp: delivered_def)
  next
    case False
    have u: "u64 (n + length cs) = Suc (length (?h k))" using n small by simp
    have c: "base_ok dg ?h s'" "\<forall>k'. on_disk dg s' k' = on_disk dg s1 k'"
      "\<forall>k'. sd_cursor (base_dir (directory dg k') s') =
         (if k' = k then Some (show_nat (Suc (length (?h k)))) else sd_cursor (base_dir (directory dg k') s1))"
      using base_ok_cursor [OF w(1) inj a(1)] a(5) False unfolding u by blast+
    have "cursor_ok dg ?h s' k'" for k' using ok(2) [of k'] w(4) c(3) by (simp add: cursor_ok_def Let_def)
    moreover have "covered dg ?h s' v" using cov c(2) unfolding covered_def by simp
    ultimately show ?thesis using c(1) pre by (auto simp: delivered_def)
  qed
qed

subsection \<open>Acknowledging\<close>

definition acked :: "nat \<Rightarrow> string \<Rightarrow> bool" where
  "acked n name \<longleftrightarrow> (case sequenceFromName name of Some m \<Rightarrow> m < n | None \<Rightarrow> False)"

lemma remove_acked_files:
  "remove_acked io j n fs u = (ok, fs', u') \<Longrightarrow> set fs' \<subseteq> set fs \<and> (distinct (map fst fs) \<longrightarrow> distinct (map fst fs')) \<and>
   (\<forall>(m, f) \<in> set fs. \<not> acked n m \<longrightarrow> (m, f) \<in> set fs') \<and> (ok \<longrightarrow> (\<forall>(m, f) \<in> set fs'. \<not> acked n m))"
proof (induction io j n fs u arbitrary: ok fs' u' rule: remove_acked.induct)
  case (2 io j n name f fs used)
  show ?case
  proof (cases "acked n name")
    case True
    then obtain m where m: "sequenceFromName name = Some m" "m < n" by (auto simp: acked_def split: option.splits)
    show ?thesis
    proof (cases "io j")
      case True
      then show ?thesis using "2.prems" m by auto
    next
      case False
      then have "remove_acked io (j + 1) n fs (max 0 (used - sf_size f)) = (ok, fs', u')" using "2.prems" m by simp
      then have "set fs' \<subseteq> set fs \<and> (distinct (map fst fs) \<longrightarrow> distinct (map fst fs')) \<and>
        (\<forall>(m, f) \<in> set fs. \<not> acked n m \<longrightarrow> (m, f) \<in> set fs') \<and> (ok \<longrightarrow> (\<forall>(m, f) \<in> set fs'. \<not> acked n m))"
        using "2.IH"(3) [OF m(1) _ False] m(2) by simp
      then show ?thesis using \<open>acked n name\<close> by auto
    qed
  next
    case False
    obtain ok1 rest u1 where r: "remove_acked io (j + 1) n fs used = (ok1, rest, u1)" by (cases "remove_acked io (j + 1) n fs used")
    have "fs' = (name, f) # rest \<and> ok = ok1"
      using "2.prems" r False by (auto simp: acked_def split: option.splits if_splits)
    moreover have "set rest \<subseteq> set fs \<and> (distinct (map fst fs) \<longrightarrow> distinct (map fst rest)) \<and>
      (\<forall>(m, f) \<in> set fs. \<not> acked n m \<longrightarrow> (m, f) \<in> set rest) \<and> (ok1 \<longrightarrow> (\<forall>(m, f) \<in> set rest. \<not> acked n m))"
    proof (cases "sequenceFromName name")
      case None
      then show ?thesis by (rule "2.IH"(1) [OF _ r])
    next
      case (Some m)
      then have "n \<le> m" using False by (simp add: acked_def)
      then show ?thesis by (rule "2.IH"(2) [OF Some _ r])
    qed
    ultimately show ?thesis using False by (auto dest: image_mono [of _ _ fst])
  qed
qed auto

lemma ack_spool:
  assumes "Acknowledge dg io k n s = (res, s')"
  shows "\<exists>fs. base_dir (directory dg k) s' = (base_dir (directory dg k) s)\<lparr>sd_files := fs\<rparr> \<and>
    set fs \<subseteq> set (sd_files (base_dir (directory dg k) s)) \<and>
    (distinct (map fst (sd_files (base_dir (directory dg k) s))) \<longrightarrow> distinct (map fst fs)) \<and>
    (\<forall>(m, f) \<in> set (sd_files (base_dir (directory dg k) s)). \<not> acked n m \<longrightarrow> (m, f) \<in> set fs) \<and>
    (res = Inr () \<longrightarrow> (\<forall>(m, f) \<in> set fs. \<not> acked n m)) \<and>
    (\<forall>q. dir_at q s' = None \<longleftrightarrow> dir_at q s = None) \<and> (\<forall>q. q \<noteq> directory dg k \<longrightarrow> dir_at q s' = dir_at q s) \<and>
    so_chunk_size s' = so_chunk_size s \<and> map sd_path (so_dirs s') = map sd_path (so_dirs s)"
proof -
  let ?p = "directory dg k" and ?b = "base_dir (directory dg k) s"
  have idle: "?thesis" if "s' = s" "res = Inr () \<Longrightarrow> dir_at ?p s = None"
    using that by (intro exI [of _ "sd_files ?b"]) (auto simp: base_dir_def)
  show ?thesis
  proof (cases "dir_at ?p s = None \<or> (\<exists>e. res = Inl e) \<and> s' = s")
    case True
    moreover have "s' = s" using assms True by (auto simp: Acknowledge_def Let_def split: prod.splits if_splits)
    ultimately show ?thesis using idle by auto
  next
    case False
    then obtain d where d: "dir_at ?p s = Some d" by auto
    obtain ok fs u where r: "remove_acked io 1 n (sd_files d) (so_used s) = (ok, fs, u)"
      by (cases "remove_acked io 1 n (sd_files d) (so_used s)")
    have s': "s' = (change_dir ?p (\<lambda>d. d\<lparr>sd_files := fs\<rparr>) s)\<lparr>so_used := u\<rparr>" "res = (if ok then Inr () else Inl ErrSpoolIO)"
      using assms d r False by (auto simp: Acknowledge_def Let_def split: prod.splits if_splits)
    have at: "dir_at q s' = map_option (\<lambda>d. if q = ?p then d\<lparr>sd_files := fs\<rparr> else d) (dir_at q s)" for q
      unfolding s' dir_at_used by (rule dir_at_change) simp
    have "?b = d" "base_dir ?p s' = d\<lparr>sd_files := fs\<rparr>" using d by (simp_all add: base_dir_def at)
    then show ?thesis
      using remove_acked_files [OF r] s' at by (intro exI [of _ fs]) (auto simp: paths_change change_dir_def map_update_where option.map_ident)
  qed
qed

lemma ack_delivered:
  assumes del: "delivered M dg h s v" and inj: "inj dg" and ack: "Acknowledge dg io k n s = (res, s')" and n: "n \<le> Suc (length (v k))"
  shows "delivered M dg h s' v \<and> (\<forall>k'. k' \<noteq> k \<longrightarrow> on_disk dg s' k' = on_disk dg s k') \<and> (\<forall>i. on_disk dg s' i \<subseteq> on_disk dg s i) \<and>
    (res = Inr () \<longrightarrow> on_disk dg s' k \<subseteq> {n..})"
proof -
  let ?p = "directory dg k"
  obtain fs where fs: "base_dir ?p s' = (base_dir ?p s)\<lparr>sd_files := fs\<rparr>" "set fs \<subseteq> set (sd_files (base_dir ?p s))"
    "distinct (map fst (sd_files (base_dir ?p s))) \<longrightarrow> distinct (map fst fs)"
    "\<forall>(m, f) \<in> set (sd_files (base_dir ?p s)). \<not> acked n m \<longrightarrow> (m, f) \<in> set fs"
    "res = Inr () \<longrightarrow> (\<forall>(m, f) \<in> set fs. \<not> acked n m)"
    "\<forall>q. dir_at q s' = None \<longleftrightarrow> dir_at q s = None" "\<forall>q. q \<noteq> ?p \<longrightarrow> dir_at q s' = dir_at q s"
    "so_chunk_size s' = so_chunk_size s" "map sd_path (so_dirs s') = map sd_path (so_dirs s)"
    using ack_spool [OF ack] by blast
  have ok: "base_ok dg h s" "covered dg h s v" "prefix_of M h v" "cursor_ok dg h s k'" for k' using del by (auto simp: delivered_def)
  have files: "files_ok h k (sd_files (base_dir ?p s))" by (rule base_files_ok [OF ok(1) inj])
  then have fs_ok: "files_ok h k fs" using fs(2,3) by (auto simp: files_ok_def)
  have bd: "base_dir q s' = base_dir q s" if "q \<noteq> ?p" for q using fs(7) that by (simp add: base_dir_def)
  have other: "base_dir (directory dg k') s' = base_dir (directory dg k') s" if "k' \<noteq> k" for k'
    using bd directory_inject [OF inj, of k' k] that by blast
  have seq: "acked n m \<longleftrightarrow> lc_seq (sf_chunk f) < n" if mf: "(m, f) \<in> set (sd_files (base_dir ?p s))" for m f
  proof -
    have "m = file_name (lc_seq (sf_chunk f))" "0 < lc_seq (sf_chunk f)" "lc_seq (sf_chunk f) \<le> length (h k)"
      using files mf by (auto simp: files_ok_def chunk_of_def)
    moreover have "length (h k) < 2 ^ 63" using ok(1) by (simp add: base_ok_def)
    ultimately show ?thesis using sequence_of_file_name by (simp add: acked_def)
  qed
  have "\<exists>k. good_key k \<and> q = directory dg k \<and> files_ok h k (sd_files dir)" if dir: "dir_at q s' = Some dir" for q dir
  proof (cases "q = ?p")
    case True
    then obtain d where "dir_at ?p s = Some d" using dir fs(6) by (metis not_None_eq)
    then have "good_key k" using base_okD [OF ok(1) inj] by blast
    moreover have "dir = base_dir ?p s'" using True dir by (simp add: base_dir_def)
    ultimately show ?thesis using True fs_ok fs(1) by auto
  next
    case False
    then have "dir_at q s = Some dir" using fs(7) dir by simp
    then show ?thesis using ok(1) unfolding base_ok_def by blast
  qed
  then have base: "base_ok dg h s'" using ok(1) fs(8,9) by (simp add: base_ok_def)
  have cur: "cursor_ok dg h s' k'" for k' using ok(4) [of k'] fs(1) other by (cases "k' = k") (simp_all add: cursor_ok_def Let_def)
  have keep: "{i \<in> on_disk dg s k. n \<le> i} \<subseteq> on_disk dg s' k" using fs(1,4) seq by (fastforce simp: on_disk_def)
  have "covered dg h s' v" unfolding covered_def
  proof
    fix k'
    have "{Suc (length (v k'))..length (h k')} \<subseteq> on_disk dg s k'" using ok(2) by (simp add: covered_def)
    then show "{Suc (length (v k'))..length (h k')} \<subseteq> on_disk dg s' k'"
      using keep n other by (cases "k' = k") (auto simp: on_disk_def)
  qed
  moreover have "on_disk dg s' k \<subseteq> {n..}" if "res = Inr ()" using that fs(1,2,5) seq by (fastforce simp: on_disk_def)
  moreover have "on_disk dg s' k' \<subseteq> on_disk dg s k'" for k' using fs(1,2) other by (cases "k' = k") (auto simp: on_disk_def)
  moreover have "on_disk dg s' k' = on_disk dg s k'" if "k' \<noteq> k" for k' using other [OF that] by (simp add: on_disk_def)
  ultimately show ?thesis using base cur ok(3) by (auto simp: delivered_def)
qed

subsection \<open>Sending\<close>

text \<open>What the client relies on: a centre stores a chunk only as the next of its stream, and its answer is the number
  it expects next.\<close>

locale log_centre =
  fixes send :: "nat \<Rightarrow> log_chunk \<Rightarrow> 's \<Rightarrow> nat option \<times> 's"
    and view :: "'s \<Rightarrow> history"
    and ok :: "'s \<Rightarrow> bool"
    and M :: "log_key \<Rightarrow> string \<Rightarrow> string set"
  assumes send_law: "ok w \<Longrightarrow> send j c w = (r, w') \<Longrightarrow> ok w' \<and>
    (view w' = view w \<or> lc_seq c = Suc (length (view w (key_of c))) \<and>
       (\<exists>x \<in> M (key_of c) (lc_content c). view w' = (view w)(key_of c := view w (key_of c) @ [x]))) \<and>
    (\<forall>n. r = Some n \<longrightarrow> n = Suc (length (view w' (key_of c))))"
begin

lemma send_delivered:
  assumes del: "delivered M dg h s (view w)" and ok: "ok w" and c: "chunk_of h c" and send: "send j c w = (r, w')"
  shows "delivered M dg h s (view w')"
proof (cases "view w' = view w")
  case False
  let ?k = "key_of c"
  obtain x where x: "x \<in> M ?k (lc_content c)" "lc_seq c = Suc (length (view w ?k))"
    "view w' = (view w)(?k := view w ?k @ [x])"
    using send_law [OF ok send] False by blast
  have "covered dg h s (view w')" unfolding covered_def
  proof
    fix k'
    have "length (view w k') \<le> length (view w' k')" using x(3) by simp
    then have "{Suc (length (view w' k'))..length (h k')} \<subseteq> {Suc (length (view w k'))..length (h k')}" by auto
    then show "{Suc (length (view w' k'))..length (h k')} \<subseteq> on_disk dg s k'"
      using del unfolding delivered_def covered_def by blast
  qed
  moreover have "prefix_of M h (view w')" unfolding prefix_of_def
  proof
    fix k'
    have pre: "list_all2 (\<lambda>c c'. c' \<in> M k' c) (take (length (view w k')) (h k')) (view w k')"
      using del unfolding delivered_def prefix_of_def by blast
    have "take (Suc (length (view w ?k))) (h ?k) = take (length (view w ?k)) (h ?k) @ [lc_content c]"
      using c x(2) by (simp add: chunk_of_def take_Suc_conv_app_nth)
    then show "list_all2 (\<lambda>c c'. c' \<in> M k' c) (take (length (view w' k')) (h k')) (view w' k')"
      using pre x by (cases "k' = ?k") (simp_all add: list_all2_appendI)
  qed
  ultimately show ?thesis using del by (simp add: delivered_def)
qed (use del in simp)

lemma send_chunks_delivered:
  "delivered M dg h s (view w) \<Longrightarrow> ok w \<Longrightarrow> inj dg \<Longrightarrow> \<forall>c \<in> set cs. chunk_of h c \<Longrightarrow>
   send_chunks dg send io j cs (s, w) = (res, s', w') \<Longrightarrow> delivered M dg h s' (view w') \<and> ok w'"
proof (induction cs arbitrary: j s w)
  case (Cons c cs)
  obtain r w1 where send: "send j c w = (r, w1)" by fastforce
  have d1: "delivered M dg h s (view w1)" using send_delivered [OF Cons.prems(1,2) _ send] Cons.prems(4) by simp
  have law: "ok w1" "\<And>n. r = Some n \<Longrightarrow> n = Suc (length (view w1 (key_of c)))" using send_law [OF Cons.prems(2) send] by auto
  show ?case
  proof (cases r)
    case None
    then show ?thesis using Cons.prems(5) send d1 law(1) by auto
  next
    case (Some n)
    obtain ar s1 where ack: "Acknowledge dg (io j) (key_of c) n s = (ar, s1)" by fastforce
    have d2: "delivered M dg h s1 (view w1)"
      using ack_delivered [OF d1 Cons.prems(3) ack] law(2) [OF Some] by simp
    show ?thesis
    proof (cases ar)
      case (Inl e)
      then show ?thesis using Cons.prems(5) send Some ack d2 law(1) by auto
    next
      case (Inr u)
      then have "send_chunks dg send io (j + 1) cs (s1, w1) = (res, s', w')" using Cons.prems(5) send Some ack by simp
      then show ?thesis using Cons.IH [OF d2 law(1) Cons.prems(3)] Cons.prems(4) by simp
    qed
  qed
qed auto

end

lemma all_pending_chunk:
  assumes "base_ok dg h s" "inj dg" "AllPending fails s = Inr cs"
  shows "c \<in> set cs \<Longrightarrow> chunk_of h c \<and> good_key (key_of c) \<and> lc_seq c \<in> on_disk dg s (key_of c)"
    "i \<in> on_disk dg s k \<Longrightarrow> \<exists>c \<in> set cs. key_of c = k \<and> lc_seq c = i"
proof -
  have "set cs = set (map (sf_chunk \<circ> snd) (concat (map chunk_files (so_dirs s))))"
    using assms(3) unfolding AllPending_def by (metis set_slice_stable sum.inject(2) sum.distinct(1))
  then have cs: "c \<in> set cs \<longleftrightarrow> (\<exists>dir n f. dir \<in> set (so_dirs s) \<and> (n, f) \<in> set (chunk_files dir) \<and> c = sf_chunk f)" for c
    by (simp add: image_iff Bex_def split_paired_Ex) blast
  have at: "dir_at (sd_path dir) s = Some dir" if "dir \<in> set (so_dirs s)" for dir
    using assms(1) that by (simp add: dir_at_def row_by_distinct base_ok_def)
  have named: "sequenceFromName (file_name (lc_seq c)) \<noteq> None" if "chunk_of h c" for c
  proof -
    have "length (h (key_of c)) < 2 ^ 63" using assms(1) by (simp add: base_ok_def)
    then show ?thesis using that sequence_of_file_name [of "lc_seq c"] by (simp add: chunk_of_def)
  qed
  show "chunk_of h c \<and> good_key (key_of c) \<and> lc_seq c \<in> on_disk dg s (key_of c)" if c: "c \<in> set cs"
  proof -
    obtain dir n f where f: "dir \<in> set (so_dirs s)" "(n, f) \<in> set (sd_files dir)" "c = sf_chunk f"
      using c unfolding cs by (auto simp: chunk_files_def)
    obtain k where k: "good_key k" "sd_path dir = directory dg k" "files_ok h k (sd_files dir)"
      using at [OF f(1)] assms(1) unfolding base_ok_def by blast
    have "key_of c = k" "chunk_of h c" using k(3) f(2,3) by (auto simp: files_ok_def)
    moreover have "base_dir (directory dg k) s = dir" using at [OF f(1)] k(2) by (simp add: base_dir_def)
    ultimately show ?thesis using k(1) f(2,3) by (force simp: on_disk_def)
  qed
  show "\<exists>c \<in> set cs. key_of c = k \<and> lc_seq c = i" if i: "i \<in> on_disk dg s k"
  proof -
    obtain n f where f: "(n, f) \<in> set (sd_files (base_dir (directory dg k) s))" "lc_seq (sf_chunk f) = i"
      using i by (auto simp: on_disk_def)
    then obtain dir where dir: "dir_at (directory dg k) s = Some dir" "base_dir (directory dg k) s = dir"
      by (cases "dir_at (directory dg k) s") (auto simp: base_dir_def)
    have "chunk_of h (sf_chunk f)" "key_of (sf_chunk f) = k" "n = file_name (lc_seq (sf_chunk f))"
      using base_files_ok [OF assms(1,2), of k] f(1) by (auto simp: files_ok_def)
    moreover have "dir \<in> set (so_dirs s)" using dir(1) by (auto simp: dir_at_def dest: row_by_Some)
    ultimately have "sf_chunk f \<in> set cs" unfolding cs using f(1) dir(2) named by (force simp: chunk_files_def)
    then show ?thesis using f(2) \<open>key_of (sf_chunk f) = k\<close> by blast
  qed
qed

definition masks :: "(nat \<Rightarrow> accept_env) \<Rightarrow> log_key \<Rightarrow> string \<Rightarrow> string set" where
  "masks env k t = {x. \<exists>j c. key_of c = k \<and> lc_content c = t \<and> redact (env j) c = Inr x}"

interpretation socket: log_centre "socket_send env lost" stored contiguous "\<lambda>k t. M k t \<union> masks env k t" for env lost M
proof
  fix d :: log_db and j c r d'
  assume ok: "contiguous d" and send: "socket_send env lost j c d = (r, d')"
  obtain res where acc: "Accept (env j) c d = (res, d')" and r: "\<And>n. r = Some n \<Longrightarrow> res = Inr n"
    using send by (cases "Accept (env j) c d") (auto simp: socket_send_def split: sum.splits if_splits)
  from acc show "contiguous d' \<and> (stored d' = stored d \<or> lc_seq c = Suc (length (stored d (key_of c))) \<and>
       (\<exists>x \<in> M (key_of c) (lc_content c) \<union> masks env (key_of c) (lc_content c). stored d' = (stored d)(key_of c := stored d (key_of c) @ [x]))) \<and>
    (\<forall>n. r = Some n \<longrightarrow> n = Suc (length (stored d' (key_of c))))"
  proof (cases rule: Accept_cases)
    case 1
    then show ?thesis using ok r by auto
  next
    case (2 c')
    have "lc_content c' \<in> masks env (key_of c) (lc_content c)" using 2(2) by (auto simp: masks_def redacted_def)
    then show ?thesis using accept_redacted_db [OF ok 2(3)] 2(2) r by (auto simp: redacted_def)
  qed
qed

subsection \<open>Delivery without failures\<close>

lemma slice_order_by:
  fixes f :: "'a \<Rightarrow> 'b :: linorder"
  assumes "slice_order r"
  shows "slice_order (\<lambda>a b. if f a \<noteq> f b then f a < f b else r a b)"
proof
  show "(if f x \<noteq> f y then f x < f y else r x y) \<Longrightarrow> \<not> (if f y \<noteq> f x then f y < f x else r y x)" for x y
    using slice_order.lt_asym [OF assms, of x y] by (auto split: if_splits)
  show "(if f x \<noteq> f z then f x < f z else r x z) \<Longrightarrow>
      (if f x \<noteq> f y then f x < f y else r x y) \<or> (if f y \<noteq> f z then f y < f z else r y z)" for x y z
    using slice_order.lt_cotrans [OF assms, of x z y] by (auto split: if_splits)
qed

interpretation chunk_order: slice_order chunk_less
proof -
  have "slice_order (\<lambda>a b. lc_at a < (lc_at b :: time))" by unfold_locales auto
  then show "slice_order chunk_less"
    unfolding chunk_less_def by (intro slice_order_by)
qed

lemma socket_up:
  assumes ok: "contiguous d" "validChunk c" "lc_seq c < 2 ^ 63"
    and up: "\<And>i. \<not> ax_flt (env j) i" "\<not> lost j" "redact (env j) c = Inr t" "CHR 0x00 \<notin> set t"
    and run: "list_ex (\<lambda>r. tr_id r = lc_run c \<and> tr_token r = Some (lc_token c)) (db_runs (lg_db d))"
    and seq: "lc_seq c \<le> Suc (length (stored d (key_of c)))"
    and same: "lc_seq c \<le> length (stored d (key_of c)) \<Longrightarrow> stored d (key_of c) ! (lc_seq c - 1) = t"
  shows "\<exists>d'. socket_send env lost j c d = (Some (Suc (length (stored d' (key_of c)))), d') \<and>
    lc_seq c \<le> length (stored d' (key_of c)) \<and> lg_db d' = lg_db d"
proof -
  define c' where "c' = (if is_zero_time (lc_at c) then c\<lparr>lc_at := ax_now (env j)\<rparr> else c)\<lparr>lc_content := t\<rparr>"
  have c: "key_of c' = key_of c" "lc_seq c' = lc_seq c" "lc_content c' = t" "lc_run c' = lc_run c" "lc_token c' = lc_token c"
    by (simp_all add: key_of_def c'_def)
  have "redact (env j) (if is_zero_time (lc_at c) then c\<lparr>lc_at := ax_now (env j)\<rparr> else c) = Inr t"
    using up(3) by (simp add: redact_def split: option.splits sum.splits)
  then have acc: "Accept (env j) c d = accept_redacted (env j) c' d" using ok(2) by (simp add: Accept_def Let_def c'_def)
  have nxt: "NextSequence (ax_flt (env j)) (key_of c') d = Inr (Suc (length (stored d (key_of c))))"
    using next_sequence [OF ok(1)] up(1) unfolding c(1) by simp
  have pos: "0 < lc_seq c" using ok(2) by (simp add: validChunk_def)
  show ?thesis
  proof (cases "lc_seq c \<le> length (stored d (key_of c))")
    case True
    have "find_chunk False c' d = Inr (Some (log_chunk.truncate (rows_of d (key_of c) ! (lc_seq c - 1))))"
      using find_chunk_at [OF ok(1), of c'] True pos unfolding c by simp
    moreover have "lc_content (log_chunk.truncate (rows_of d (key_of c) ! (lc_seq c - 1))) = t"
      using same [OF True] True pos by (simp add: stored_def log_chunk.defs)
    ultimately have "accept_redacted (env j) c' d = (Inr (Suc (length (stored d (key_of c)))), d)"
      using True up(1) unfolding accept_redacted_def nxt by (simp add: c)
    then show ?thesis using True up(2) acc by (simp add: socket_send_def)
  next
    case False
    then have s: "lc_seq c' = Suc (length (stored d (key_of c')))" using seq unfolding c by simp
    have "\<not> list_ex (\<lambda>r. key_of r = key_of c' \<and> lc_seq r = lc_seq c') (lg_chunks d)"
    proof
      assume "list_ex (\<lambda>r. key_of r = key_of c' \<and> lc_seq r = lc_seq c') (lg_chunks d)"
      then have "lc_seq c' \<in> set (map lc_seq (rows_of d (key_of c')))"
        by (auto simp: list_ex_iff rows_of_def intro!: image_eqI [OF sym])
      then show False unfolding contiguousD [OF ok(1)] using s by (simp del: upt_Suc)
    qed
    then obtain d1 where ins: "insert_chunk (env j) c' d = (None, d1)"
      using run up ok(3) unfolding insert_chunk_def c by simp
    then have acc2: "accept_redacted (env j) c' d = (Inr (Suc (lc_seq c)), d1)"
      using s unfolding accept_redacted_def nxt by (simp add: c)
    have "stored d1 (key_of c) = stored d (key_of c) @ [t]" "lg_db d1 = lg_db d"
      using insert_chunk_db [OF ok(1) ins s] c by auto
    then show ?thesis using s up(2) acc acc2 c by (intro exI [of _ d1]) (simp add: socket_send_def)
  qed
qed

text \<open>The conditions under which nothing fails: the centre and the disk answer, masking gives \<open>f\<close>, and the runs of the
  spooled streams still have their tokens.\<close>

definition all_up :: "(nat \<Rightarrow> accept_env) \<Rightarrow> (nat \<Rightarrow> bool) \<Rightarrow> (nat \<Rightarrow> faults) \<Rightarrow> (log_key \<Rightarrow> string \<Rightarrow> string) \<Rightarrow> bool" where
  "all_up env lost io f \<longleftrightarrow> (\<forall>j. \<not> lost j \<and> (\<forall>i. \<not> ax_flt (env j) i \<and> \<not> io j i) \<and>
     (\<forall>c. redact (env j) c = Inr (f (key_of c) (lc_content c))))"

definition sendable :: "db \<Rightarrow> (log_key \<Rightarrow> string \<Rightarrow> string) \<Rightarrow> log_key \<Rightarrow> string list \<Rightarrow> bool" where
  "sendable D f k cs \<longleftrightarrow> list_all (\<lambda>t. length t \<le> DefaultChunkSize \<and> CHR 0x00 \<notin> set (f k t)) cs \<and>
     (cs \<noteq> [] \<longrightarrow> list_ex (\<lambda>r. tr_id r = fst k \<and> tr_token r = Some (fst (snd k))) (db_runs D))"

lemma ack_up:
  assumes "good_key k" "\<And>i. \<not> io i"
  shows "fst (Acknowledge dg io k (Suc n) s) = Inr ()"
proof -
  have "fst (remove_acked io i m fs u) = True" for i m fs u
    using assms(2) by (induction io i m fs u rule: remove_acked.induct) (auto split: option.split prod.splits)
  then have "\<exists>fs u. remove_acked io 1 (Suc n) xs us = (True, fs, u)" for xs us by (metis prod.collapse)
  then show ?thesis using assms by (auto simp: Acknowledge_def good_key_def Let_def split: option.split prod.split) (metis fst_conv)+
qed

lemma prefix_map: "prefix_of (\<lambda>k t. {f k t}) h v \<Longrightarrow> v k = map (f k) (take (length (v k)) (h k))"
  unfolding prefix_of_def by (drule spec [of _ k]) (auto simp: list_all2_conv_all_nth intro!: nth_equalityI)

lemma chunk_less_seq: "key_of a = key_of b \<Longrightarrow> lc_seq a < lc_seq b \<Longrightarrow> chunk_less a b"
  by (simp add: chunk_less_def key_of_def)

text \<open>What remains to be sent: the chunks beyond the stored ones, and one of every stream with files.\<close>

definition remaining :: "(string \<Rightarrow> string) \<Rightarrow> history \<Rightarrow> spool \<Rightarrow> log_db \<Rightarrow> log_chunk list \<Rightarrow> bool" where
  "remaining dg h s d cs \<longleftrightarrow>
     (\<forall>k i. length (stored d k) < i \<and> i \<le> length (h k) \<longrightarrow> (\<exists>c \<in> set cs. key_of c = k \<and> lc_seq c = i)) \<and>
     (\<forall>k. on_disk dg s k \<noteq> {} \<longrightarrow> (\<exists>c \<in> set cs. key_of c = k))"

lemma on_disk_bound: "base_ok dg h s \<Longrightarrow> inj dg \<Longrightarrow> on_disk dg s k \<subseteq> {..length (h k)}"
  using base_files_ok [of dg h s k] by (auto simp: on_disk_def files_ok_def chunk_of_def)

lemma remaining_next:
  assumes rem: "remaining dg h s d (c # cs)" and base: "base_ok dg h s'" "inj dg"
    and grow: "\<And>k. length (stored d k) \<le> length (stored d' k)" and seq: "lc_seq c \<le> length (stored d' (key_of c))"
    and disk: "\<And>k. k \<noteq> key_of c \<Longrightarrow> on_disk dg s' k = on_disk dg s k" "on_disk dg s' (key_of c) \<subseteq> {Suc (length (stored d' (key_of c)))..}"
  shows "remaining dg h s' d' cs"
proof -
  have fst: "\<exists>c' \<in> set cs. key_of c' = k \<and> lc_seq c' = i" if i: "length (stored d' k) < i" "i \<le> length (h k)" for k i
  proof -
    have "length (stored d k) < i" using grow [of k] i(1) by simp
    then obtain c' where "c' \<in> set (c # cs)" "key_of c' = k" "lc_seq c' = i"
      using rem i(2) unfolding remaining_def by blast
    then show ?thesis using seq i(1) by auto
  qed
  moreover have "\<exists>c' \<in> set cs. key_of c' = k" if ne: "on_disk dg s' k \<noteq> {}" for k
  proof (cases "k = key_of c")
    case True
    then obtain i where "i \<in> on_disk dg s' k" "Suc (length (stored d' k)) \<le> i" using ne disk(2) by blast
    moreover have "i \<le> length (h k)" if "i \<in> on_disk dg s' k" using on_disk_bound [OF base] that by blast
    ultimately show ?thesis using fst [of k i] by auto
  next
    case False
    then have "on_disk dg s k \<noteq> {}" using ne disk(1) by simp
    then have "\<exists>c' \<in> set (c # cs). key_of c' = k" using rem unfolding remaining_def by blast
    then show ?thesis using False by auto
  qed
  ultimately show ?thesis unfolding remaining_def by blast
qed

lemma head_in_order:
  assumes "remaining dg h s d (c # cs)" "sorted_wrt (\<lambda>x y. \<not> chunk_less y x) (c # cs)" "chunk_of h c"
  shows "lc_seq c \<le> Suc (length (stored d (key_of c)))"
proof (rule ccontr)
  assume late: "\<not> ?thesis"
  then have "Suc (length (stored d (key_of c))) \<le> length (h (key_of c))" using assms(3) by (simp add: chunk_of_def)
  then obtain c' where c': "c' \<in> set (c # cs)" "key_of c' = key_of c" "lc_seq c' = Suc (length (stored d (key_of c)))"
    using assms(1) unfolding remaining_def by blast
  then have "chunk_less c' c" "c' \<in> set cs" using late chunk_less_seq by auto
  then show False using assms(2) by auto
qed

lemma stored_grows:
  assumes "contiguous d" "socket_send env lost j c d = (r, d')"
  shows "length (stored d k) \<le> length (stored d' k)"
proof -
  have "stored d' = stored d \<or> (\<exists>x. stored d' = (stored d)(key_of c := stored d (key_of c) @ [x]))"
    using socket.send_law [OF assms, of "\<lambda>_ _. {}"] by blast
  then show ?thesis by auto
qed

lemma send_all:
  assumes inj: "inj dg" and up: "all_up env lost io f" and D: "\<And>k. sendable D f k (h k)"
  shows "delivered (\<lambda>k t. {f k t}) dg h s (stored d) \<Longrightarrow> contiguous d \<Longrightarrow> lg_db d = D \<Longrightarrow>
    sorted_wrt (\<lambda>x y. \<not> chunk_less y x) cs \<Longrightarrow> \<forall>c \<in> set cs. chunk_of h c \<and> good_key (key_of c) \<Longrightarrow> remaining dg h s d cs \<Longrightarrow>
    \<exists>s' d'. send_chunks dg (socket_send env lost) io j cs (s, d) = (Inr (), s', d') \<and>
      delivered (\<lambda>k t. {f k t}) dg h s' (stored d') \<and> remaining dg h s' d' []"
proof (induction cs arbitrary: j s d)
  case (Cons c cs)
  let ?k = "key_of c" and ?M = "\<lambda>k t. {f k t}"
  have masks: "(\<lambda>k t. {f k t} \<union> masks env k t) = ?M" using up by (auto simp: all_up_def masks_def fun_eq_iff)
  have c: "chunk_of h c" "good_key ?k" using Cons.prems(5) by auto
  have base: "base_ok dg h s" "prefix_of ?M h (stored d)" using Cons.prems(1) by (simp_all add: delivered_def)
  have mem: "lc_content c \<in> set (h ?k)" "lc_content c = h ?k ! (lc_seq c - 1)" "0 < lc_seq c" "lc_seq c \<le> length (h ?k)"
    using c(1) by (auto simp: chunk_of_def)
  have small: "length (lc_content c) \<le> DefaultChunkSize" "CHR 0x00 \<notin> set (f ?k (lc_content c))"
      "list_ex (\<lambda>r. tr_id r = lc_run c \<and> tr_token r = Some (lc_token c)) (db_runs D)"
    using D [of ?k] mem(1) by (auto simp: sendable_def list_all_iff key_of_def)
  have valid: "validChunk c" using c(2) small(1) mem(3) by (auto simp: validChunk_def good_key_def key_of_def)
  have lim: "lc_seq c < 2 ^ 63" using base(1) mem(4) by (auto simp: base_ok_def intro: le_less_trans)
  have same: "stored d ?k ! (lc_seq c - 1) = f ?k (lc_content c)" if "lc_seq c \<le> length (stored d ?k)"
  proof -
    obtain n where n: "lc_seq c = Suc n" using mem(3) by (cases "lc_seq c") auto
    then show ?thesis using arg_cong [OF prefix_map [OF base(2), of ?k], of "\<lambda>l. l ! n"] mem(2,4) that by simp
  qed
  obtain d1 where d1: "socket_send env lost j c d = (Some (Suc (length (stored d1 ?k))), d1)"
      "lc_seq c \<le> length (stored d1 ?k)" "lg_db d1 = lg_db d"
    using socket_up [OF Cons.prems(2) valid lim, of env j lost "f ?k (lc_content c)"] up small Cons.prems(3) same
      head_in_order [OF Cons.prems(6,4) c(1)] unfolding all_up_def by blast
  have del1: "delivered ?M dg h s (stored d1)"
    using socket.send_delivered [of ?M env dg h s d, unfolded masks, OF Cons.prems(1,2) c(1) d1(1)] .
  have con1: "contiguous d1" using socket.send_law [OF Cons.prems(2) d1(1), of ?M] by blast
  obtain s1 where ack: "Acknowledge dg (io j) ?k (Suc (length (stored d1 ?k))) s = (Inr (), s1)"
    using ack_up [OF c(2), of "io j" dg "length (stored d1 ?k)" s] up unfolding all_up_def by (metis prod.collapse)
  have a: "delivered ?M dg h s1 (stored d1)" "\<And>k'. k' \<noteq> ?k \<Longrightarrow> on_disk dg s1 k' = on_disk dg s k'"
      "on_disk dg s1 ?k \<subseteq> {Suc (length (stored d1 ?k))..}"
    using ack_delivered [OF del1 inj ack] by auto
  have base1: "base_ok dg h s1" using a(1) by (simp add: delivered_def)
  have "remaining dg h s1 d1 cs"
    by (rule remaining_next [OF Cons.prems(6) base1 inj stored_grows [OF Cons.prems(2) d1(1)] d1(2) a(2,3)])
  then obtain s' d' where "send_chunks dg (socket_send env lost) io (j + 1) cs (s1, d1) = (Inr (), s', d')"
      "delivered ?M dg h s' (stored d')" "remaining dg h s' d' []"
    using Cons.IH [OF a(1) con1, of "j + 1"] Cons.prems d1(3) by auto
  then show ?case using d1(1) ack by auto
qed auto

end
