(* ===== verification/Log_Theorems.thy ===== *)
theory Log_Theorems
  imports Log_Delivery Run_Theorems
begin

text \<open>
  What log streaming guarantees over every history of writes, flushes, failures and restarts: what
  the centre stores of a stream is always a gap-free prefix of what the agent spooled while
  everything else is still on the agent's disk, and a flush without failures delivers it all; and
  the situations in which logs are damaged or stuck.
\<close>

declare split_paired_All [simp del] split_paired_Ex [simp del]

section \<open>Every history\<close>

text \<open>
  What can happen to a spool and a centre: a new spool on an empty disk and a centre without chunks,
  successful writes of the processes, flushes in which anything may fail, restarts of the agent, and
  any change of the tables other than the chunks. \<open>M\<close> bounds what masking may make of a content.
  Writes that fail after part of the chunks is on disk are not among these steps (see
  \<open>reused_number_blocks_stream\<close> below).
\<close>

inductive log_reach :: "(string \<Rightarrow> string) \<Rightarrow> (log_key \<Rightarrow> string \<Rightarrow> string set) \<Rightarrow> spool \<Rightarrow> log_db \<Rightarrow> history \<Rightarrow> bool"
  for dg M where
  log_start: "NewSpool fails root n bytes [] = Inr s \<Longrightarrow> lg_chunks d = [] \<Longrightarrow> log_reach dg M s d (\<lambda>_. [])"
| log_write: "log_reach dg M s d h \<Longrightarrow> spool_append dg x k content s = (Inr cs, s') \<Longrightarrow>
    length (h k) + length cs < 2 ^ 63 \<Longrightarrow> log_reach dg M s' d (h(k := h k @ map lc_content cs))"
| log_flush: "log_reach dg M s d h \<Longrightarrow> (\<And>j c t. redact (env j) c = Inr t \<Longrightarrow> t \<in> M (key_of c) (lc_content c)) \<Longrightarrow>
    flush dg (socket_send env lost) io fails (s, d) = (res, s', d') \<Longrightarrow> log_reach dg M s' d' h"
| log_restart: "log_reach dg M s d h \<Longrightarrow> NewSpool fails root n bytes (so_dirs s) = Inr s' \<Longrightarrow> log_reach dg M s' d h"
| log_other: "log_reach dg M s d h \<Longrightarrow> lg_chunks d' = lg_chunks d \<Longrightarrow> log_reach dg M s d' h"

lemma delivered_empty: "NewSpool fails root n bytes [] = Inr s \<Longrightarrow> lg_chunks d = [] \<Longrightarrow> delivered M dg (\<lambda>_. []) s (stored d)"
  by (auto simp: NewSpool_def delivered_def base_ok_def dir_at_def cursor_ok_def base_dir_def covered_def prefix_of_def
      stored_def rows_of_def split: if_splits)

lemma delivered_dirs:
  assumes "delivered M dg h s v" "so_dirs s' = so_dirs s" "0 < so_chunk_size s'"
  shows "delivered M dg h s' v"
proof -
  have "dir_at p s' = dir_at p s" for p using assms(2) by (simp add: dir_at_def)
  then have "base_dir p s' = base_dir p s" "dir_at p s' = dir_at p s" for p by (simp_all add: base_dir_def)
  then show ?thesis using assms unfolding delivered_def base_ok_def cursor_ok_def covered_def on_disk_def by simp
qed

lemma flush_delivered:
  assumes del: "delivered M dg h s (stored d)" "contiguous d" "inj dg"
    and mask: "\<And>j c t. redact (env j) c = Inr t \<Longrightarrow> t \<in> M (key_of c) (lc_content c)"
    and flush: "flush dg (socket_send env lost) io fails (s, d) = (res, s', d')"
  shows "delivered M dg h s' (stored d') \<and> contiguous d'"
proof (cases "AllPending fails s")
  case (Inl e)
  then show ?thesis using flush del by (auto simp: flush_def)
next
  case (Inr cs)
  have masks: "(\<lambda>k t. M k t \<union> masks env k t) = M"
  proof (intro ext)
    fix k t
    show "M k t \<union> masks env k t = M k t" using mask by (auto simp: masks_def)
  qed
  have "base_ok dg h s" using del(1) by (simp add: delivered_def)
  then have cs: "\<forall>c \<in> set cs. chunk_of h c" using all_pending_chunk(1) [OF _ del(3) Inr] by blast
  have "send_chunks dg (socket_send env lost) io 0 cs (s, d) = (res, s', d')" using flush Inr by (simp add: flush_def)
  then show ?thesis using socket.send_chunks_delivered [of M env, unfolded masks, OF del cs] by blast
qed

lemma reach_delivered: "log_reach dg M s d h \<Longrightarrow> inj dg \<Longrightarrow> delivered M dg h s (stored d) \<and> contiguous d"
proof (induction rule: log_reach.induct)
  case (log_start fails root n bytes s d)
  moreover have "contiguous d" using log_start(2) by (simp add: contiguous_def rows_of_def stored_def)
  ultimately show ?case using delivered_empty by blast
next
  case (log_write s d h x k content cs s')
  then show ?case using append_delivered by blast
next
  case (log_flush s d h env lost io fails res s' d')
  then show ?case using flush_delivered by blast
next
  case (log_restart s d h fails root n bytes s')
  then show ?case using delivered_dirs [of M dg h s "stored d" s'] by (auto simp: NewSpool_def split: if_splits)
next
  case (log_other s d h d')
  then have "stored d' = stored d" "rows_of d' = rows_of d" by (auto simp: stored_def rows_of_def fun_eq_iff)
  then show ?case using log_other by (simp add: contiguous_def)
qed

lemma on_disk_pending:
  assumes "base_ok dg h s" "inj dg" "i \<in> on_disk dg s k"
  shows "\<exists>c \<in> set (pending_at (directory dg k) s). lc_seq c = i \<and> lc_content c = h k ! (i - 1)"
proof -
  obtain n f where f: "(n, f) \<in> set (sd_files (base_dir (directory dg k) s))" "lc_seq (sf_chunk f) = i"
    using assms(3) by (auto simp: on_disk_def)
  then obtain dir where dir: "dir_at (directory dg k) s = Some dir" "base_dir (directory dg k) s = dir"
    by (cases "dir_at (directory dg k) s") (auto simp: base_dir_def)
  have c: "chunk_of h (sf_chunk f)" "key_of (sf_chunk f) = k" "n = file_name (lc_seq (sf_chunk f))"
    using base_files_ok [OF assms(1,2), of k] f(1) by (auto simp: files_ok_def)
  have "length (h k) < 2 ^ 63" using assms(1) by (simp add: base_ok_def)
  then have "sequenceFromName n \<noteq> None" using c sequence_of_file_name [of "lc_seq (sf_chunk f)"] by (simp add: chunk_of_def)
  then have "sf_chunk f \<in> set (pending_at (directory dg k) s)"
    using f(1) dir by (force simp: pending_at_def chunk_files_def)
  then show ?thesis using c f(2) by (auto simp: chunk_of_def)
qed

section \<open>Properties\<close>

text \<open>A run that was assigned, a spool with chunks of four bytes and one write.\<close>

definition sample_key :: log_key where
  "sample_key = (''r'', ''t'', ''stdout'')"

definition sample_io :: spool_env where
  "sample_io = \<lparr>pe_now = (\<lambda>_. 7), pe_enc = (\<lambda>c. int (length (lc_content c)) + 20), pe_io = no_faults\<rparr>"

definition sample_accept :: accept_env where
  "sample_accept = \<lparr>ax_flt = no_faults, ax_values = None, ax_mask = (\<lambda>t vs. t), ax_now = 9, ax_received = 9, ax_cursor = 1\<rparr>"

definition sample_spool :: "nat \<Rightarrow> spool" where
  "sample_spool n = \<lparr>so_chunk_size = n, so_max = 1000, so_used = 0, so_dirs = []\<rparr>"

definition sample_centre :: log_db where
  "sample_centre = \<lparr>lg_db = sample_assigned, lg_chunks = [], lg_archives = []\<rparr>"

definition sample_written :: "(log_error + log_chunk list) \<times> spool" where
  "sample_written = spool_append id sample_io sample_key ''hello'' (sample_spool 4)"

lemma u64_code [code]: "u64 n = nat (int n mod 18446744073709551616)"
  by (simp add: u64_def nat_mod_distrib)

lemma parse_uint64_code [code]:
  "parse_uint64 s = (if s = [] \<or> \<not> list_all is_digit s \<or> int (decimal_value s) \<ge> 18446744073709551616 then None
     else Some (decimal_value s))"
  by (auto simp: parse_uint64_def)

lemma DefaultChunkSize_code [code]:
  "validChunk c \<longleftrightarrow> \<not> (blank (lc_run c) \<or> blank (lc_token c) \<or> lc_seq c = 0) \<and> validStream (lc_stream c) \<and>
     int (length (lc_content c)) \<le> 65536"
  by (auto simp: validChunk_def DefaultChunkSize_def)

lemma insert_chunk_code [code]:
  "insert_chunk x c d =
     (if ax_flt x 2 \<or> CHR 0x00 \<in> set (lc_content c) \<or> int (lc_seq c) \<ge> 9223372036854775808 then (Some ErrLogStore, d)
      else if \<not> list_ex (\<lambda>r. tr_id r = lc_run c \<and> tr_token r = Some (lc_token c)) (db_runs (lg_db d))
      then (Some ErrTokenMismatch, d)
      else if list_ex (\<lambda>r. key_of r = key_of c \<and> lc_seq r = lc_seq c) (lg_chunks d) then (Some ErrLogStore, d)
      else (if ax_flt x 3 then Some ErrLogStore else None,
            d\<lparr>lg_chunks := lg_chunks d @ [log_chunk.extend c (chunk_row.fields (ax_cursor x) (ax_received x))]\<rparr>))"
  unfolding insert_chunk_def by simp

lemma split_content_code [code]:
  "split_content n s = (case s of [] \<Rightarrow> [] | _ # _ \<Rightarrow>
     (case n of 0 \<Rightarrow> [] | Suc _ \<Rightarrow> take (cut_length n s) s # split_content n (drop (cut_length n s) s)))"
  by (subst split_content.simps) (simp split: list.split nat.split)

lemma replacement_bytes: "encode_scalar rune_error = [CHR 0xEF, CHR 0xBF, CHR 0xBD]"
proof -
  have "encode_scalar rune_error = map char_of [239 :: nat, 191, 189]" by (simp add: encode_scalar_def rune_error_def)
  also have "\<dots> = [CHR 0xEF, CHR 0xBF, CHR 0xBD]" by code_simp
  finally show ?thesis .
qed

definition rune_width :: "string \<Rightarrow> nat" where
  "rune_width s = snd (decode_rune s)"

lemma rune_width_code [code]:
  "rune_width s =
     (if s = [] then 0
      else
        (let b0 = byte_at s 0; b1 = byte_at s 1; b2 = byte_at s 2; b3 = byte_at s 3 in
         if b0 < 128 then 1
         else if 194 \<le> b0 \<and> b0 \<le> 223 \<and> cont b1 then 2
         else if 224 \<le> b0 \<and> b0 \<le> 239 \<and> second_ok b0 b1 \<and> cont b2 then 3
         else if 240 \<le> b0 \<and> b0 \<le> 244 \<and> second_ok b0 b1 \<and> cont b2 \<and> cont b3 then 4
         else 1))"
  by (simp add: rune_width_def decode_rune_def Let_def)

lemma valid_from_code [code]:
  "valid_from bad s = (case s of [] \<Rightarrow> [] | _ # _ \<Rightarrow>
     (let w = rune_width s in
      if \<not> byte_at s 0 < 128 \<and> w = 1
      then (if bad then [] else [CHR 0xEF, CHR 0xBF, CHR 0xBD]) @ valid_from True (tl s)
      else take w s @ valid_from False (drop w s)))"
  unfolding replacement_bytes [symmetric] rune_width_def by (subst valid_from.simps) (simp split: list.split)

lemma sample_written_chunks:
  "map_sum id (map (\<lambda>c. (lc_seq c, lc_content c))) (fst sample_written) = Inr [(1, ''hell''), (2, ''o'')]"
  by code_simp

lemma sample_written_split:
  obtains cs s where "sample_written = (Inr cs, s)" "map lc_content cs = [''hell'', ''o'']"
proof -
  have w: "sample_written = (fst sample_written, snd sample_written)" by simp
  obtain cs where cs: "fst sample_written = Inr cs" "map (\<lambda>c. (lc_seq c, lc_content c)) cs = [(1, ''hell''), (2, ''o'')]"
    using sample_written_chunks by (cases "fst sample_written") auto
  have "map lc_content cs = map snd (map (\<lambda>c. (lc_seq c, lc_content c)) cs)" by simp
  then have "map lc_content cs = [''hell'', ''o'']" unfolding cs(2) by simp
  then show ?thesis using that w cs(1) by metis
qed

lemma sample_log_reach: "log_reach id (\<lambda>k t. {t}) (snd sample_written) sample_centre ((\<lambda>_. [])(sample_key := [''hell'', ''o'']))"
proof -
  obtain cs s where w: "sample_written = (Inr cs, s)" "map lc_content cs = [''hell'', ''o'']" by (rule sample_written_split)
  have "length cs = 2" using arg_cong [OF w(2), of length] by simp
  then have small: "length ((\<lambda>_ :: log_key. [] :: string list) sample_key) + length cs < 2 ^ 63" by simp
  have "NewSpool no_faults ''/'' 4 1000 [] = Inr (sample_spool 4)"
    by (simp add: NewSpool_def DefaultChunkSize_def bufferedBytes_def sample_spool_def no_faults_def) code_simp
  then have "log_reach id (\<lambda>k t. {t}) (sample_spool 4) sample_centre (\<lambda>_. [])"
    by (rule log_start) (simp add: sample_centre_def)
  from log_write [OF this w(1) [unfolded sample_written_def] small]
  show ?thesis unfolding w append_Nil snd_conv .
qed



text \<open>C35. A flush in which nothing fails delivers everything. When the centre and the disk answer, the runs
  still carry their tokens, no chunk exceeds the limit of the centre and masking neither varies nor leaves a
  zero byte, one flush returns without an error, the centre then holds every spooled chunk of every stream
  in masked form, and nothing is pending any more.\<close>

theorem flush_delivers_everything:
  assumes "inj dg" "log_reach dg (\<lambda>k t. {f k t}) s d h" "all_up env lost io f" "\<And>k. sendable (lg_db d) f k (h k)"
  shows "\<exists>s' d'. flush dg (socket_send env lost) io False (s, d) = (Inr (), s', d') \<and>
    (\<forall>k. stored d' k = map (f k) (h k)) \<and> AllPending False s' = Inr []"
proof -
  let ?M = "\<lambda>k t. {f k t}"
  have del: "delivered ?M dg h s (stored d)" "contiguous d" using reach_delivered [OF assms(2,1)] by auto
  have parts: "base_ok dg h s" "covered dg h s (stored d)" using del(1) by (auto simp: delivered_def)
  obtain cs where cs: "AllPending False s = Inr cs" by (simp add: AllPending_def)
  have sorted: "sorted_wrt (\<lambda>x y. \<not> chunk_less y x) cs"
    using cs chunk_order.sorted_slice_stable by (auto simp: AllPending_def)
  have good: "\<forall>c \<in> set cs. chunk_of h c \<and> good_key (key_of c)" using all_pending_chunk(1) [OF parts(1) assms(1) cs] by blast
  have "remaining dg h s d cs" unfolding remaining_def
  proof (intro conjI allI impI)
    fix k i
    assume "length (stored d k) < i \<and> i \<le> length (h k)"
    then have "i \<in> {Suc (length (stored d k))..length (h k)}" by simp
    then have "i \<in> on_disk dg s k" using parts(2) unfolding covered_def by blast
    then show "\<exists>c \<in> set cs. key_of c = k \<and> lc_seq c = i" by (rule all_pending_chunk(2) [OF parts(1) assms(1) cs])
  next
    fix k
    assume "on_disk dg s k \<noteq> {}"
    then show "\<exists>c \<in> set cs. key_of c = k" using all_pending_chunk(2) [OF parts(1) assms(1) cs] by blast
  qed
  then obtain s' d' where sent: "send_chunks dg (socket_send env lost) io 0 cs (s, d) = (Inr (), s', d')"
      "delivered ?M dg h s' (stored d')" "remaining dg h s' d' []"
    using send_all [OF assms(1,3,4) del refl sorted good] by blast
  have base': "base_ok dg h s'" "prefix_of ?M h (stored d')" using sent(2) by (auto simp: delivered_def)
  have all: "stored d' k = map (f k) (h k)" for k
  proof -
    have "\<not> length (stored d' k) < length (h k)" using sent(3) unfolding remaining_def by auto
    then show ?thesis using prefix_map [OF base'(2), of k] by simp
  qed
  obtain cs' where cs': "AllPending False s' = Inr cs'" by (simp add: AllPending_def)
  have "c \<notin> set cs'" for c using all_pending_chunk(1) [OF base'(1) assms(1) cs', of c] sent(3) unfolding remaining_def by auto
  then have "cs' = []" by (cases cs') auto
  then show ?thesis using sent(1) cs cs' all by (auto simp: flush_def)
qed

theorem flush_delivers_everything_witness:
  "\<exists>s' d'. flush id (socket_send (\<lambda>_. sample_accept) (\<lambda>_. False)) (\<lambda>_. no_faults) False (snd sample_written, sample_centre) =
      (Inr (), s', d') \<and> stored d' sample_key = [''hell'', ''o''] \<and> AllPending False s' = Inr []"
proof -
  have up: "all_up (\<lambda>_. sample_accept) (\<lambda>_. False) (\<lambda>_. no_faults) (\<lambda>k t. t)"
    by (simp add: all_up_def sample_accept_def no_faults_def redact_def)
  have "list_ex (\<lambda>r. tr_id r = fst sample_key \<and> tr_token r = Some (fst (snd sample_key))) (db_runs sample_assigned)" by code_simp
  then have "sendable (lg_db sample_centre) (\<lambda>k t. t) k (((\<lambda>_. [])(sample_key := [''hell'', ''o''])) k)" for k
    by (simp add: sendable_def sample_centre_def DefaultChunkSize_def)
  from flush_delivers_everything [OF inj_on_id sample_log_reach up this] show ?thesis by auto
qed

text \<open>C36. Cutting the output of a process into chunks loses nothing: of well-formed UTF-8, with chunks of at
  least four bytes, the contents of the chunks are together exactly the text, every chunk is itself
  well-formed, belongs to the stream, and is within the chunk size.\<close>

theorem spooled_text_exact:
  assumes "list_all scalar rs" "4 \<le> so_chunk_size s" "spool_append dg x k (utf8 rs) s = (Inr cs, s')"
  shows "concat (map lc_content cs) = utf8 rs \<and>
    (\<forall>c \<in> set cs. key_of c = k \<and> length (lc_content c) \<le> so_chunk_size s \<and> lc_content c \<noteq> [] \<and>
       (\<exists>qs. list_all scalar qs \<and> lc_content c = utf8 qs))"
proof -
  have keys: "\<forall>c \<in> set (number_chunks k now n ps). key_of c = k" for now n ps
    by (induction k now n ps rule: number_chunks.induct) (auto simp: key_of_def)
  let ?ps = "split_content (so_chunk_size s) (utf8 rs)"
  obtain n where cs: "cs = number_chunks k (pe_now x) n ?ps"
    by (rule spool_append_Inr [OF assms(3)]) blast
  have pieces: "\<forall>p \<in> set ?ps. \<exists>qs. list_all scalar qs \<and> p = utf8 qs" using split_utf8 [OF assms(1,2)] .
  then have "map to_valid_utf8 ?ps = ?ps"
    using valid_from_utf8 by (intro map_idI) (auto simp: to_valid_utf8_def)
  then have contents: "map lc_content cs = ?ps" unfolding cs number_chunks_contents .
  have size: "0 < so_chunk_size s" using assms(2) by simp
  have "length (lc_content c) \<le> so_chunk_size s \<and> lc_content c \<noteq> [] \<and> (\<exists>qs. list_all scalar qs \<and> lc_content c = utf8 qs)"
    if c: "c \<in> set cs" for c
  proof -
    have "lc_content c \<in> set ?ps" using c contents by (metis image_eqI set_map)
    then show ?thesis using pieces split_size [OF size] by blast
  qed
  moreover have "concat (map lc_content cs) = utf8 rs" unfolding contents by (rule concat_split [OF size])
  moreover have "\<forall>c \<in> set cs. key_of c = k" unfolding cs by (rule keys)
  ultimately show ?thesis by blast
qed

theorem spooled_text_exact_witness:
  "concat (map lc_content (projr (fst sample_written))) = ''hello''"
proof -
  obtain cs s where w: "sample_written = (Inr cs, s)" by (rule sample_written_split)
  have text5: "utf8 [104, 101, 108, 108, 111] = ''hello''" "list_all scalar [104, 101, 108, 108, 111]"
    by (simp_all add: encode_scalar_def scalar_def) code_simp
  show ?thesis
    using spooled_text_exact [of "[104, 101, 108, 108, 111]" "sample_spool 4" id sample_io sample_key cs s] w text5
    by (simp add: sample_written_def sample_spool_def)
qed

section \<open>Damaged and stuck logs\<close>

definition run_flush :: "accept_env \<Rightarrow> spool \<times> log_db \<Rightarrow> (log_error + unit) \<times> spool \<times> log_db" where
  "run_flush x = flush id (socket_send (\<lambda>_. x) (\<lambda>_. False)) (\<lambda>_. no_faults) False"

definition run_append :: "spool_env \<Rightarrow> string \<Rightarrow> spool \<Rightarrow> spool" where
  "run_append x content s = snd (spool_append id x sample_key content s)"

definition masking_accept :: accept_env where
  "masking_accept = sample_accept\<lparr>ax_values := Some (\<lambda>_ _. Inr [''secret'']), ax_mask := Mask to_lower id\<rparr>"

definition stored_after :: "accept_env \<Rightarrow> spool \<Rightarrow> string list" where
  "stored_after x s = stored (snd (snd (run_flush x (s, sample_centre)))) sample_key"

definition pending_texts :: "spool \<Rightarrow> string list" where
  "pending_texts s = map lc_content (pending_at (directory id sample_key) s)"

text \<open>Masking works chunk by chunk: a secret that is cut by a chunk or by two writes is stored in the clear.\<close>

lemma straddling_secret_stored:
  "stored_after masking_accept (run_append sample_io ''a secret'' (sample_spool 16)) = [''a ******'']"
  "stored_after masking_accept (run_append sample_io ''cret'' (run_append sample_io ''a se'' (sample_spool 16))) = [''a se'', ''cret'']"
  by code_simp+

text \<open>A rune whose bytes arrive in two writes becomes two replacement runes.\<close>

lemma split_rune_replaced:
  "pending_texts (run_append sample_io [CHR 0xA9] (run_append sample_io [CHR 0xC3] (sample_spool 16))) =
     [[CHR 0xEF, CHR 0xBF, CHR 0xBD], [CHR 0xEF, CHR 0xBF, CHR 0xBD]]"
  "pending_texts (run_append sample_io [CHR 0xC3, CHR 0xA9] (sample_spool 16)) = [[CHR 0xC3, CHR 0xA9]]"
  by code_simp+

text \<open>Replacing malformed bytes makes a chunk longer than the chunk size, which for a spool with chunks of the limit
  of the centre is a chunk that the centre always refuses.\<close>

lemma replacement_exceeds_chunk_size:
  "map length (pending_texts (run_append sample_io (concat (replicate 4 [CHR 0xFF, CHR ''a''])) (sample_spool 8))) = [16]"
  by code_simp

text \<open>A zero byte in the output is valid UTF-8, but no value of a text column: the chunk, and with it all later ones of
  the agent, is never accepted.\<close>

lemma zero_byte_blocks_stream:
  "run_flush sample_accept (run_append sample_io ''on'' (run_append sample_io [CHR 0x00] (sample_spool 16)), sample_centre) =
     (Inl ErrSend, run_append sample_io ''on'' (run_append sample_io [CHR 0x00] (sample_spool 16)), sample_centre)"
  by code_simp

text \<open>The chunks are on disk before the cursor is. When writing the cursor fails and the chunks are delivered and
  removed, their numbers are given out again, and the centre refuses the new chunks as conflicting.\<close>

definition lost_cursor :: "spool \<times> log_db" where
  "lost_cursor = snd (run_flush sample_accept
     (run_append (sample_io\<lparr>pe_io := (\<lambda>i. i = 2)\<rparr>) ''one'' (sample_spool 16), sample_centre))"

lemma reused_number_blocks_stream:
  "stored (snd lost_cursor) sample_key = [''one'']"
  "run_flush sample_accept (run_append sample_io ''two'' (fst lost_cursor), snd lost_cursor) =
     (Inl ErrSend, run_append sample_io ''two'' (fst lost_cursor), snd lost_cursor)"
  by code_simp+

end
