(* ===== verification/Go_Result.thy ===== *)
theory Go_Result
  imports Go_Encoding
begin

text \<open>
  The sequencing of fallible steps (\<^verbatim>\<open>if err != nil { return err }\<close>) for components with long
  transactions, and the parts of \<^verbatim>\<open>encoding/base64\<close>, \<^verbatim>\<open>encoding/hex\<close> and \<^verbatim>\<open>fmt.Sscanf\<close> they use.
\<close>

section \<open>Sequencing\<close>

definition and_then :: "'e + 'a \<Rightarrow> ('a \<Rightarrow> 'e + 'b) \<Rightarrow> 'e + 'b" where
  "and_then m f = (case m of Inl e \<Rightarrow> Inl e | Inr x \<Rightarrow> f x)"

definition check :: "bool \<Rightarrow> 'e \<Rightarrow> 'e + unit" where
  "check b e = (if b then Inr () else Inl e)"

lemma and_then_simps [simp]: "and_then (Inl e) f = Inl e" "and_then (Inr x) f = f x"
  by (simp_all add: and_then_def)

lemma and_then_Inr [simp]: "and_then m f = Inr y \<longleftrightarrow> (\<exists>x. m = Inr x \<and> f x = Inr y)"
  by (cases m) auto

lemma check_Inr [simp]: "check b e = Inr u \<longleftrightarrow> b"
  by (simp add: check_def)

lemma and_then_cong: "m = m' \<Longrightarrow> (\<And>x. m' = Inr x \<Longrightarrow> f x = g x) \<Longrightarrow> and_then m f = and_then m' g"
  by (cases m') simp_all

section \<open>Base64 without padding, and hexadecimal\<close>

definition base64_value :: "bool \<Rightarrow> char \<Rightarrow> nat option" where
  "base64_value url c =
     (let n = byte c in
      if 65 \<le> n \<and> n \<le> 90 then Some (n - 65)
      else if 97 \<le> n \<and> n \<le> 122 then Some (n - 71)
      else if 48 \<le> n \<and> n \<le> 57 then Some (n + 4)
      else if c = (if url then CHR ''-'' else CHR ''+'') then Some 62
      else if c = (if url then CHR ''_'' else CHR ''/'') then Some 63
      else None)"

fun base64_bytes :: "nat list \<Rightarrow> string option" where
  "base64_bytes (a # b # c # d # s) =
     map_option (\<lambda>t. char_of (a * 4 + b div 16) # char_of (b mod 16 * 16 + c div 4) # char_of (c mod 4 * 64 + d) # t) (base64_bytes s)"
| "base64_bytes [a, b, c] = Some [char_of (a * 4 + b div 16), char_of (b mod 16 * 16 + c div 4)]"
| "base64_bytes [a, b] = Some [char_of (a * 4 + b div 16)]"
| "base64_bytes [a] = None"
| "base64_bytes [] = Some []"

text \<open>Decoding skips line ends and does not look at the unused bits of the last character.\<close>

definition base64_decode :: "bool \<Rightarrow> string \<Rightarrow> string option" where
  "base64_decode url s =
     (let vs = map (base64_value url) (filter (\<lambda>c. c \<noteq> CHR 0x0A \<and> c \<noteq> CHR 0x0D) s) in
      if None \<in> set vs then None else base64_bytes (map the vs))"

definition hex_lower :: "nat \<Rightarrow> char" where
  "hex_lower n = (if n < 10 then char_of (48 + n) else char_of (87 + n))"

definition hex_encode :: "string \<Rightarrow> string" where
  "hex_encode s = concat (map (\<lambda>c. [hex_lower (byte c div 16), hex_lower (byte c mod 16)]) s)"

lemma byte_less [simp]: "byte c < 256"
  by (simp add: byte_def)

lemma char_of_byte [simp]: "char_of (byte c) = c"
  by (simp add: byte_def)

lemma byte_char_of [simp]: "n < 256 \<Longrightarrow> byte (char_of n) = n"
  by (simp add: byte_def)

lemma line_end_values: "base64_value url (CHR 0x0A) = None" "base64_value url (CHR 0x0D) = None"
  by (simp_all add: base64_value_def byte_def)

lemma base64_value_char:
  assumes "n < 64"
  shows "base64_value url (base64_char url n) = Some n"
proof (cases "n < 62")
  case True
  then show ?thesis by (auto simp: base64_value_def base64_char_def Let_def)
next
  case False
  then have "n = 62 \<or> n = 63" using assms by linarith
  then show ?thesis by (cases url) (auto simp: base64_value_def base64_char_def Let_def byte_def)
qed

fun base64_digits :: "string \<Rightarrow> nat list" where
  "base64_digits (a # b # c # s) =
     [byte a div 4, byte a mod 4 * 16 + byte b div 16, byte b mod 16 * 4 + byte c div 64, byte c mod 64] @ base64_digits s"
| "base64_digits [a, b] = [byte a div 4, byte a mod 4 * 16 + byte b div 16, byte b mod 16 * 4]"
| "base64_digits [a] = [byte a div 4, byte a mod 4 * 16]"
| "base64_digits [] = []"

lemma base64_encode_digits: "base64_encode url False s = map (base64_char url) (base64_digits s)"
  by (induction s rule: base64_digits.induct) simp_all

lemma digit_bounds:
  "byte a div 4 < 64" "byte a mod 4 * 16 + byte b div 16 < 64" "byte a mod 16 * 4 + byte b div 64 < 64" "byte a mod 64 < 64"
  "byte a mod 4 * 16 < 64" "byte a mod 16 * 4 < 64"
  using byte_less [of a] byte_less [of b] by linarith+

lemma base64_digits_less: "n \<in> set (base64_digits s) \<Longrightarrow> n < 64"
  by (induction s rule: base64_digits.induct) (auto simp: digit_bounds)

lemma six_bits:
  "(m * 16 + byte b div 16) div 16 = m" "byte b div 16 mod 16 = byte b div 16"
  "(m * 4 + byte b div 64) div 4 = m" "byte b div 64 mod 4 = byte b div 64"
proof -
  have "byte b div 16 < 16" "byte b div 64 < 4" using byte_less [of b] by (simp_all add: less_mult_imp_div_less)
  then show "(m * 16 + byte b div 16) div 16 = m" "byte b div 16 mod 16 = byte b div 16"
    "(m * 4 + byte b div 64) div 4 = m" "byte b div 64 mod 4 = byte b div 64" by simp_all
qed

lemma base64_bytes_digits: "base64_bytes (base64_digits s) = Some s"
  by (induction s rule: base64_digits.induct) (simp_all add: six_bits div_mult_mod_eq)

lemma base64_roundtrip: "base64_decode url (base64_encode url False s) = Some s"
proof -
  have val: "base64_value url c \<noteq> None" if "c \<in> set (base64_encode url False s)" for c
    using that base64_value_char base64_digits_less by (auto simp: base64_encode_digits)
  then have "filter (\<lambda>c. c \<noteq> CHR 0x0A \<and> c \<noteq> CHR 0x0D) (base64_encode url False s) = base64_encode url False s"
    using line_end_values by (intro filter_True) metis
  moreover have "map (base64_value url) (base64_encode url False s) = map Some (base64_digits s)"
    using base64_value_char base64_digits_less by (simp add: base64_encode_digits)
  ultimately show ?thesis by (simp add: base64_decode_def base64_bytes_digits comp_def image_iff)
qed

end
