(* ===== verification/Auth.thy ===== *)
theory Auth
  imports Go_Result Task_Model Utf8
begin

text \<open>
  Accounts (\<^verbatim>\<open>internal/auth\<close>, \<^verbatim>\<open>cmd/bootstrap\<close>): roles and permissions, password hashes, sessions,
  the life cycle of team members and the change of a password. Library code is the argument \<open>lib\<close>:
  letter case of Go and of PostgreSQL, the collation of the database, parsing of UUIDs, mail and IP
  addresses, SHA-256 and Argon2id. The
  random source yields bytes or fails; fresh identifiers and the clock of the database are arguments.
\<close>

section \<open>Roles and permissions\<close>

datatype auth_error = ErrInvalidCredentials | ErrUserNotFound | ErrSessionNotFound | ErrInvalidRoles
  | ErrMemberNotFound | ErrInvalidMember | ErrDuplicateEmail | ErrMemberStateConflict | ErrCannotModifySelf
  | ErrLastAdmin | ErrPasswordRejected | ErrPasswordRateLimited | ErrPasswordChanged | ErrInvalidPasswordHash
  | ErrAuthStore | ErrAuthArgument | ErrAuthRandom

type_synonym role = string
type_synonym permission = string

definition RoleAdmin :: role where "RoleAdmin = ''admin''"
definition RoleOperator :: role where "RoleOperator = ''operator''"
definition RoleDeveloper :: role where "RoleDeveloper = ''developer''"
definition RoleViewer :: role where "RoleViewer = ''viewer''"

definition PermissionAdmin :: permission where "PermissionAdmin = ''system.admin''"
definition PermissionExecute :: permission where "PermissionExecute = ''operations.execute''"
definition PermissionPublishScript :: permission where "PermissionPublishScript = ''scripts.publish''"
definition PermissionRead :: permission where "PermissionRead = ''system.read''"

lemmas role_defs = RoleAdmin_def RoleOperator_def RoleDeveloper_def RoleViewer_def
lemmas permission_defs = PermissionAdmin_def PermissionExecute_def PermissionPublishScript_def PermissionRead_def

definition Allows :: "role \<Rightarrow> permission \<Rightarrow> bool" where
  "Allows r p =
     (case map_of
        [(RoleAdmin, [(PermissionAdmin, True), (PermissionExecute, True), (PermissionPublishScript, True), (PermissionRead, True)]),
         (RoleOperator, [(PermissionExecute, True), (PermissionRead, True)]),
         (RoleDeveloper, [(PermissionPublishScript, True), (PermissionRead, True)]),
         (RoleViewer, [(PermissionRead, True)])] r of
        None \<Rightarrow> False
      | Some m \<Rightarrow> flag_at m p)"

definition permissionsForRole :: "role \<Rightarrow> permission list option" where
  "permissionsForRole = map_of
     [(RoleAdmin, [PermissionAdmin, PermissionExecute, PermissionPublishScript, PermissionRead]),
      (RoleOperator, [PermissionExecute, PermissionRead]),
      (RoleDeveloper, [PermissionPublishScript, PermissionRead]),
      (RoleViewer, [PermissionRead])]"

definition known_role :: "role \<Rightarrow> bool" where
  "known_role r \<longleftrightarrow> r = RoleAdmin \<or> r = RoleOperator \<or> r = RoleDeveloper \<or> r = RoleViewer"

text \<open>\<^verbatim>\<open>normalizeRoles\<close>: first occurrences, then sorted; a role that is not known ends the loop.\<close>

fun collect_roles :: "role list \<Rightarrow> role list \<Rightarrow> auth_error + role list" where
  "collect_roles normalized [] = Inr normalized"
| "collect_roles normalized (r # rs) =
     (if \<not> known_role r then Inl ErrInvalidRoles
      else collect_roles (if r \<in> set normalized then normalized else normalized @ [r]) rs)"

definition normalizeRoles :: "role list \<Rightarrow> auth_error + role list" where
  "normalizeRoles rs = (if rs = [] then Inl ErrInvalidRoles
     else and_then (collect_roles [] rs) (\<lambda>normalized. Inr (slice_stable (<) normalized)))"

section \<open>Passwords\<close>

record auth_lib =
  li_lower :: "string \<Rightarrow> string"
  li_sql_lower :: "string \<Rightarrow> string"
  li_uuid :: "string \<Rightarrow> ident option"
  li_mail :: "string \<Rightarrow> string option"
  li_inet :: "string \<Rightarrow> bool"
  li_text_less :: "string \<Rightarrow> string \<Rightarrow> bool"
  li_sha :: "string \<Rightarrow> string"
  li_argon :: "string \<Rightarrow> string \<Rightarrow> int \<Rightarrow> int \<Rightarrow> int \<Rightarrow> nat \<Rightarrow> string"

text \<open>\<open>random k n\<close>: what reading \<open>n\<close> bytes gives the \<open>k\<close>-th time; a read that fails gives none, or fewer bytes.\<close>

type_synonym random = "nat \<Rightarrow> nat \<Rightarrow> string option"

definition argonMemory :: int where "argonMemory = 65536"
definition argonIterations :: int where "argonIterations = 3"
definition argonParallelism :: int where "argonParallelism = 2"
definition argonSaltLength :: nat where "argonSaltLength = 16"
definition argonKeyLength :: nat where "argonKeyLength = 32"

lemmas argon_defs = argonMemory_def argonIterations_def argonParallelism_def argonSaltLength_def argonKeyLength_def

definition HashPassword :: "auth_lib \<Rightarrow> string option \<Rightarrow> string \<Rightarrow> auth_error + string" where
  "HashPassword lib random password =
     (case random of
        None \<Rightarrow> Inl ErrAuthRandom
      | Some salt \<Rightarrow>
          (let hash = li_argon lib password salt argonIterations argonMemory argonParallelism argonKeyLength in
           Inr (''$argon2id$v=19$m='' @ show_nat (nat argonMemory) @ '',t='' @ show_nat (nat argonIterations) @ '',p='' @ show_nat (nat argonParallelism) @
                ''$'' @ base64_encode False False salt @ ''$'' @ base64_encode False False hash)))"

text \<open>
  \<^verbatim>\<open>Sscanf\<close> on \<^verbatim>\<open>m=%d,t=%d,p=%d\<close>: literals match exactly, a number may have white space before
  it but no line end, must fit its width, and what follows the last number is not looked at.
\<close>

definition scan_literal :: "string \<Rightarrow> string \<Rightarrow> string option" where
  "scan_literal l s = (if prefix l s then Some (drop (length l) s) else None)"

definition scan_uint :: "nat \<Rightarrow> string \<Rightarrow> (int \<times> string) option" where
  "scan_uint bits s =
     (let t = strip_front (filter (\<lambda>e. e \<noteq> [CHR 0x0A]) go_spaces) s; ds = takeWhile is_digit t in
      if prefix [CHR 0x0A] t \<or> ds = [] \<or> decimal_value ds \<ge> 2 ^ bits then None
      else Some (int (decimal_value ds), dropWhile is_digit t))"

definition scan_argon :: "string \<Rightarrow> (int \<times> int \<times> int) option" where
  "scan_argon s =
     (case Option.bind (scan_literal ''m='' s) (scan_uint 32) of
        None \<Rightarrow> None
      | Some (m, s1) \<Rightarrow>
          (case Option.bind (scan_literal '',t='' s1) (scan_uint 32) of
             None \<Rightarrow> None
           | Some (t, s2) \<Rightarrow>
               (case Option.bind (scan_literal '',p='' s2) (scan_uint 8) of
                  None \<Rightarrow> None
                | Some (p, s3) \<Rightarrow> Some (m, t, p))))"

definition VerifyPassword :: "auth_lib \<Rightarrow> string \<Rightarrow> string \<Rightarrow> auth_error + bool" where
  "VerifyPassword lib encodedHash password =
     (let parts = split_on CHR ''$'' encodedHash in
      if length parts \<noteq> 6 \<or> parts ! 1 \<noteq> ''argon2id'' \<or> parts ! 2 \<noteq> ''v=19'' then Inl ErrInvalidPasswordHash
      else (case scan_argon (parts ! 3) of
              None \<Rightarrow> Inl ErrInvalidPasswordHash
            | Some (memory, iterations, parallelism) \<Rightarrow>
                if memory = 0 \<or> iterations = 0 \<or> parallelism = 0 then Inl ErrInvalidPasswordHash
                else (case base64_decode False (parts ! 4) of
                        None \<Rightarrow> Inl ErrInvalidPasswordHash
                      | Some salt \<Rightarrow>
                          if salt = [] then Inl ErrInvalidPasswordHash
                          else (case base64_decode False (parts ! 5) of
                                  None \<Rightarrow> Inl ErrInvalidPasswordHash
                                | Some expected \<Rightarrow>
                                    if expected = [] then Inl ErrInvalidPasswordHash
                                    else Inr (expected = li_argon lib password salt iterations memory parallelism (length expected))))))"

section \<open>Tables\<close>

record user_row =
  us_id :: ident
  us_email :: string
  us_name :: string
  us_hash :: string
  us_enabled :: bool
  us_must_change :: bool
  us_removed :: "time option"
  us_created :: time
  us_updated :: time

record role_row =
  rl_id :: ident
  rl_name :: role
  rl_permissions :: "permission list"

record session_row =
  ss_id :: ident
  ss_user :: ident
  ss_token :: string
  ss_expires :: time
  ss_revoked :: "time option"
  ss_created :: time

record limit_row =
  rt_scope :: string
  rt_subject :: string
  rt_window :: time
  rt_attempts :: int

record audit_row =
  ad_actor :: ident
  ad_action :: string
  ad_target :: ident
  ad_details :: json
  ad_ip :: "string option"
  ad_at :: time

record auth_db =
  au_users :: "user_row list"
  au_roles :: "role_row list"
  au_user_roles :: "(ident \<times> ident) list"
  au_sessions :: "session_row list"
  au_limits :: "limit_row list"
  au_audit :: "audit_row list"

text \<open>What a transaction meets: failing statements, the time of the database and the identifiers it makes.\<close>

record auth_env =
  an_flt :: faults
  an_now :: time
  an_id :: ident
  an_role_id :: "role \<Rightarrow> ident"

definition user_of :: "auth_db \<Rightarrow> ident \<Rightarrow> user_row option" where
  "user_of d uid = row_by us_id uid (au_users d)"

definition role_names :: "auth_db \<Rightarrow> ident \<Rightarrow> role list" where
  "role_names d uid = slice_stable (<) (map rl_name (filter (\<lambda>r. (uid, rl_id r) \<in> set (au_user_roles d)) (au_roles d)))"

definition has_role :: "auth_db \<Rightarrow> ident \<Rightarrow> role \<Rightarrow> bool" where
  "has_role d uid name \<longleftrightarrow> list_ex (\<lambda>r. rl_name r = name \<and> (uid, rl_id r) \<in> set (au_user_roles d)) (au_roles d)"

definition active_user :: "user_row \<Rightarrow> bool" where
  "active_user u \<longleftrightarrow> us_enabled u \<and> us_removed u = None"

section \<open>Team members\<close>

record member =
  mb_id :: ident
  mb_email :: string
  mb_name :: string
  mb_enabled :: bool
  mb_roles :: "role list"
  mb_must_change :: bool
  mb_removed :: "time option"
  mb_created :: time

datatype member_status = MemberStatusActive | MemberStatusDisabled | MemberStatusRemoved | MemberStatusAll | MemberStatusOther string

definition member_of :: "auth_db \<Rightarrow> user_row \<Rightarrow> member" where
  "member_of d u = \<lparr>mb_id = us_id u, mb_email = us_email u, mb_name = us_name u, mb_enabled = us_enabled u,
     mb_roles = role_names d (us_id u), mb_must_change = us_must_change u, mb_removed = us_removed u, mb_created = us_created u\<rparr>"

definition status_matches :: "member_status \<Rightarrow> (user_row \<Rightarrow> bool) option" where
  "status_matches st = (case st of
     MemberStatusActive \<Rightarrow> Some (\<lambda>u. us_removed u = None \<and> us_enabled u)
   | MemberStatusDisabled \<Rightarrow> Some (\<lambda>u. us_removed u = None \<and> \<not> us_enabled u)
   | MemberStatusRemoved \<Rightarrow> Some (\<lambda>u. us_removed u \<noteq> None)
   | MemberStatusAll \<Rightarrow> Some (\<lambda>u. us_removed u = None)
   | MemberStatusOther _ \<Rightarrow> None)"

definition email_less :: "auth_lib \<Rightarrow> user_row \<Rightarrow> user_row \<Rightarrow> bool" where
  "email_less lib a b \<longleftrightarrow> li_text_less lib (us_email a) (us_email b) \<or>
     \<not> li_text_less lib (us_email b) (us_email a) \<and> us_id a < us_id b"

definition ListMembers :: "auth_lib \<Rightarrow> faults \<Rightarrow> member_status \<Rightarrow> auth_db \<Rightarrow> auth_error + member list" where
  "ListMembers lib flt st d = (case status_matches st of
     None \<Rightarrow> Inl ErrInvalidMember
   | Some p \<Rightarrow> stmt flt 0 ErrAuthStore (Inr (map (member_of d) (slice_stable (email_less lib) (filter p (au_users d))))))"

definition loadMember :: "faults \<Rightarrow> nat \<Rightarrow> ident \<Rightarrow> auth_db \<Rightarrow> auth_error + member" where
  "loadMember flt k uid d = stmt flt k ErrAuthStore
     (case user_of d uid of None \<Rightarrow> Inl ErrMemberNotFound | Some u \<Rightarrow> Inr (member_of d u))"

definition lockMember :: "faults \<Rightarrow> nat \<Rightarrow> ident \<Rightarrow> auth_db \<Rightarrow> auth_error + (user_row \<times> bool)" where
  "lockMember flt k uid d = stmt flt k ErrAuthStore
     (case user_of d uid of None \<Rightarrow> Inl ErrMemberNotFound | Some u \<Rightarrow> Inr (u, has_role d uid RoleAdmin))"

definition active_admins :: "auth_db \<Rightarrow> ident list" where
  "active_admins d = remdups (map us_id (filter (\<lambda>u. active_user u \<and> has_role d (us_id u) RoleAdmin) (au_users d)))"

definition preserveLastAdmin :: "faults \<Rightarrow> nat \<Rightarrow> auth_db \<Rightarrow> auth_error + unit" where
  "preserveLastAdmin flt k d = stmt flt k ErrAuthStore (check (\<not> length (active_admins d) \<le> 1) ErrLastAdmin)"

definition NormalizeUserID :: "auth_lib \<Rightarrow> string \<Rightarrow> auth_error + ident" where
  "NormalizeUserID lib v = (case li_uuid lib (trim_space v) of None \<Rightarrow> Inl ErrInvalidMember | Some i \<Rightarrow> Inr i)"

definition normalizeMemberMutationIDs :: "auth_lib \<Rightarrow> string \<Rightarrow> string \<Rightarrow> auth_error + (ident \<times> ident)" where
  "normalizeMemberMutationIDs lib actor target =
     and_then (NormalizeUserID lib actor) (\<lambda>a.
     and_then (NormalizeUserID lib target) (\<lambda>t.
     and_then (check (a \<noteq> t) ErrCannotModifySelf) (\<lambda>_. Inr (a, t))))"

text \<open>Statements \<open>k, k + 1, \<dots>\<close> insert the roles that are missing.\<close>

fun ensureRoles :: "auth_env \<Rightarrow> nat \<Rightarrow> role list \<Rightarrow> auth_db \<Rightarrow> auth_error + auth_db" where
  "ensureRoles x k [] d = Inr d"
| "ensureRoles x k (r # rs) d =
     (case permissionsForRole r of
        None \<Rightarrow> Inl ErrInvalidRoles
      | Some ps \<Rightarrow> stmt (an_flt x) k ErrAuthStore
          (if r \<in> rl_name ` set (au_roles d) then ensureRoles x (k + 1) rs d
           else if an_role_id x r \<in> rl_id ` set (au_roles d) then Inl ErrAuthStore
           else ensureRoles x (k + 1) rs
             (d\<lparr>au_roles := au_roles d @ [\<lparr>rl_id = an_role_id x r, rl_name = r, rl_permissions = ps\<rparr>]\<rparr>)))"

definition replaceRoles :: "faults \<Rightarrow> ident \<Rightarrow> role list \<Rightarrow> auth_db \<Rightarrow> auth_error + auth_db" where
  "replaceRoles flt uid rs d = stmt flt 10 ErrAuthStore (stmt flt 11 ErrAuthStore
     (Inr (d\<lparr>au_user_roles := filter (\<lambda>(u, r). u \<noteq> uid) (au_user_roles d) @
        map (\<lambda>r. (uid, rl_id r)) (filter (\<lambda>r. rl_name r \<in> set rs) (au_roles d))\<rparr>)))"

definition revokeMemberSessions :: "faults \<Rightarrow> time \<Rightarrow> ident \<Rightarrow> auth_db \<Rightarrow> auth_error + auth_db" where
  "revokeMemberSessions flt now uid d = stmt flt 12 ErrAuthStore
     (Inr (d\<lparr>au_sessions := update_where (\<lambda>s. ss_user s = uid \<and> ss_revoked s = None) (\<lambda>s. s\<lparr>ss_revoked := Some now\<rparr>) (au_sessions d)\<rparr>))"

text \<open>The actor of an audit row is a foreign key to the users.\<close>

definition insertMemberAudit :: "faults \<Rightarrow> time \<Rightarrow> ident \<Rightarrow> string \<Rightarrow> ident \<Rightarrow> json \<Rightarrow> auth_db \<Rightarrow> auth_error + auth_db" where
  "insertMemberAudit flt now actor action target details d = stmt flt 13 ErrAuthStore
     (if user_of d actor = None then Inl ErrAuthStore
      else Inr (d\<lparr>au_audit := au_audit d @ [\<lparr>ad_actor = actor, ad_action = action, ad_target = target,
                   ad_details = details, ad_ip = None, ad_at = now\<rparr>]\<rparr>))"

definition set_user :: "ident \<Rightarrow> (user_row \<Rightarrow> user_row) \<Rightarrow> auth_db \<Rightarrow> auth_db" where
  "set_user uid f d = d\<lparr>au_users := update_where (\<lambda>u. us_id u = uid) f (au_users d)\<rparr>"

text \<open>The end of every change of a member: audit, reading the result, commit.\<close>

definition finish_member :: "auth_env \<Rightarrow> ident \<Rightarrow> string \<Rightarrow> ident \<Rightarrow> json \<Rightarrow> auth_db \<Rightarrow> auth_error + (member \<times> auth_db)" where
  "finish_member x actor action target details d =
     and_then (insertMemberAudit (an_flt x) (an_now x) actor action target details d) (\<lambda>d1.
     and_then (loadMember (an_flt x) 14 target d1) (\<lambda>m.
     stmt (an_flt x) 15 ErrAuthStore (Inr (m, d1))))"

record member_record =
  mr_email :: string
  mr_name :: string
  mr_hash :: string
  mr_roles :: "role list"

definition insert_user :: "auth_lib \<Rightarrow> auth_env \<Rightarrow> member_record \<Rightarrow> auth_db \<Rightarrow> auth_error + auth_db" where
  "insert_user lib x r d = stmt (an_flt x) 9 ErrAuthStore
     (if user_of d (an_id x) \<noteq> None then Inl ErrAuthStore
      else if list_ex (\<lambda>u. li_sql_lower lib (us_email u) = li_sql_lower lib (mr_email r)) (au_users d) then Inl ErrDuplicateEmail
      else Inr (d\<lparr>au_users := au_users d @ [\<lparr>us_id = an_id x, us_email = mr_email r, us_name = mr_name r, us_hash = mr_hash r,
             us_enabled = True, us_must_change = True, us_removed = None, us_created = an_now x, us_updated = an_now x\<rparr>]\<rparr>))"

definition role_json :: "role list \<Rightarrow> string \<times> json" where
  "role_json rs = (''roles'', JArr (map JStr rs))"

definition CreateMember :: "auth_lib \<Rightarrow> auth_env \<Rightarrow> string \<Rightarrow> member_record \<Rightarrow> auth_db \<Rightarrow> (auth_error + member) \<times> auth_db" where
  "CreateMember lib x actor r d = tx d (
     and_then (NormalizeUserID lib actor) (\<lambda>a.
     and_then (normalizeRoles (mr_roles r)) (\<lambda>rs.
     stmt (an_flt x) 0 ErrAuthStore (
     and_then (ensureRoles x 3 rs d) (\<lambda>d1.
     and_then (insert_user lib x r d1) (\<lambda>d2.
     and_then (replaceRoles (an_flt x) (an_id x) rs d2) (\<lambda>d3.
     finish_member x a ''member.create'' (an_id x)
       (JObj [(''email'', JStr (mr_email r)), (''displayName'', JStr (mr_name r)), role_json rs]) d3)))))))"

definition ReplaceMemberRoles :: "auth_lib \<Rightarrow> auth_env \<Rightarrow> string \<Rightarrow> string \<Rightarrow> role list \<Rightarrow> auth_db \<Rightarrow> (auth_error + member) \<times> auth_db" where
  "ReplaceMemberRoles lib x actor target requested d = tx d (
     and_then (normalizeMemberMutationIDs lib actor target) (\<lambda>(a, t).
     and_then (normalizeRoles requested) (\<lambda>rs.
     stmt (an_flt x) 0 ErrAuthStore (stmt (an_flt x) 1 ErrAuthStore (
     and_then (lockMember (an_flt x) 2 t d) (\<lambda>(u, admin).
     and_then (check (us_removed u = None) ErrMemberStateConflict) (\<lambda>_.
     and_then (if us_enabled u \<and> admin \<and> RoleAdmin \<notin> set rs then preserveLastAdmin (an_flt x) 8 d else Inr ()) (\<lambda>_.
     and_then (ensureRoles x 3 rs d) (\<lambda>d1.
     and_then (replaceRoles (an_flt x) t rs d1) (\<lambda>d2.
     finish_member x a ''member.roles.update'' t (JObj [role_json rs]) d2))))))))))"

definition SetMemberEnabled :: "auth_lib \<Rightarrow> auth_env \<Rightarrow> string \<Rightarrow> string \<Rightarrow> bool \<Rightarrow> auth_db \<Rightarrow> (auth_error + member) \<times> auth_db" where
  "SetMemberEnabled lib x actor target enabled d = tx d (
     and_then (normalizeMemberMutationIDs lib actor target) (\<lambda>(a, t).
     stmt (an_flt x) 0 ErrAuthStore (stmt (an_flt x) 1 ErrAuthStore (
     and_then (lockMember (an_flt x) 2 t d) (\<lambda>(u, admin).
     and_then (check (us_removed u = None \<and> us_enabled u \<noteq> enabled) ErrMemberStateConflict) (\<lambda>_.
     and_then (if \<not> enabled \<and> admin then preserveLastAdmin (an_flt x) 8 d else Inr ()) (\<lambda>_.
     stmt (an_flt x) 9 ErrAuthStore (
       let d1 = set_user t (\<lambda>u. u\<lparr>us_enabled := enabled, us_updated := an_now x\<rparr>) d in
       and_then (if enabled then Inr d1 else revokeMemberSessions (an_flt x) (an_now x) t d1) (\<lambda>d2.
       finish_member x a (if enabled then ''member.enable'' else ''member.disable'') t (JObj [(''enabled'', JBool enabled)]) d2)))))))))"

definition RemoveMember :: "auth_lib \<Rightarrow> auth_env \<Rightarrow> string \<Rightarrow> string \<Rightarrow> auth_db \<Rightarrow> (auth_error + member) \<times> auth_db" where
  "RemoveMember lib x actor target d = tx d (
     and_then (normalizeMemberMutationIDs lib actor target) (\<lambda>(a, t).
     stmt (an_flt x) 0 ErrAuthStore (stmt (an_flt x) 1 ErrAuthStore (
     and_then (lockMember (an_flt x) 2 t d) (\<lambda>(u, admin).
     and_then (check (us_removed u = None) ErrMemberStateConflict) (\<lambda>_.
     and_then (if us_enabled u \<and> admin then preserveLastAdmin (an_flt x) 8 d else Inr ()) (\<lambda>_.
     stmt (an_flt x) 9 ErrAuthStore (
       and_then (revokeMemberSessions (an_flt x) (an_now x) t
         (set_user t (\<lambda>u. u\<lparr>us_enabled := False, us_removed := Some (an_now x), us_updated := an_now x\<rparr>) d)) (\<lambda>d1.
       finish_member x a ''member.remove'' t (JObj [(''enabled'', JBool False)]) d1)))))))))"

definition RestoreMember :: "auth_lib \<Rightarrow> auth_env \<Rightarrow> string \<Rightarrow> string \<Rightarrow> auth_db \<Rightarrow> (auth_error + member) \<times> auth_db" where
  "RestoreMember lib x actor target d = tx d (
     and_then (normalizeMemberMutationIDs lib actor target) (\<lambda>(a, t).
     stmt (an_flt x) 0 ErrAuthStore (
     and_then (lockMember (an_flt x) 2 t d) (\<lambda>(u, admin).
     and_then (check (us_removed u \<noteq> None) ErrMemberStateConflict) (\<lambda>_.
     stmt (an_flt x) 9 ErrAuthStore (
       finish_member x a ''member.restore'' t (JObj [(''enabled'', JBool False)])
         (set_user t (\<lambda>u. u\<lparr>us_enabled := False, us_removed := None, us_updated := an_now x\<rparr>) d)))))))"

definition ResetMemberPassword :: "auth_lib \<Rightarrow> auth_env \<Rightarrow> string \<Rightarrow> string \<Rightarrow> string \<Rightarrow> auth_db \<Rightarrow> (auth_error + member) \<times> auth_db" where
  "ResetMemberPassword lib x actor target hash d = tx d (
     and_then (normalizeMemberMutationIDs lib actor target) (\<lambda>(a, t).
     stmt (an_flt x) 0 ErrAuthStore (
     and_then (lockMember (an_flt x) 2 t d) (\<lambda>(u, admin).
     and_then (check (us_removed u = None) ErrMemberStateConflict) (\<lambda>_.
     stmt (an_flt x) 9 ErrAuthStore (
       and_then (revokeMemberSessions (an_flt x) (an_now x) t
         (set_user t (\<lambda>u. u\<lparr>us_hash := hash, us_must_change := True, us_updated := an_now x\<rparr>) d)) (\<lambda>d1.
       finish_member x a ''member.password.reset'' t (JObj [(''mustChangePassword'', JBool True)]) d1)))))))"

subsection \<open>The service\<close>

definition randomToken :: "random \<Rightarrow> nat \<Rightarrow> nat \<Rightarrow> auth_error + string" where
  "randomToken random k n = (case random k n of None \<Rightarrow> Inl ErrAuthRandom | Some v \<Rightarrow> Inr (base64_encode True False v))"

definition validEmail :: "auth_lib \<Rightarrow> string \<Rightarrow> bool" where
  "validEmail lib email \<longleftrightarrow> li_mail lib email = Some email"

definition validMemberStatus :: "member_status \<Rightarrow> bool" where
  "validMemberStatus st = (case st of MemberStatusOther _ \<Rightarrow> False | _ \<Rightarrow> True)"

definition team_List :: "auth_lib \<Rightarrow> faults \<Rightarrow> member_status \<Rightarrow> auth_db \<Rightarrow> auth_error + member list" where
  "team_List lib flt st d = (if \<not> validMemberStatus st then Inl ErrInvalidMember else ListMembers lib flt st d)"

text \<open>An error before the repository is called leaves the database as it is.\<close>

definition before_store :: "auth_error + 'a \<Rightarrow> 'd \<Rightarrow> ('a \<Rightarrow> (auth_error + 'b) \<times> 'd) \<Rightarrow> (auth_error + 'b) \<times> 'd" where
  "before_store m d f = (case m of Inl e \<Rightarrow> (Inl e, d) | Inr v \<Rightarrow> f v)"

definition team_Create :: "auth_lib \<Rightarrow> auth_env \<Rightarrow> random \<Rightarrow> string \<Rightarrow> string \<Rightarrow> string \<Rightarrow> role list \<Rightarrow> auth_db \<Rightarrow>
    (auth_error + (member \<times> string)) \<times> auth_db" where
  "team_Create lib x random actor email name roles d =
     before_store (
       and_then (NormalizeUserID lib actor) (\<lambda>a.
       let email1 = li_lower lib (trim_space email); name1 = trim_space name in
       and_then (check (validEmail lib email1 \<and> name1 \<noteq> []) ErrInvalidMember) (\<lambda>_.
       and_then (case normalizeRoles roles of Inl e \<Rightarrow> Inl ErrInvalidMember | Inr rs \<Rightarrow> Inr rs) (\<lambda>rs.
       and_then (randomToken random 0 18) (\<lambda>temporary.
       and_then (HashPassword lib (random 1 argonSaltLength) temporary) (\<lambda>hash.
       Inr (a, \<lparr>mr_email = email1, mr_name = name1, mr_hash = hash, mr_roles = rs\<rparr>, temporary)))))))
     d (\<lambda>(a, r, temporary). map_prod (map_sum id (\<lambda>m. (m, temporary))) id (CreateMember lib x a r d))"

definition validateMutation :: "auth_lib \<Rightarrow> string \<Rightarrow> string \<Rightarrow> auth_error + (ident \<times> ident)" where
  "validateMutation lib actor user =
     and_then (NormalizeUserID lib actor) (\<lambda>a.
     and_then (NormalizeUserID lib user) (\<lambda>u.
     and_then (check (a \<noteq> u) ErrCannotModifySelf) (\<lambda>_. Inr (a, u))))"

definition UpdateRoles :: "auth_lib \<Rightarrow> auth_env \<Rightarrow> string \<Rightarrow> string \<Rightarrow> role list \<Rightarrow> auth_db \<Rightarrow> (auth_error + member) \<times> auth_db" where
  "UpdateRoles lib x actor user roles d =
     before_store (and_then (validateMutation lib actor user) (\<lambda>(a, u).
       and_then (normalizeRoles roles) (\<lambda>rs. Inr (a, u, rs))))
     d (\<lambda>(a, u, rs). ReplaceMemberRoles lib x a u rs d)"

definition team_SetEnabled :: "auth_lib \<Rightarrow> auth_env \<Rightarrow> string \<Rightarrow> string \<Rightarrow> bool \<Rightarrow> auth_db \<Rightarrow> (auth_error + member) \<times> auth_db" where
  "team_SetEnabled lib x actor user enabled d =
     before_store (validateMutation lib actor user) d (\<lambda>(a, u). SetMemberEnabled lib x a u enabled d)"

definition team_Remove :: "auth_lib \<Rightarrow> auth_env \<Rightarrow> string \<Rightarrow> string \<Rightarrow> auth_db \<Rightarrow> (auth_error + member) \<times> auth_db" where
  "team_Remove lib x actor user d = before_store (validateMutation lib actor user) d (\<lambda>(a, u). RemoveMember lib x a u d)"

definition team_Restore :: "auth_lib \<Rightarrow> auth_env \<Rightarrow> string \<Rightarrow> string \<Rightarrow> auth_db \<Rightarrow> (auth_error + member) \<times> auth_db" where
  "team_Restore lib x actor user d = before_store (validateMutation lib actor user) d (\<lambda>(a, u). RestoreMember lib x a u d)"

definition ResetPassword :: "auth_lib \<Rightarrow> auth_env \<Rightarrow> random \<Rightarrow> string \<Rightarrow> string \<Rightarrow> auth_db \<Rightarrow>
    (auth_error + (member \<times> string)) \<times> auth_db" where
  "ResetPassword lib x random actor user d =
     before_store (and_then (validateMutation lib actor user) (\<lambda>(a, u).
       and_then (randomToken random 0 18) (\<lambda>temporary.
       and_then (HashPassword lib (random 1 argonSaltLength) temporary) (\<lambda>hash. Inr (a, u, temporary, hash)))))
     d (\<lambda>(a, u, temporary, hash). map_prod (map_sum id (\<lambda>m. (m, temporary))) id (ResetMemberPassword lib x a u hash d))"

section \<open>Sessions\<close>

record stored_session =
  st_id :: ident
  st_user :: ident
  st_token :: string
  st_expected :: string
  st_expires :: time
  st_created :: time

record principal =
  pr_id :: ident
  pr_email :: string
  pr_name :: string
  pr_roles :: "role list"
  pr_must_change :: bool

definition FindByEmail :: "auth_lib \<Rightarrow> bool \<Rightarrow> string \<Rightarrow> auth_db \<Rightarrow> auth_error + user_row" where
  "FindByEmail lib fails email d = (if fails then Inl ErrAuthStore
     else (case find (\<lambda>u. li_sql_lower lib (us_email u) = li_sql_lower lib email \<and> us_removed u = None) (au_users d) of
             None \<Rightarrow> Inl ErrUserNotFound | Some u \<Rightarrow> Inr u))"

definition create_session :: "faults \<Rightarrow> stored_session \<Rightarrow> auth_db \<Rightarrow> (auth_error + unit) \<times> auth_db" where
  "create_session flt s d = tx d (
     and_then (check (st_expected s \<noteq> []) ErrInvalidCredentials) (\<lambda>_.
     stmt flt 1 ErrAuthStore (stmt flt 2 ErrAuthStore (
     if \<not> list_ex (\<lambda>u. us_id u = st_user s \<and> us_hash u = st_expected s \<and> us_enabled u \<and> us_removed u = None) (au_users d)
     then Inl ErrInvalidCredentials
     else stmt flt 3 ErrAuthStore (
       if list_ex (\<lambda>r. ss_id r = st_id s \<or> ss_token r = st_token s) (au_sessions d) then Inl ErrAuthStore
       else stmt flt 4 ErrAuthStore (Inr ((), d\<lparr>au_sessions := au_sessions d @
         [\<lparr>ss_id = st_id s, ss_user = st_user s, ss_token = st_token s, ss_expires = st_expires s, ss_revoked = None,
           ss_created = st_created s\<rparr>]\<rparr>)))))))"

definition FindPrincipal :: "bool \<Rightarrow> time \<Rightarrow> string \<Rightarrow> auth_db \<Rightarrow> auth_error + principal" where
  "FindPrincipal fails now token d = (if fails then Inl ErrAuthStore
     else (case find (\<lambda>s. ss_token s = token \<and> ss_revoked s = None \<and> ss_expires s > now \<and>
                  (case user_of d (ss_user s) of None \<Rightarrow> False | Some u \<Rightarrow> active_user u)) (au_sessions d) of
             None \<Rightarrow> Inl ErrSessionNotFound
           | Some s \<Rightarrow> (case user_of d (ss_user s) of
                None \<Rightarrow> Inl ErrSessionNotFound
              | Some u \<Rightarrow> Inr \<lparr>pr_id = us_id u, pr_email = us_email u, pr_name = us_name u,
                   pr_roles = role_names d (us_id u), pr_must_change = us_must_change u\<rparr>)))"

definition Revoke :: "bool \<Rightarrow> time \<Rightarrow> string \<Rightarrow> auth_db \<Rightarrow> (auth_error + unit) \<times> auth_db" where
  "Revoke fails now token d = (if fails then (Inl ErrAuthStore, d)
     else (Inr (), d\<lparr>au_sessions := update_where (\<lambda>s. ss_token s = token \<and> ss_revoked s = None)
                      (\<lambda>s. s\<lparr>ss_revoked := Some now\<rparr>) (au_sessions d)\<rparr>))"

definition sessionTTL :: duration where
  "sessionTTL = 24 * hour"

definition randomUUID :: "random \<Rightarrow> nat \<Rightarrow> auth_error + ident" where
  "randomUUID random k = (case random k 16 of None \<Rightarrow> Inl ErrAuthRandom
     | Some v \<Rightarrow> if length v \<noteq> 16 then Inl ErrAuthRandom else
         (let w = v[6 := char_of (byte (v ! 6) mod 16 + 64), 8 := char_of (byte (v ! 8) mod 64 + 128)] in
          Inr (hex_encode (take 4 w) @ ''-'' @ hex_encode (take 2 (drop 4 w)) @ ''-'' @ hex_encode (take 2 (drop 6 w)) @ ''-'' @
               hex_encode (take 2 (drop 8 w)) @ ''-'' @ hex_encode (drop 10 w))))"

record login_session =
  lo_id :: ident
  lo_user :: ident
  lo_token :: string
  lo_roles :: "role list"
  lo_must_change :: bool
  lo_expires :: time
  lo_created :: time

text \<open>\<open>between\<close> is what others do while the password is verified.\<close>

definition Login :: "auth_lib \<Rightarrow> faults \<Rightarrow> random \<Rightarrow> time \<Rightarrow> (auth_db \<Rightarrow> auth_db) \<Rightarrow> string \<Rightarrow> string \<Rightarrow> auth_db \<Rightarrow>
    (auth_error + login_session) \<times> auth_db" where
  "Login lib flt random now between email password d =
     (case FindByEmail lib (flt 0) (li_lower lib (trim_space email)) d of
        Inl e \<Rightarrow> (Inl ErrInvalidCredentials, between d)
      | Inr u \<Rightarrow>
          before_store (
            and_then (check (us_enabled u) ErrInvalidCredentials) (\<lambda>_.
            and_then (check (VerifyPassword lib (us_hash u) password = Inr True) ErrInvalidCredentials) (\<lambda>_.
            and_then (randomToken random 0 32) (\<lambda>token.
            and_then (randomUUID random 1) (\<lambda>i. Inr (token, i))))))
          (between d) (\<lambda>(token, i).
            map_prod (map_sum id (\<lambda>_. \<lparr>lo_id = i, lo_user = us_id u, lo_token = token, lo_roles = role_names d (us_id u),
                lo_must_change = us_must_change u, lo_expires = now + sessionTTL, lo_created = now\<rparr>)) id
              (create_session flt \<lparr>st_id = i, st_user = us_id u, st_token = li_sha lib token, st_expected = us_hash u,
                 st_expires = now + sessionTTL, st_created = now\<rparr> (between d))))"

definition Authenticate :: "auth_lib \<Rightarrow> bool \<Rightarrow> time \<Rightarrow> string \<Rightarrow> auth_db \<Rightarrow> auth_error + principal" where
  "Authenticate lib fails now token d = (if token = [] then Inl ErrSessionNotFound
     else (case FindPrincipal fails now (li_sha lib token) d of Inl e \<Rightarrow> Inl ErrSessionNotFound | Inr p \<Rightarrow> Inr p))"

definition Logout :: "auth_lib \<Rightarrow> bool \<Rightarrow> time \<Rightarrow> string \<Rightarrow> auth_db \<Rightarrow> (auth_error + unit) \<times> auth_db" where
  "Logout lib fails now token d = (if token = [] then (Inr (), d) else Revoke fails now (li_sha lib token) d)"

text \<open>The two middlewares of a protected route: who asks, and whether one of the roles allows it.\<close>

datatype verdict = LoginRequired | PasswordChangeRequired | Forbidden | Served principal

definition Require :: "permission \<Rightarrow> principal \<Rightarrow> verdict" where
  "Require permission p = (if list_ex (\<lambda>r. Allows r permission) (pr_roles p) then Served p else Forbidden)"

definition authenticate_request :: "auth_lib \<Rightarrow> bool \<Rightarrow> time \<Rightarrow> string option \<Rightarrow> string \<Rightarrow> (principal \<Rightarrow> verdict) \<Rightarrow> auth_db \<Rightarrow> verdict" where
  "authenticate_request lib fails now cookie path next d =
     (case cookie of None \<Rightarrow> LoginRequired
      | Some token \<Rightarrow>
          (case Authenticate lib fails now token d of
             Inl e \<Rightarrow> LoginRequired
           | Inr p \<Rightarrow> if pr_must_change p \<and> path \<noteq> ''/api/auth/password'' then PasswordChangeRequired else next p))"

section \<open>Changing a password\<close>

definition passwordAttemptLimit :: int where
  "passwordAttemptLimit = 5"

definition PasswordHash :: "bool \<Rightarrow> ident \<Rightarrow> auth_db \<Rightarrow> auth_error + string" where
  "PasswordHash fails uid d = (if blank uid then Inl ErrAuthArgument
     else if fails then Inl ErrAuthStore
     else (case user_of d uid of None \<Rightarrow> Inl ErrAuthStore | Some u \<Rightarrow> Inr (us_hash u)))"

definition count_attempt :: "time \<Rightarrow> string \<Rightarrow> string \<Rightarrow> auth_db \<Rightarrow> int \<times> auth_db" where
  "count_attempt now scope subject d =
     (case find (\<lambda>r. rt_scope r = scope \<and> rt_subject r = subject) (au_limits d) of
        None \<Rightarrow> (1, d\<lparr>au_limits := au_limits d @ [\<lparr>rt_scope = scope, rt_subject = subject, rt_window = now, rt_attempts = 1\<rparr>]\<rparr>)
      | Some r \<Rightarrow>
          (let over = rt_window r \<le> now - 15 * minute;
               w = (if over then now else rt_window r); n = (if over then 1 else rt_attempts r + 1)
           in (n, d\<lparr>au_limits := update_where (\<lambda>r. rt_scope r = scope \<and> rt_subject r = subject)
                 (\<lambda>r. r\<lparr>rt_window := w, rt_attempts := n\<rparr>) (au_limits d)\<rparr>)))"

definition RegisterAttempt :: "auth_lib \<Rightarrow> faults \<Rightarrow> ident \<Rightarrow> string \<Rightarrow> time \<Rightarrow> auth_db \<Rightarrow> (auth_error + bool) \<times> auth_db" where
  "RegisterAttempt lib flt uid ip now d = tx d (
     if blank uid \<or> blank ip then Inl ErrAuthArgument
     else stmt flt 0 ErrAuthStore (stmt flt 1 ErrAuthStore (stmt flt 2 ErrAuthStore (stmt flt 3 ErrAuthStore (
       case count_attempt now ''password_user'' (li_sha lib uid) d of (m, d1) \<Rightarrow>
       case count_attempt now ''password_ip'' (li_sha lib ip) d1 of (n, d2) \<Rightarrow>
         Inr (m \<le> passwordAttemptLimit \<and> n \<le> passwordAttemptLimit, d2))))))"

record password_commit =
  pc_user :: ident
  pc_expected :: string
  pc_new :: string
  pc_session :: string
  pc_ip :: string
  pc_at :: time

definition CommitPasswordChange :: "auth_lib \<Rightarrow> faults \<Rightarrow> password_commit \<Rightarrow> auth_db \<Rightarrow> (auth_error + unit) \<times> auth_db" where
  "CommitPasswordChange lib flt c d = tx d (
     if blank (pc_user c) \<or> pc_expected c = [] \<or> pc_new c = [] \<or> length (pc_session c) \<noteq> 32 then Inl ErrAuthArgument
     else stmt flt 4 ErrAuthStore (stmt flt 5 ErrAuthStore (
       case user_of d (pc_user c) of
         None \<Rightarrow> Inl ErrPasswordChanged
       | Some u \<Rightarrow>
           and_then (check (us_hash u = pc_expected c) ErrPasswordChanged) (\<lambda>_.
           stmt flt 6 ErrAuthStore (stmt flt 7 ErrAuthStore (stmt flt 8 ErrAuthStore (stmt flt 9 ErrAuthStore (
           and_then (check (blank (pc_ip c) \<or> li_inet lib (trim_space (pc_ip c))) ErrAuthStore) (\<lambda>_.
           stmt flt 10 ErrAuthStore (Inr ((),
             (set_user (pc_user c) (\<lambda>u. u\<lparr>us_hash := pc_new c, us_must_change := False, us_updated := pc_at c\<rparr>) d)
             \<lparr>au_sessions := update_where (\<lambda>s. ss_user s = pc_user c \<and> ss_token s \<noteq> pc_session c \<and> ss_revoked s = None)
                 (\<lambda>s. s\<lparr>ss_revoked := Some (pc_at c)\<rparr>) (au_sessions d),
              au_limits := filter (\<lambda>r. \<not> (rt_scope r = ''password_user'' \<and> rt_subject r = li_sha lib (pc_user c))) (au_limits d),
              au_audit := au_audit d @ [\<lparr>ad_actor = pc_user c, ad_action = ''auth.password.change'', ad_target = pc_user c,
                 ad_details = JObj [], ad_ip = (if blank (pc_ip c) then None else Some (trim_space (pc_ip c))), ad_at = pc_at c\<rparr>]\<rparr>)))))))))))"

text \<open>\<open>between i\<close> is what others do between the transactions of a change.\<close>

definition Change :: "auth_lib \<Rightarrow> faults \<Rightarrow> string option \<Rightarrow> time \<Rightarrow> (nat \<Rightarrow> auth_db \<Rightarrow> auth_db) \<Rightarrow> principal \<Rightarrow> string \<Rightarrow> string \<Rightarrow> string \<Rightarrow>
    string \<Rightarrow> auth_db \<Rightarrow> (auth_error + unit) \<times> auth_db" where
  "Change lib flt salt now between p token current new ip d =
     (case RegisterAttempt lib flt (pr_id p) ip now d of
        (Inl e, d1) \<Rightarrow> (Inl e, d1)
      | (Inr allowed, d1) \<Rightarrow>
          if \<not> allowed then (Inl ErrPasswordRateLimited, d1)
          else
            before_store (
              and_then (PasswordHash (flt 11) (pr_id p) (between 0 d1)) (\<lambda>hash.
              and_then (check (VerifyPassword lib hash current = Inr True) ErrPasswordRejected) (\<lambda>_.
              and_then (check (\<not> (rune_count new < 12 \<or> new = current)) ErrPasswordRejected) (\<lambda>_.
              and_then (HashPassword lib salt new) (\<lambda>newHash. Inr (hash, newHash))))))
            (between 1 (between 0 d1)) (\<lambda>(hash, newHash).
              CommitPasswordChange lib flt \<lparr>pc_user = pr_id p, pc_expected = hash, pc_new = newHash, pc_session = li_sha lib token,
                pc_ip = ip, pc_at = now\<rparr> (between 1 (between 0 d1))))"

section \<open>The first administrator\<close>

definition bootstrap_roles :: "role list" where
  "bootstrap_roles = [RoleAdmin, RoleOperator, RoleDeveloper, RoleViewer]"

fun upsert_roles :: "auth_env \<Rightarrow> nat \<Rightarrow> role list \<Rightarrow> auth_db \<Rightarrow> auth_error + auth_db" where
  "upsert_roles x k [] d = Inr d"
| "upsert_roles x k (r # rs) d = stmt (an_flt x) k ErrAuthStore
     (let ps = the (permissionsForRole r) in
      if r \<in> rl_name ` set (au_roles d)
      then upsert_roles x (k + 1) rs (d\<lparr>au_roles := update_where (\<lambda>q. rl_name q = r) (\<lambda>q. q\<lparr>rl_permissions := ps\<rparr>) (au_roles d)\<rparr>)
      else if an_role_id x r \<in> rl_id ` set (au_roles d) then Inl ErrAuthStore
      else upsert_roles x (k + 1) rs (d\<lparr>au_roles := au_roles d @ [\<lparr>rl_id = an_role_id x r, rl_name = r, rl_permissions = ps\<rparr>]\<rparr>))"

definition upsert_admin :: "auth_lib \<Rightarrow> auth_env \<Rightarrow> string \<Rightarrow> string \<Rightarrow> string \<Rightarrow> auth_db \<Rightarrow> auth_error + (ident \<times> auth_db)" where
  "upsert_admin lib x email name hash d =
     (case find (\<lambda>u. li_sql_lower lib (us_email u) = li_sql_lower lib email) (au_users d) of
        Some u \<Rightarrow> Inr (us_id u, set_user (us_id u)
          (\<lambda>u. u\<lparr>us_name := name, us_hash := hash, us_enabled := True, us_updated := an_now x\<rparr>) d)
      | None \<Rightarrow>
          if user_of d (an_id x) \<noteq> None then Inl ErrAuthStore
          else Inr (an_id x, d\<lparr>au_users := au_users d @ [\<lparr>us_id = an_id x, us_email = email, us_name = name, us_hash = hash,
                 us_enabled = True, us_must_change = False, us_removed = None, us_created = an_now x, us_updated = an_now x\<rparr>]\<rparr>))"

definition bootstrap :: "auth_lib \<Rightarrow> auth_env \<Rightarrow> string option \<Rightarrow> string \<Rightarrow> string \<Rightarrow> string \<Rightarrow> auth_db \<Rightarrow> (auth_error + unit) \<times> auth_db" where
  "bootstrap lib x salt email name password d = tx d (
     and_then (HashPassword lib salt password) (\<lambda>hash.
     stmt (an_flt x) 0 ErrAuthStore (
     and_then (upsert_roles x 1 bootstrap_roles d) (\<lambda>d1.
     stmt (an_flt x) 5 ErrAuthStore (
     and_then (upsert_admin lib x email name hash d1) (\<lambda>(uid, d2).
     stmt (an_flt x) 6 ErrAuthStore (stmt (an_flt x) 7 ErrAuthStore (Inr ((),
       d2\<lparr>au_user_roles := au_user_roles d2 @ filter (\<lambda>e. e \<notin> set (au_user_roles d2))
         (map (\<lambda>r. (uid, rl_id r)) (filter (\<lambda>r. rl_name r = RoleAdmin) (au_roles d2)))\<rparr>)))))))))"

end
