(* ===== verification/Auth_Theorems.thy ===== *)
theory Auth_Theorems
  imports Auth
begin

text \<open>
  What the accounts guarantee: the account tables stay well formed, an active administrator remains,
  sessions end with the rights of their user, logging in yields a session that authenticates, and a
  password verifies against its own hash.
\<close>

section \<open>Well-formed accounts\<close>

definition auth_ok :: "auth_lib \<Rightarrow> auth_db \<Rightarrow> bool" where
  "auth_ok lib d \<longleftrightarrow>
     distinct (map us_id (au_users d)) \<and> distinct (map (\<lambda>u. li_sql_lower lib (us_email u)) (au_users d)) \<and>
     distinct (map rl_id (au_roles d)) \<and> distinct (map rl_name (au_roles d)) \<and> list_all (\<lambda>r. known_role (rl_name r)) (au_roles d) \<and>
     distinct (au_user_roles d) \<and>
     list_all (\<lambda>(u, r). u \<in> us_id ` set (au_users d) \<and> r \<in> rl_id ` set (au_roles d)) (au_user_roles d) \<and>
     distinct (map ss_token (au_sessions d)) \<and> list_all (\<lambda>s. ss_user s \<in> us_id ` set (au_users d)) (au_sessions d)"

lemma auth_ok_same:
  "au_users d' = au_users d \<Longrightarrow> au_roles d' = au_roles d \<Longrightarrow> au_user_roles d' = au_user_roles d \<Longrightarrow> au_sessions d' = au_sessions d \<Longrightarrow>
   auth_ok lib d' = auth_ok lib d"
  by (simp add: auth_ok_def)

lemma set_user_ids:
  "(\<And>u. us_id (f u) = us_id u) \<Longrightarrow> map us_id (au_users (set_user t f d)) = map us_id (au_users d)"
  "(\<And>u. us_email (f u) = us_email u) \<Longrightarrow> map (\<lambda>u. g (us_email u)) (au_users (set_user t f d)) = map (\<lambda>u. g (us_email u)) (au_users d)"
  by (simp_all add: set_user_def map_update_where)

lemma auth_ok_set_user:
  assumes "\<And>u. us_id (f u) = us_id u" "\<And>u. us_email (f u) = us_email u"
  shows "auth_ok lib (set_user t f d) = auth_ok lib d"
proof -
  have "us_id ` set (au_users (set_user t f d)) = us_id ` set (au_users d)"
    using set_user_ids(1) [OF assms(1)] by (metis set_map)
  moreover have "au_roles (set_user t f d) = au_roles d" "au_user_roles (set_user t f d) = au_user_roles d"
    "au_sessions (set_user t f d) = au_sessions d" by (simp_all add: set_user_def)
  ultimately show ?thesis by (simp only: auth_ok_def set_user_ids(1) [OF assms(1)] set_user_ids(2) [OF assms(2)])
qed

lemma auth_ok_sessions:
  assumes "\<And>s. ss_token (f s) = ss_token s" "\<And>s. ss_user (f s) = ss_user s"
  shows "auth_ok lib (d\<lparr>au_sessions := update_where p f (au_sessions d)\<rparr>) = auth_ok lib d"
proof -
  have tokens: "map ss_token (update_where p f (au_sessions d)) = map ss_token (au_sessions d)"
    using assms(1) by (rule map_update_where)
  have "map ss_user (update_where p f (au_sessions d)) = map ss_user (au_sessions d)"
    using assms(2) by (rule map_update_where)
  then have "list_all (\<lambda>u. u \<in> A) (map ss_user (update_where p f (au_sessions d))) = list_all (\<lambda>u. u \<in> A) (map ss_user (au_sessions d))" for A
    by simp
  then have "list_all (\<lambda>s. ss_user s \<in> A) (update_where p f (au_sessions d)) = list_all (\<lambda>s. ss_user s \<in> A) (au_sessions d)" for A
    by (simp add: list.pred_map comp_def)
  then show ?thesis using tokens by (simp add: auth_ok_def)
qed

section \<open>What the parts of a transaction do\<close>

lemma has_role_iff: "has_role d uid name \<longleftrightarrow> (\<exists>r \<in> set (au_roles d). rl_name r = name \<and> (uid, rl_id r) \<in> set (au_user_roles d))"
  by (auto simp: has_role_def list_ex_iff)

definition grown_roles :: "auth_db \<Rightarrow> auth_db \<Rightarrow> bool" where
  "grown_roles d d' \<longleftrightarrow> (\<exists>new. d' = d\<lparr>au_roles := au_roles d @ new\<rparr>)"

lemma grown_refl [simp]: "grown_roles d d"
  unfolding grown_roles_def by (rule exI [of _ "[]"]) simp

lemma grown_trans: "grown_roles d d' \<Longrightarrow> grown_roles d' d'' \<Longrightarrow> grown_roles d d''"
  by (auto simp: grown_roles_def)

lemma grown_role: "grown_roles d d' \<Longrightarrow> has_role d u r \<Longrightarrow> has_role d' u r"
  by (auto simp: grown_roles_def has_role_iff)

lemma grown_fields:
  "grown_roles d d' \<Longrightarrow> au_users d' = au_users d \<and> au_user_roles d' = au_user_roles d \<and> au_sessions d' = au_sessions d"
  by (auto simp: grown_roles_def)

lemma permissions_known: "permissionsForRole r = Some ps \<Longrightarrow> known_role r"
  by (auto simp: permissionsForRole_def known_role_def split: if_splits)

lemma insert_role_ok:
  "auth_ok lib d \<Longrightarrow> known_role r \<Longrightarrow> r \<notin> rl_name ` set (au_roles d) \<Longrightarrow> i \<notin> rl_id ` set (au_roles d) \<Longrightarrow>
   auth_ok lib (d\<lparr>au_roles := au_roles d @ [\<lparr>rl_id = i, rl_name = r, rl_permissions = ps\<rparr>]\<rparr>)"
  by (auto simp: auth_ok_def list_all_iff)

lemma ensureRoles_grows:
  "ensureRoles x k rs d = Inr d1 \<Longrightarrow> auth_ok lib d \<Longrightarrow> auth_ok lib d1 \<and> grown_roles d d1 \<and> set rs \<subseteq> rl_name ` set (au_roles d1)"
proof (induction x k rs d rule: ensureRoles.induct)
  case (1 x k d)
  then show ?case by simp
next
  case (2 x k r rs d)
  obtain ps where ps: "permissionsForRole r = Some ps" using 2(3) by (cases "permissionsForRole r") auto
  let ?d = "d\<lparr>au_roles := au_roles d @ [\<lparr>rl_id = an_role_id x r, rl_name = r, rl_permissions = ps\<rparr>]\<rparr>"
  have g: "grown_roles d ?d" by (auto simp: grown_roles_def)
  have mono: "rl_name ` set (au_roles e) \<subseteq> rl_name ` set (au_roles e')" if "grown_roles e e'" for e e'
    using that by (auto simp: grown_roles_def)
  show ?case
  proof (cases "r \<in> rl_name ` set (au_roles d)")
    case True
    then have "auth_ok lib d1 \<and> grown_roles d d1 \<and> set rs \<subseteq> rl_name ` set (au_roles d1)" using 2(1) [OF ps True] 2(3,4) ps by simp
    then show ?thesis using mono [of d d1] True by auto
  next
    case False
    then have n: "an_role_id x r \<notin> rl_id ` set (au_roles d)" using 2(3) ps by (auto split: if_splits)
    have "auth_ok lib ?d" by (rule insert_role_ok [OF 2(4) permissions_known [OF ps] False n])
    then have "auth_ok lib d1 \<and> grown_roles ?d d1 \<and> set rs \<subseteq> rl_name ` set (au_roles d1)"
      using 2(2) [OF ps False n] 2(3) ps False n by simp
    then show ?thesis using mono [of ?d d1] grown_trans [OF g] by auto
  qed
qed

lemma replaceRoles_ok:
  assumes "replaceRoles flt t rs d = Inr d1" "auth_ok lib d" "t \<in> us_id ` set (au_users d)"
  shows "auth_ok lib d1"
proof -
  have d1: "d1 = d\<lparr>au_user_roles := filter (\<lambda>(u, r). u \<noteq> t) (au_user_roles d) @
        map (\<lambda>r. (t, rl_id r)) (filter (\<lambda>r. rl_name r \<in> set rs) (au_roles d))\<rparr>" using assms(1) by (simp add: replaceRoles_def)
  have ids: "distinct (map rl_id (au_roles d))" using assms(2) by (simp add: auth_ok_def)
  have "distinct (map (Pair t) (map rl_id (filter (\<lambda>r. rl_name r \<in> set rs) (au_roles d))))"
    unfolding distinct_map [of "Pair t"] using ids by (simp add: distinct_map_filter inj_on_def)
  then have "distinct (map (\<lambda>r. (t, rl_id r)) (filter (\<lambda>r. rl_name r \<in> set rs) (au_roles d)))" by (simp add: comp_def)
  then show ?thesis using assms(2,3) unfolding d1 auth_ok_def by (auto simp: list_all_iff)
qed

lemma replaceRoles_effect:
  assumes "replaceRoles flt t rs d = Inr d1"
  shows "au_users d1 = au_users d \<and> au_sessions d1 = au_sessions d \<and> (\<forall>u r. u \<noteq> t \<longrightarrow> has_role d1 u r = has_role d u r) \<and>
    (\<forall>r \<in> set rs. r \<in> rl_name ` set (au_roles d) \<longrightarrow> has_role d1 t r)"
  using assms by (auto simp: replaceRoles_def has_role_iff)

lemma finish_member_effect:
  assumes "finish_member x a action t details d = Inr (m, d1)"
  shows "au_users d1 = au_users d \<and> au_roles d1 = au_roles d \<and> au_user_roles d1 = au_user_roles d \<and> au_sessions d1 = au_sessions d \<and>
    mb_id m = t"
  using assms
  by (auto simp: finish_member_def insertMemberAudit_def loadMember_def member_of_def user_of_def
      split: if_splits option.splits dest: row_by_Some)

lemma finish_member_ok: "finish_member x a action t details d = Inr (m, d1) \<Longrightarrow> auth_ok lib d1 = auth_ok lib d"
  using finish_member_effect [of x a action t details d m d1] auth_ok_same by blast

lemma finish_member_role: "finish_member x a action t details d = Inr (m, d1) \<Longrightarrow> has_role d1 u r = has_role d u r"
  using finish_member_effect [of x a action t details d m d1] by (simp add: has_role_def)

lemma insert_user_ok:
  assumes "insert_user lib x r d = Inr d1" "auth_ok lib d"
  shows "auth_ok lib d1 \<and> an_id x \<in> us_id ` set (au_users d1) \<and> au_roles d1 = au_roles d"
  using assms
  by (fastforce simp: insert_user_def auth_ok_def list_all_iff list_ex_iff user_of_def row_by_None split: if_splits)

lemma revokeMemberSessions_ok: "revokeMemberSessions flt now t d = Inr d1 \<Longrightarrow> auth_ok lib d1 = auth_ok lib d"
  by (auto simp: revokeMemberSessions_def auth_ok_sessions)

lemma lockMember_Inr: "lockMember flt k t d = Inr (u, admin) \<longleftrightarrow> \<not> flt k \<and> user_of d t = Some u \<and> admin = has_role d t RoleAdmin"
  by (auto simp: lockMember_def split: option.splits)

lemma user_of_in: "user_of d t = Some u \<Longrightarrow> u \<in> set (au_users d) \<and> us_id u = t"
  unfolding user_of_def by (rule row_by_Some)

section \<open>The steps of the system\<close>

text \<open>The transactions on the account tables. The methods of the services are checks before one of them; a login ends
  with \<open>new_session\<close>.\<close>

inductive auth_step :: "auth_lib \<Rightarrow> auth_db \<Rightarrow> auth_db \<Rightarrow> bool" for lib where
  create_member: "auth_step lib d (snd (CreateMember lib x actor r d))"
| replace_roles: "auth_step lib d (snd (ReplaceMemberRoles lib x actor t rs d))"
| set_enabled: "auth_step lib d (snd (SetMemberEnabled lib x actor t b d))"
| remove_member: "auth_step lib d (snd (RemoveMember lib x actor t d))"
| restore_member: "auth_step lib d (snd (RestoreMember lib x actor t d))"
| reset_password: "auth_step lib d (snd (ResetMemberPassword lib x actor t hash d))"
| new_session: "auth_step lib d (snd (create_session flt s d))"
| revoke_session: "auth_step lib d (snd (Revoke fails now token d))"
| register_attempt: "auth_step lib d (snd (RegisterAttempt lib flt uid ip now d))"
| commit_password: "auth_step lib d (snd (CommitPasswordChange lib flt c d))"
| bootstrap_admin: "auth_step lib d (snd (bootstrap lib x salt email name password d))"

inductive auth_reachable :: "auth_lib \<Rightarrow> auth_db \<Rightarrow> bool" for lib where
  no_accounts: "au_users d = [] \<Longrightarrow> au_roles d = [] \<Longrightarrow> au_user_roles d = [] \<Longrightarrow> au_sessions d = [] \<Longrightarrow> auth_reachable lib d"
| auth_further: "auth_reachable lib d \<Longrightarrow> auth_step lib d d' \<Longrightarrow> auth_reachable lib d'"

text \<open>What a committed step does to the database, seen from one member \<open>t\<close>: everybody else keeps account and roles, and
  sessions are only added or revoked.\<close>

definition sessions_kept :: "auth_db \<Rightarrow> auth_db \<Rightarrow> bool" where
  "sessions_kept d d' \<longleftrightarrow> (\<forall>s \<in> set (au_sessions d). \<exists>s' \<in> set (au_sessions d').
     ss_token s' = ss_token s \<and> ss_user s' = ss_user s \<and> (ss_revoked s \<noteq> None \<longrightarrow> ss_revoked s' \<noteq> None))"

definition others_kept :: "ident \<Rightarrow> auth_db \<Rightarrow> auth_db \<Rightarrow> bool" where
  "others_kept t d d' \<longleftrightarrow> (\<forall>u \<in> set (au_users d). us_id u \<noteq> t \<longrightarrow> u \<in> set (au_users d')) \<and>
     (\<forall>u r. u \<noteq> t \<longrightarrow> has_role d u r \<longrightarrow> has_role d' u r)"

definition some_admin :: "auth_db \<Rightarrow> bool" where
  "some_admin d \<longleftrightarrow> (\<exists>u \<in> set (au_users d). active_user u \<and> has_role d (us_id u) RoleAdmin)"

definition good_step :: "auth_lib \<Rightarrow> auth_db \<Rightarrow> auth_db \<Rightarrow> bool" where
  "good_step lib d d' \<longleftrightarrow> auth_ok lib d' \<and> sessions_kept d d' \<and> (some_admin d \<longrightarrow> some_admin d')"

lemma active_admins_some: "active_admins d \<noteq> [] \<longleftrightarrow> some_admin d"
  by (auto simp: active_admins_def some_admin_def filter_empty_conv)

lemma sessions_kept_refl [simp]: "sessions_kept d d"
  by (auto simp: sessions_kept_def)

lemma sessions_kept_same: "au_sessions d' = au_sessions d \<Longrightarrow> sessions_kept d d'"
  by (auto simp: sessions_kept_def)

lemma sessions_kept_trans: "sessions_kept d d' \<Longrightarrow> sessions_kept d' d'' \<Longrightarrow> sessions_kept d d''"
  unfolding sessions_kept_def by metis

lemma sessions_kept_update:
  assumes "\<And>s. ss_token (f s) = ss_token s" "\<And>s. ss_user (f s) = ss_user s" "\<And>s. ss_revoked (f s) \<noteq> None"
    and "au_sessions d' = update_where p f (au_sessions d)"
  shows "sessions_kept d d'"
  unfolding sessions_kept_def
proof
  fix s
  assume "s \<in> set (au_sessions d)"
  then have "(if p s then f s else s) \<in> set (au_sessions d')" unfolding assms(4) by (auto simp: update_where_def)
  then show "\<exists>s' \<in> set (au_sessions d'). ss_token s' = ss_token s \<and> ss_user s' = ss_user s \<and> (ss_revoked s \<noteq> None \<longrightarrow> ss_revoked s' \<noteq> None)"
    using assms(1-3) by (intro bexI) auto
qed

lemma set_user_others: "u \<in> set (au_users d) \<Longrightarrow> us_id u \<noteq> t \<Longrightarrow> u \<in> set (au_users (set_user t f d))"
  by (auto simp: set_user_def update_where_def)

lemma has_role_set_user [simp]: "has_role (set_user t f d) u r = has_role d u r"
  by (simp add: has_role_def set_user_def)

lemma others_admin:
  assumes "others_kept t d d'" "v \<in> set (au_users d)" "us_id v \<noteq> t" "active_user v" "has_role d (us_id v) RoleAdmin"
  shows "some_admin d'"
  using assms unfolding others_kept_def some_admin_def by blast

lemma another_admin:
  assumes ok: "auth_ok lib d" and some: "some_admin d" and t: "user_of d t = Some u"
    and guard: "active_user u \<and> has_role d t RoleAdmin \<Longrightarrow> \<not> length (active_admins d) \<le> 1"
  shows "\<exists>v \<in> set (au_users d). us_id v \<noteq> t \<and> active_user v \<and> has_role d (us_id v) RoleAdmin"
proof (rule ccontr)
  assume none: "\<not> ?thesis"
  obtain v where v: "v \<in> set (au_users d)" "active_user v" "has_role d (us_id v) RoleAdmin"
    using some unfolding some_admin_def by blast
  have vt: "us_id v = t" using none v by blast
  have "row_by us_id (us_id v) (au_users d) = Some v" using ok v(1) by (intro row_by_distinct) (simp_all add: auth_ok_def)
  then have "u = v" using t vt by (simp add: user_of_def)
  then have many: "\<not> length (active_admins d) \<le> 1" using guard v vt by simp
  have "set (active_admins d) \<subseteq> {t}" using none by (auto simp: active_admins_def)
  then have "card (set (active_admins d)) \<le> card {t}" by (rule card_mono [rotated]) simp
  moreover have "card (set (active_admins d)) = length (active_admins d)" by (rule distinct_card) (simp add: active_admins_def)
  ultimately show False using many by simp
qed

lemma guarded: "(if b then preserveLastAdmin flt k d else Inr ()) = Inr () \<Longrightarrow> b \<Longrightarrow> \<not> length (active_admins d) \<le> 1"
  by (simp add: preserveLastAdmin_def)

lemma good_refl: "auth_ok lib d \<Longrightarrow> good_step lib d d"
  by (simp add: good_step_def)

lemma good_tx: "auth_ok lib d \<Longrightarrow> (\<And>a d'. body = Inr (a, d') \<Longrightarrow> good_step lib d d') \<Longrightarrow> good_step lib d (snd (tx d body))"
  by (cases body) (auto simp: tx_def good_refl)

text \<open>A step that only touches \<open>t\<close>, with the guard against losing the last administrator.\<close>

lemma good_others:
  assumes "auth_ok lib d" "auth_ok lib d'" "sessions_kept d d'" "others_kept t d d'" "user_of d t = Some u"
    and "active_user u \<Longrightarrow> has_role d t RoleAdmin \<Longrightarrow> \<not> length (active_admins d) \<le> 1"
  shows "good_step lib d d'"
proof -
  have "some_admin d'" if some: "some_admin d"
  proof -
    obtain v where "v \<in> set (au_users d)" "us_id v \<noteq> t" "active_user v" "has_role d (us_id v) RoleAdmin"
      using another_admin [OF assms(1) some assms(5)] assms(6) by blast
    then show ?thesis by (rule others_admin [OF assms(4)])
  qed
  then show ?thesis using assms(2,3) by (simp add: good_step_def)
qed

lemma good_create: "auth_ok lib d \<Longrightarrow> good_step lib d (snd (CreateMember lib x actor r d))"
  unfolding CreateMember_def
proof (rule good_tx, assumption)
  fix m d'
  assume ok: "auth_ok lib d"
  assume "and_then (NormalizeUserID lib actor) (\<lambda>a.
     and_then (normalizeRoles (mr_roles r)) (\<lambda>rs.
     stmt (an_flt x) 0 ErrAuthStore (
     and_then (ensureRoles x 3 rs d) (\<lambda>d1.
     and_then (insert_user lib x r d1) (\<lambda>d2.
     and_then (replaceRoles (an_flt x) (an_id x) rs d2) (\<lambda>d3.
     finish_member x a ''member.create'' (an_id x)
       (JObj [(''email'', JStr (mr_email r)), (''displayName'', JStr (mr_name r)), role_json rs]) d3)))))) = Inr (m, d')"
  then obtain rs d1 d2 d3 a details where
    e: "ensureRoles x 3 rs d = Inr d1" and i: "insert_user lib x r d1 = Inr d2" and
    r: "replaceRoles (an_flt x) (an_id x) rs d2 = Inr d3" and f: "finish_member x a ''member.create'' (an_id x) details d3 = Inr (m, d')"
    by auto
  have d1: "auth_ok lib d1" "grown_roles d d1" using ensureRoles_grows [OF e ok] by auto
  have d2: "auth_ok lib d2" "an_id x \<in> us_id ` set (au_users d2)" using insert_user_ok [OF i d1(1)] by auto
  have ok': "auth_ok lib d'" using replaceRoles_ok [OF r d2] finish_member_ok [OF f] by simp
  have ins: "an_id x \<notin> us_id ` set (au_users d1)" "set (au_users d1) \<subseteq> set (au_users d2)" "au_sessions d2 = au_sessions d1"
    "au_roles d2 = au_roles d1" "au_user_roles d2 = au_user_roles d1"
    using i by (auto simp: insert_user_def user_of_def row_by_None split: if_splits)
  have users: "au_users d1 = au_users d" "au_sessions d1 = au_sessions d" using grown_fields [OF d1(2)] by auto
  have rep: "au_users d3 = au_users d2" "au_sessions d3 = au_sessions d2" "\<And>u r. u \<noteq> an_id x \<Longrightarrow> has_role d3 u r = has_role d2 u r"
    using replaceRoles_effect [OF r] by auto
  have fin: "au_users d' = au_users d3" "au_sessions d' = au_sessions d3" using finish_member_effect [OF f] by auto
  have role: "has_role d' u q" if "u \<noteq> an_id x" "has_role d u q" for u q
    using grown_role [OF d1(2) that(2)] rep(3) [OF that(1), of q] finish_member_role [OF f] ins(4,5) by (simp add: has_role_def)
  have "some_admin d'" if "some_admin d"
  proof -
    obtain v where v: "v \<in> set (au_users d)" "active_user v" "has_role d (us_id v) RoleAdmin" using \<open>some_admin d\<close> unfolding some_admin_def by blast
    then have "us_id v \<noteq> an_id x" using ins(1) users by force
    then show ?thesis using v role ins(2) users rep fin unfolding some_admin_def by auto
  qed
  moreover have "sessions_kept d d'" using users ins(3) rep(2) fin(2) by (intro sessions_kept_same) simp
  ultimately show "good_step lib d d'" using ok' by (simp add: good_step_def)
qed

lemma good_replace: "auth_ok lib d \<Longrightarrow> good_step lib d (snd (ReplaceMemberRoles lib x actor target requested d))"
  unfolding ReplaceMemberRoles_def
proof (rule good_tx, assumption)
  fix m d'
  assume ok: "auth_ok lib d"
  assume "and_then (normalizeMemberMutationIDs lib actor target) (\<lambda>(a, t).
     and_then (normalizeRoles requested) (\<lambda>rs.
     stmt (an_flt x) 0 ErrAuthStore (stmt (an_flt x) 1 ErrAuthStore (
     and_then (lockMember (an_flt x) 2 t d) (\<lambda>(u, admin).
     and_then (check (us_removed u = None) ErrMemberStateConflict) (\<lambda>_.
     and_then (if us_enabled u \<and> admin \<and> RoleAdmin \<notin> set rs then preserveLastAdmin (an_flt x) 8 d else Inr ()) (\<lambda>_.
     and_then (ensureRoles x 3 rs d) (\<lambda>d1.
     and_then (replaceRoles (an_flt x) t rs d1) (\<lambda>d2.
     finish_member x a ''member.roles.update'' t (JObj [role_json rs]) d2))))))))) = Inr (m, d')"
  then obtain a t rs u d1 d2 where u: "user_of d t = Some u" "us_removed u = None"
    and g: "(if us_enabled u \<and> has_role d t RoleAdmin \<and> RoleAdmin \<notin> set rs then preserveLastAdmin (an_flt x) 8 d else Inr ()) = Inr ()"
    and e: "ensureRoles x 3 rs d = Inr d1" and r: "replaceRoles (an_flt x) t rs d1 = Inr d2"
    and f: "finish_member x a ''member.roles.update'' t (JObj [role_json rs]) d2 = Inr (m, d')"
    by (auto simp: lockMember_Inr)
  have d1: "auth_ok lib d1" "grown_roles d d1" "set rs \<subseteq> rl_name ` set (au_roles d1)" using ensureRoles_grows [OF e ok] by auto
  have users: "au_users d1 = au_users d" "au_sessions d1 = au_sessions d" using grown_fields [OF d1(2)] by auto
  have rep: "au_users d2 = au_users d1" "au_sessions d2 = au_sessions d1" "\<And>v q. v \<noteq> t \<Longrightarrow> has_role d2 v q = has_role d1 v q"
    "\<And>q. q \<in> set rs \<Longrightarrow> q \<in> rl_name ` set (au_roles d1) \<Longrightarrow> has_role d2 t q"
    using replaceRoles_effect [OF r] by auto
  have fin: "au_users d' = au_users d2" "au_sessions d' = au_sessions d2" using finish_member_effect [OF f] by auto
  have t: "t \<in> us_id ` set (au_users d1)" using user_of_in [OF u(1)] users by auto
  have ok': "auth_ok lib d'" using replaceRoles_ok [OF r d1(1) t] finish_member_ok [OF f] by simp
  have kept: "sessions_kept d d'" using users rep(2) fin(2) by (intro sessions_kept_same) simp
  have others: "others_kept t d d'"
    using grown_role [OF d1(2)] rep users fin finish_member_role [OF f] by (auto simp: others_kept_def)
  show "good_step lib d d'"
  proof (cases "active_user u \<and> has_role d t RoleAdmin \<and> RoleAdmin \<in> set rs")
    case True
    then have "has_role d' t RoleAdmin" using rep(4) d1(3) finish_member_role [OF f] by auto
    moreover have "u \<in> set (au_users d')" "us_id u = t" using user_of_in [OF u(1)] users rep fin by auto
    ultimately have "some_admin d'" using True unfolding some_admin_def by blast
    then show ?thesis using ok' kept by (simp add: good_step_def)
  next
    case False
    show ?thesis
      using False guarded [OF g] by (intro good_others [OF ok ok' kept others u(1)]) (simp_all add: active_user_def)
  qed
qed

text \<open>Changing the row of \<open>t\<close>, perhaps revoking its sessions, and the end of the transaction.\<close>

definition member_change :: "ident \<Rightarrow> (user_row \<Rightarrow> user_row) \<Rightarrow> bool \<Rightarrow> auth_db \<Rightarrow> auth_db \<Rightarrow> bool" where
  "member_change t f revoke d d' \<longleftrightarrow> (\<exists>now. au_users d' = update_where (\<lambda>u. us_id u = t) f (au_users d) \<and>
     au_roles d' = au_roles d \<and> au_user_roles d' = au_user_roles d \<and>
     au_sessions d' = (if revoke then update_where (\<lambda>s. ss_user s = t \<and> ss_revoked s = None) (\<lambda>s. s\<lparr>ss_revoked := Some now\<rparr>) (au_sessions d)
       else au_sessions d))"

lemma member_change_ok:
  assumes "member_change t f revoke d d'" "\<And>u. us_id (f u) = us_id u" "\<And>u. us_email (f u) = us_email u" "auth_ok lib d"
  shows "auth_ok lib d' \<and> sessions_kept d d' \<and> others_kept t d d'"
proof -
  obtain now where d': "au_users d' = au_users (set_user t f d)" "au_roles d' = au_roles d" "au_user_roles d' = au_user_roles d"
     "au_sessions d' = (if revoke then update_where (\<lambda>s. ss_user s = t \<and> ss_revoked s = None) (\<lambda>s. s\<lparr>ss_revoked := Some now\<rparr>) (au_sessions d)
       else au_sessions d)" using assms(1) by (auto simp: member_change_def set_user_def)
  let ?e = "set_user t f d"
  have ok: "auth_ok lib ?e" using auth_ok_set_user [OF assms(2,3)] assms(4) by simp
  have "auth_ok lib d'"
  proof (cases revoke)
    case True
    have "auth_ok lib (?e\<lparr>au_sessions := update_where (\<lambda>s. ss_user s = t \<and> ss_revoked s = None) (\<lambda>s. s\<lparr>ss_revoked := Some now\<rparr>) (au_sessions ?e)\<rparr>)"
      using ok by (simp add: auth_ok_sessions)
    then show ?thesis using d' True by (subst (asm) auth_ok_same [of d', symmetric]) (simp_all add: set_user_def)
  next
    case False
    then show ?thesis using ok d' by (subst auth_ok_same [of d' ?e]) (simp_all add: set_user_def)
  qed
  moreover have "sessions_kept d d'"
    using d'(4) sessions_kept_same sessions_kept_update [of "\<lambda>s. s\<lparr>ss_revoked := Some now\<rparr>"] by (cases revoke) auto
  moreover have "others_kept t d d'"
    using d' set_user_others [of _ d t f] by (auto simp: others_kept_def has_role_def)
  ultimately show ?thesis by blast
qed

lemma change_finish:
  assumes "finish_member x a action t details d1 = Inr (m, d')"
    and "d1 = set_user t f d \<and> \<not> revoke \<or> revokeMemberSessions flt now t (set_user t f d) = Inr d1 \<and> revoke"
  shows "member_change t f revoke d d' \<and> mb_id m = t"
  using assms(2) finish_member_effect [OF assms(1)] by (auto simp: member_change_def revokeMemberSessions_def set_user_def)

lemma set_enabled_Inr:
  assumes "SetMemberEnabled lib x actor target b d = (Inr m, d')"
  obtains a t u where "normalizeMemberMutationIDs lib actor target = Inr (a, t)" "user_of d t = Some u" "us_removed u = None" "us_enabled u \<noteq> b"
    "(if \<not> b \<and> has_role d t RoleAdmin then preserveLastAdmin (an_flt x) 8 d else Inr ()) = Inr ()"
    "member_change t (\<lambda>u. u\<lparr>us_enabled := b, us_updated := an_now x\<rparr>) (\<not> b) d d'" "mb_id m = t"
proof -
  let ?f = "\<lambda>u. u\<lparr>us_enabled := b, us_updated := an_now x\<rparr>"
  obtain a t u d1 details action where r: "normalizeMemberMutationIDs lib actor target = Inr (a, t)" "user_of d t = Some u" "us_removed u = None"
      "us_enabled u \<noteq> b" "(if \<not> b \<and> has_role d t RoleAdmin then preserveLastAdmin (an_flt x) 8 d else Inr ()) = Inr ()"
    and c: "(if b then Inr (set_user t ?f d) else revokeMemberSessions (an_flt x) (an_now x) t (set_user t ?f d)) = Inr d1"
    and f: "finish_member x a action t details d1 = Inr (m, d')"
    using assms unfolding SetMemberEnabled_def Let_def by (auto simp: lockMember_Inr) blast
  have "member_change t ?f (\<not> b) d d' \<and> mb_id m = t"
    by (rule change_finish [OF f, of ?f d _ "an_flt x" "an_now x"]) (use c in \<open>auto split: if_splits\<close>)
  then show ?thesis using that [OF r] by blast
qed

lemma remove_Inr:
  assumes "RemoveMember lib x actor target d = (Inr m, d')"
  obtains a t u where "normalizeMemberMutationIDs lib actor target = Inr (a, t)" "user_of d t = Some u" "us_removed u = None"
    "(if us_enabled u \<and> has_role d t RoleAdmin then preserveLastAdmin (an_flt x) 8 d else Inr ()) = Inr ()"
    "member_change t (\<lambda>u. u\<lparr>us_enabled := False, us_removed := Some (an_now x), us_updated := an_now x\<rparr>) True d d'" "mb_id m = t"
proof -
  let ?f = "\<lambda>u. u\<lparr>us_enabled := False, us_removed := Some (an_now x), us_updated := an_now x\<rparr>"
  obtain a t u d1 details action where r: "normalizeMemberMutationIDs lib actor target = Inr (a, t)" "user_of d t = Some u" "us_removed u = None"
    "(if us_enabled u \<and> has_role d t RoleAdmin then preserveLastAdmin (an_flt x) 8 d else Inr ()) = Inr ()"
    and c: "revokeMemberSessions (an_flt x) (an_now x) t (set_user t ?f d) = Inr d1"
    and f: "finish_member x a action t details d1 = Inr (m, d')"
    using assms unfolding RemoveMember_def by (auto simp: lockMember_Inr)
  have "member_change t ?f True d d' \<and> mb_id m = t"
    by (rule change_finish [OF f, of ?f d _ "an_flt x" "an_now x"]) (use c in simp)
  then show ?thesis using that [OF r] by blast
qed

lemma restore_Inr:
  assumes "RestoreMember lib x actor target d = (Inr m, d')"
  obtains a t u where "normalizeMemberMutationIDs lib actor target = Inr (a, t)" "user_of d t = Some u" "us_removed u \<noteq> None"
    "member_change t (\<lambda>u. u\<lparr>us_enabled := False, us_removed := None, us_updated := an_now x\<rparr>) False d d'" "mb_id m = t"
proof -
  let ?f = "\<lambda>u. u\<lparr>us_enabled := False, us_removed := None, us_updated := an_now x\<rparr>"
  obtain a t u d1 details action where r: "normalizeMemberMutationIDs lib actor target = Inr (a, t)" "user_of d t = Some u" "us_removed u \<noteq> None"
    and c: "d1 = set_user t ?f d"
    and f: "finish_member x a action t details d1 = Inr (m, d')"
    using assms unfolding RestoreMember_def by (auto simp: lockMember_Inr)
  have "member_change t ?f False d d' \<and> mb_id m = t"
    by (rule change_finish [OF f, of ?f d _ "an_flt x" "an_now x"]) (use c in simp)
  then show ?thesis using that [OF r] by blast
qed

lemma reset_Inr:
  assumes "ResetMemberPassword lib x actor target hash d = (Inr m, d')"
  obtains a t u where "normalizeMemberMutationIDs lib actor target = Inr (a, t)" "user_of d t = Some u" "us_removed u = None"
    "member_change t (\<lambda>u. u\<lparr>us_hash := hash, us_must_change := True, us_updated := an_now x\<rparr>) True d d'" "mb_id m = t"
proof -
  let ?f = "\<lambda>u. u\<lparr>us_hash := hash, us_must_change := True, us_updated := an_now x\<rparr>"
  obtain a t u d1 details action where r: "normalizeMemberMutationIDs lib actor target = Inr (a, t)" "user_of d t = Some u" "us_removed u = None"
    and c: "revokeMemberSessions (an_flt x) (an_now x) t (set_user t ?f d) = Inr d1"
    and f: "finish_member x a action t details d1 = Inr (m, d')"
    using assms unfolding ResetMemberPassword_def by (auto simp: lockMember_Inr)
  have "member_change t ?f True d d' \<and> mb_id m = t"
    by (rule change_finish [OF f, of ?f d _ "an_flt x" "an_now x"]) (use c in simp)
  then show ?thesis using that [OF r] by blast
qed

lemma good_change:
  assumes "auth_ok lib d" "member_change t f revoke d d'" "\<And>u. us_id (f u) = us_id u" "\<And>u. us_email (f u) = us_email u"
    and "user_of d t = Some u" "active_user u \<Longrightarrow> has_role d t RoleAdmin \<Longrightarrow> \<not> length (active_admins d) \<le> 1"
  shows "good_step lib d d'"
  using member_change_ok [OF assms(2-4,1)] good_others [OF assms(1)] assms(5,6) by blast

text \<open>A change that keeps every member active who was.\<close>

lemma good_keeping:
  assumes "auth_ok lib d" "member_change t f revoke d d'" "\<And>u. us_id (f u) = us_id u" "\<And>u. us_email (f u) = us_email u"
    and "\<And>u. active_user u \<Longrightarrow> active_user (f u)"
  shows "good_step lib d d'"
proof -
  have "some_admin d'" if some: "some_admin d"
  proof -
    obtain v where v: "v \<in> set (au_users d)" "active_user v" "has_role d (us_id v) RoleAdmin"
      using some unfolding some_admin_def by blast
    let ?w = "if us_id v = t then f v else v"
    have "?w \<in> set (au_users d')" using assms(2) v(1) by (auto simp: member_change_def update_where_def)
    moreover have "active_user ?w" "us_id ?w = us_id v" using assms(3,5) v(2) by auto
    moreover have "has_role d' (us_id v) RoleAdmin" using assms(2) v(3) by (auto simp: member_change_def has_role_def)
    ultimately show ?thesis unfolding some_admin_def by metis
  qed
  then show ?thesis using member_change_ok [OF assms(2-4,1)] by (simp add: good_step_def)
qed

lemma op_cases:
  assumes "op = tx d body" "auth_ok lib d" "\<And>m d'. op = (Inr m, d') \<Longrightarrow> good_step lib d d'"
  shows "good_step lib d (snd op)"
  using assms(2,3) unfolding assms(1) by (cases body) (auto simp: tx_def good_refl)

lemma good_set_enabled: "auth_ok lib d \<Longrightarrow> good_step lib d (snd (SetMemberEnabled lib x actor target b d))"
proof (rule op_cases [OF SetMemberEnabled_def], assumption)
  fix m d'
  assume ok: "auth_ok lib d" and op: "SetMemberEnabled lib x actor target b d = (Inr m, d')"
  from op show "good_step lib d d'"
  proof (rule set_enabled_Inr)
    fix a t u
    assume u: "user_of d t = Some u" "us_enabled u \<noteq> b"
      and g: "(if \<not> b \<and> has_role d t RoleAdmin then preserveLastAdmin (an_flt x) 8 d else Inr ()) = Inr ()"
      and c: "member_change t (\<lambda>u. u\<lparr>us_enabled := b, us_updated := an_now x\<rparr>) (\<not> b) d d'"
    show ?thesis using u(2) guarded [OF g] by (intro good_change [OF ok c _ _ u(1)]) (auto simp: active_user_def)
  qed
qed

lemma good_remove: "auth_ok lib d \<Longrightarrow> good_step lib d (snd (RemoveMember lib x actor target d))"
proof (rule op_cases [OF RemoveMember_def], assumption)
  fix m d'
  assume ok: "auth_ok lib d" and op: "RemoveMember lib x actor target d = (Inr m, d')"
  from op show "good_step lib d d'"
  proof (rule remove_Inr)
    fix a t u
    assume u: "user_of d t = Some u"
      and g: "(if us_enabled u \<and> has_role d t RoleAdmin then preserveLastAdmin (an_flt x) 8 d else Inr ()) = Inr ()"
      and c: "member_change t (\<lambda>u. u\<lparr>us_enabled := False, us_removed := Some (an_now x), us_updated := an_now x\<rparr>) True d d'"
    show ?thesis using guarded [OF g] by (intro good_change [OF ok c _ _ u]) (auto simp: active_user_def)
  qed
qed

lemma good_restore: "auth_ok lib d \<Longrightarrow> good_step lib d (snd (RestoreMember lib x actor target d))"
proof (rule op_cases [OF RestoreMember_def], assumption)
  fix m d'
  assume ok: "auth_ok lib d" and op: "RestoreMember lib x actor target d = (Inr m, d')"
  from op show "good_step lib d d'"
  proof (rule restore_Inr)
    fix a t u
    assume u: "user_of d t = Some u" "us_removed u \<noteq> None"
      and c: "member_change t (\<lambda>u. u\<lparr>us_enabled := False, us_removed := None, us_updated := an_now x\<rparr>) False d d'"
    show ?thesis using u(2) by (intro good_change [OF ok c _ _ u(1)]) (auto simp: active_user_def)
  qed
qed

lemma good_reset: "auth_ok lib d \<Longrightarrow> good_step lib d (snd (ResetMemberPassword lib x actor target hash d))"
proof (rule op_cases [OF ResetMemberPassword_def], assumption)
  fix m d'
  assume ok: "auth_ok lib d" and op: "ResetMemberPassword lib x actor target hash d = (Inr m, d')"
  from op show "good_step lib d d'"
  proof (rule reset_Inr)
    fix a t u
    assume "member_change t (\<lambda>u. u\<lparr>us_hash := hash, us_must_change := True, us_updated := an_now x\<rparr>) True d d'"
    then show ?thesis by (rule good_keeping [OF ok]) (simp_all add: active_user_def)
  qed
qed

lemma good_session: "auth_ok lib d \<Longrightarrow> good_step lib d (snd (create_session flt s d))"
proof (rule op_cases [OF create_session_def], assumption)
  fix m d'
  assume ok: "auth_ok lib d" and op: "create_session flt s d = (Inr m, d')"
  let ?r = "\<lparr>ss_id = st_id s, ss_user = st_user s, ss_token = st_token s, ss_expires = st_expires s, ss_revoked = None,
           ss_created = st_created s\<rparr>"
  have "d' = d\<lparr>au_sessions := au_sessions d @ [?r]\<rparr>" and u: "st_user s \<in> us_id ` set (au_users d)"
    and fresh: "st_token s \<notin> ss_token ` set (au_sessions d)"
    using op by (auto simp: create_session_def list_ex_iff split: if_splits intro: image_eqI [OF sym])
  then show "good_step lib d d'" using ok
    by (auto simp: good_step_def auth_ok_def sessions_kept_def some_admin_def has_role_def)
qed

lemma good_fields:
  assumes "auth_ok lib d" "au_users d' = au_users d" "au_roles d' = au_roles d" "au_user_roles d' = au_user_roles d" "au_sessions d' = au_sessions d"
  shows "good_step lib d d'"
  using assms auth_ok_same [of d' d lib] sessions_kept_same [of d' d] by (simp add: good_step_def some_admin_def has_role_def)

lemma good_revoke: "auth_ok lib d \<Longrightarrow> good_step lib d (snd (Revoke fails now token d))"
  using sessions_kept_update [of "\<lambda>s. s\<lparr>ss_revoked := Some now\<rparr>"]
  by (simp add: Revoke_def good_refl) (simp add: good_step_def auth_ok_sessions some_admin_def has_role_def)

lemma good_attempt: "auth_ok lib d \<Longrightarrow> good_step lib d (snd (RegisterAttempt lib flt uid ip now d))"
proof (rule op_cases [OF RegisterAttempt_def], assumption)
  fix m d'
  assume ok: "auth_ok lib d" and op: "RegisterAttempt lib flt uid ip now d = (Inr m, d')"
  have same: "au_users e = au_users c \<and> au_roles e = au_roles c \<and> au_user_roles e = au_user_roles c \<and> au_sessions e = au_sessions c"
    if "count_attempt now sc su c = (n, e)" for sc su c n e
    using that by (auto simp: count_attempt_def Let_def split: option.splits)
  obtain n1 d1 n2 where "count_attempt now ''password_user'' (li_sha lib uid) d = (n1, d1)"
    "count_attempt now ''password_ip'' (li_sha lib ip) d1 = (n2, d')"
    using op by (auto simp: RegisterAttempt_def split: if_splits prod.splits)
  then have "au_users d' = au_users d \<and> au_roles d' = au_roles d \<and> au_user_roles d' = au_user_roles d \<and> au_sessions d' = au_sessions d"
    using same by metis
  then show "good_step lib d d'" using good_fields [OF ok] by blast
qed

lemma commit_Inr:
  assumes "CommitPasswordChange lib flt c d = (Inr m, d')"
  shows "\<exists>u. user_of d (pc_user c) = Some u \<and> us_hash u = pc_expected c \<and>
    au_users d' = update_where (\<lambda>u. us_id u = pc_user c) (\<lambda>u. u\<lparr>us_hash := pc_new c, us_must_change := False, us_updated := pc_at c\<rparr>) (au_users d) \<and>
    au_roles d' = au_roles d \<and> au_user_roles d' = au_user_roles d \<and>
    au_sessions d' = update_where (\<lambda>s. ss_user s = pc_user c \<and> ss_token s \<noteq> pc_session c \<and> ss_revoked s = None)
      (\<lambda>s. s\<lparr>ss_revoked := Some (pc_at c)\<rparr>) (au_sessions d)"
  using assms by (auto simp: CommitPasswordChange_def set_user_def split: if_splits option.splits)

lemma good_commit: "auth_ok lib d \<Longrightarrow> good_step lib d (snd (CommitPasswordChange lib flt c d))"
proof (rule op_cases [OF CommitPasswordChange_def], assumption)
  fix m d'
  assume ok: "auth_ok lib d" and op: "CommitPasswordChange lib flt c d = (Inr m, d')"
  let ?f = "\<lambda>u. u\<lparr>us_hash := pc_new c, us_must_change := False, us_updated := pc_at c\<rparr>"
  let ?e = "d'\<lparr>au_sessions := au_sessions d\<rparr>"
  note e = commit_Inr [OF op]
  have ss: "au_sessions d' = update_where (\<lambda>s. ss_user s = pc_user c \<and> ss_token s \<noteq> pc_session c \<and> ss_revoked s = None)
      (\<lambda>s. s\<lparr>ss_revoked := Some (pc_at c)\<rparr>) (au_sessions d)" using e by blast
  have "member_change (pc_user c) ?f False d ?e" using e by (auto simp: member_change_def)
  then have good: "good_step lib d ?e" by (rule good_keeping [OF ok]) (simp_all add: active_user_def)
  have d': "d' = ?e\<lparr>au_sessions := update_where (\<lambda>s. ss_user s = pc_user c \<and> ss_token s \<noteq> pc_session c \<and> ss_revoked s = None)
      (\<lambda>s. s\<lparr>ss_revoked := Some (pc_at c)\<rparr>) (au_sessions ?e)\<rparr>"
    by (simp flip: ss)
  have "auth_ok lib ?e" using good by (simp only: good_step_def)
  then have "auth_ok lib d'" by (subst d') (subst auth_ok_sessions, simp_all)
  moreover have "sessions_kept d d'"
    using sessions_kept_update [of "\<lambda>s. s\<lparr>ss_revoked := Some (pc_at c)\<rparr>"] e by auto
  moreover have "some_admin d' = some_admin ?e" by (simp add: some_admin_def has_role_def)
  ultimately show "good_step lib d d'" using good by (simp add: good_step_def)
qed

definition kept_roles :: "auth_db \<Rightarrow> auth_db \<Rightarrow> bool" where
  "kept_roles d d' \<longleftrightarrow> au_users d' = au_users d \<and> au_user_roles d' = au_user_roles d \<and> au_sessions d' = au_sessions d \<and>
     (\<forall>u r. has_role d u r \<longrightarrow> has_role d' u r)"

lemma update_role_ok:
  fixes d :: auth_db and r :: role and ps :: "permission list"
  defines "d' \<equiv> d\<lparr>au_roles := update_where (\<lambda>q. rl_name q = r) (\<lambda>q. q\<lparr>rl_permissions := ps\<rparr>) (au_roles d)\<rparr>"
  shows "auth_ok lib d' = auth_ok lib d \<and> kept_roles d d'"
proof -
  have names: "map rl_name (au_roles d') = map rl_name (au_roles d)" "map rl_id (au_roles d') = map rl_id (au_roles d)"
    by (simp_all add: d'_def map_update_where)
  then have sets: "rl_id ` set (au_roles d') = rl_id ` set (au_roles d)" by (metis set_map)
  have known: "list_all (\<lambda>q. known_role (rl_name q)) (au_roles e) = list_all known_role (map rl_name (au_roles e))" for e :: auth_db
    by (simp add: list.pred_map comp_def)
  have "auth_ok lib d' = auth_ok lib d"
    unfolding auth_ok_def known names sets by (simp add: d'_def)
  moreover have "has_role d' u q" if role: "has_role d u q" for u q
  proof -
    obtain e where e: "e \<in> set (au_roles d)" "rl_name e = q" "(u, rl_id e) \<in> set (au_user_roles d)"
      using role by (auto simp: has_role_iff)
    let ?e = "if rl_name e = r then e\<lparr>rl_permissions := ps\<rparr> else e"
    have "?e \<in> set (au_roles d')" using e(1) by (auto simp: d'_def update_where_def)
    moreover have "rl_name ?e = q" "(u, rl_id ?e) \<in> set (au_user_roles d')" using e(2,3) by (simp_all add: d'_def)
    ultimately show ?thesis unfolding has_role_iff by blast
  qed
  ultimately show ?thesis by (simp add: kept_roles_def d'_def)
qed

lemma upsert_roles_ok:
  "upsert_roles x k rs d = Inr d1 \<Longrightarrow> list_all known_role rs \<Longrightarrow> auth_ok lib d \<Longrightarrow>
   auth_ok lib d1 \<and> kept_roles d d1"
proof (induction x k rs d rule: upsert_roles.induct)
  case (1 x k d)
  then show ?case by (simp add: kept_roles_def)
next
  case (2 x k r rs d)
  define ps where "ps = the (permissionsForRole r)"
  show ?case
  proof (cases "r \<in> rl_name ` set (au_roles d)")
    case True
    let ?d = "d\<lparr>au_roles := update_where (\<lambda>q. rl_name q = r) (\<lambda>q. q\<lparr>rl_permissions := ps\<rparr>) (au_roles d)\<rparr>"
    have "upsert_roles x (k + 1) rs ?d = Inr d1" using 2(3) True by (simp add: Let_def ps_def)
    moreover have "auth_ok lib ?d" "kept_roles d ?d" using update_role_ok [where lib = lib and d = d and r = r and ps = ps] 2(5) by auto
    ultimately show ?thesis using 2(1) [OF ps_def True] 2(4) by (auto simp: kept_roles_def)
  next
    case False
    let ?d = "d\<lparr>au_roles := au_roles d @ [\<lparr>rl_id = an_role_id x r, rl_name = r, rl_permissions = ps\<rparr>]\<rparr>"
    have n: "an_role_id x r \<notin> rl_id ` set (au_roles d)" using 2(3) False by (auto simp: Let_def split: if_splits)
    have "upsert_roles x (k + 1) rs ?d = Inr d1" using 2(3) False n by (simp add: Let_def ps_def)
    moreover have "auth_ok lib ?d" using insert_role_ok [OF 2(5) _ False n] 2(4) by simp
    moreover have "kept_roles d ?d" by (auto simp: kept_roles_def has_role_iff)
    ultimately show ?thesis using 2(2) [OF ps_def False n] 2(4) by (auto simp: kept_roles_def)
  qed
qed

lemma upsert_admin_ok:
  assumes "upsert_admin lib x email name hash d = Inr (uid, d1)" "auth_ok lib d"
  shows "auth_ok lib d1 \<and> uid \<in> us_id ` set (au_users d1) \<and> au_roles d1 = au_roles d \<and> au_user_roles d1 = au_user_roles d \<and>
    au_sessions d1 = au_sessions d \<and> (\<forall>v \<in> set (au_users d). active_user v \<longrightarrow> (\<exists>w \<in> set (au_users d1). us_id w = us_id v \<and> active_user w))"
proof (cases "find (\<lambda>u. li_sql_lower lib (us_email u) = li_sql_lower lib email) (au_users d)")
  case None
  then have "list_all (\<lambda>u. li_sql_lower lib (us_email u) \<noteq> li_sql_lower lib email) (au_users d)"
    by (auto simp: find_None_iff list_all_iff)
  then show ?thesis
    using None assms by (fastforce simp: upsert_admin_def auth_ok_def list_all_iff user_of_def row_by_None split: if_splits)
next
  case (Some u)
  let ?f = "\<lambda>u. u\<lparr>us_name := name, us_hash := hash, us_enabled := True, us_updated := an_now x\<rparr>"
  have d1: "d1 = set_user (us_id u) ?f d" "uid = us_id u" using assms(1) Some by (auto simp: upsert_admin_def)
  have "u \<in> set (au_users d)" using Some by (metis (no_types, lifting) find_Some_iff nth_mem)
  moreover have ids: "map us_id (au_users d1) = map us_id (au_users d)" unfolding d1(1) by (rule set_user_ids(1)) simp
  ultimately have "uid \<in> us_id ` set (au_users d1)" unfolding d1(2) by (metis image_eqI set_map)
  moreover have "auth_ok lib d1" using assms(2) unfolding d1(1) by (subst auth_ok_set_user) simp_all
  moreover have "\<exists>w \<in> set (au_users d1). us_id w = us_id v \<and> active_user w" if v: "v \<in> set (au_users d)" "active_user v" for v
  proof
    show "(if us_id v = us_id u then ?f v else v) \<in> set (au_users d1)" using v(1) by (auto simp: d1(1) set_user_def update_where_def)
  qed (use v(2) in \<open>simp add: active_user_def\<close>)
  ultimately show ?thesis by (simp add: d1(1) set_user_def)
qed

lemma good_bootstrap: "auth_ok lib d \<Longrightarrow> good_step lib d (snd (bootstrap lib x salt email name password d))"
proof (rule op_cases [OF bootstrap_def], assumption)
  fix m d'
  assume ok: "auth_ok lib d" and op: "bootstrap lib x salt email name password d = (Inr m, d')"
  from op obtain hash d1 uid d2 where r: "upsert_roles x 1 bootstrap_roles d = Inr d1"
    and u: "upsert_admin lib x email name hash d1 = Inr (uid, d2)"
    and d': "d' = d2\<lparr>au_user_roles := au_user_roles d2 @ filter (\<lambda>e. e \<notin> set (au_user_roles d2))
         (map (\<lambda>r. (uid, rl_id r)) (filter (\<lambda>r. rl_name r = RoleAdmin) (au_roles d2)))\<rparr>"
    unfolding bootstrap_def by auto
  have d1: "auth_ok lib d1" "kept_roles d d1"
    using upsert_roles_ok [OF r _ ok] by (auto simp: bootstrap_roles_def known_role_def)
  have d2: "auth_ok lib d2" "uid \<in> us_id ` set (au_users d2)" "au_roles d2 = au_roles d1" "au_user_roles d2 = au_user_roles d1"
    "au_sessions d2 = au_sessions d1"
    "\<forall>v \<in> set (au_users d1). active_user v \<longrightarrow> (\<exists>w \<in> set (au_users d2). us_id w = us_id v \<and> active_user w)"
    using upsert_admin_ok [OF u d1(1)] by auto
  have "distinct (map rl_id (au_roles d2))" using d2(1) by (simp add: auth_ok_def)
  then have "distinct (map (Pair uid) (map rl_id (filter (\<lambda>r. rl_name r = RoleAdmin) (au_roles d2))))"
    unfolding distinct_map [of "Pair uid"] by (simp add: distinct_map_filter inj_on_def)
  then have "distinct (map (\<lambda>r. (uid, rl_id r)) (filter (\<lambda>r. rl_name r = RoleAdmin) (au_roles d2)))" by (simp add: comp_def)
  then have ok': "auth_ok lib d'" using d2(1,2) unfolding d' auth_ok_def by (auto simp: list_all_iff)
  have role: "has_role d' v q" if "has_role d v q" for v q
    using that d1(2) d2(3,4) unfolding kept_roles_def d' has_role_iff by fastforce
  have "some_admin d'" if "some_admin d"
  proof -
    obtain v where v: "v \<in> set (au_users d)" "active_user v" "has_role d (us_id v) RoleAdmin" using \<open>some_admin d\<close> unfolding some_admin_def by blast
    moreover have "au_users d1 = au_users d" using d1(2) by (simp add: kept_roles_def)
    ultimately obtain w where "w \<in> set (au_users d2)" "us_id w = us_id v" "active_user w" using d2(6) by auto
    moreover have "au_users d' = au_users d2" by (simp add: d')
    ultimately show ?thesis using role [OF v(3)] unfolding some_admin_def by auto
  qed
  moreover have "sessions_kept d d'" using d1(2) d2(5) by (intro sessions_kept_same) (simp add: kept_roles_def d')
  ultimately show "good_step lib d d'" using ok' by (simp add: good_step_def)
qed

lemma step_good: "auth_step lib d d' \<Longrightarrow> auth_ok lib d \<Longrightarrow> good_step lib d d'"
  by (induction rule: auth_step.induct)
    (simp_all add: good_create good_replace good_set_enabled good_remove good_restore good_reset good_session good_revoke good_attempt
      good_commit good_bootstrap)

lemma steps_good: "(auth_step lib)\<^sup>*\<^sup>* d d' \<Longrightarrow> auth_ok lib d \<Longrightarrow> good_step lib d d'"
proof (induction rule: rtranclp_induct)
  case (step e f)
  then have "good_step lib d e" "good_step lib e f" using step_good by (auto simp: good_step_def)
  then show ?case using sessions_kept_trans by (auto simp: good_step_def)
qed (rule good_refl)

lemma reachable_ok: "auth_reachable lib d \<Longrightarrow> auth_ok lib d"
proof (induction rule: auth_reachable.induct)
  case (auth_further d d')
  then show ?case using step_good unfolding good_step_def by blast
qed (simp add: auth_ok_def)

section \<open>Sessions that ended\<close>

lemma find_session_user:
  assumes "FindPrincipal fails now token d = Inr p"
  shows "\<exists>s u. s \<in> set (au_sessions d) \<and> ss_token s = token \<and> ss_revoked s = None \<and> ss_expires s > now \<and>
    user_of d (ss_user s) = Some u \<and> active_user u \<and> pr_id p = us_id u \<and> pr_roles p = role_names d (us_id u) \<and> pr_must_change p = us_must_change u"
  using assms by (auto simp: FindPrincipal_def find_Some_iff split: if_splits option.splits) (metis nth_mem)+

lemma revoked_stays_out:
  assumes ok: "auth_ok lib d" and s: "s \<in> set (au_sessions d)" "ss_revoked s \<noteq> None" and steps: "(auth_step lib)\<^sup>*\<^sup>* d d'"
  shows "FindPrincipal fails now (ss_token s) d' \<noteq> Inr p"
proof
  assume "FindPrincipal fails now (ss_token s) d' = Inr p"
  then obtain q where q: "q \<in> set (au_sessions d')" "ss_token q = ss_token s" "ss_revoked q = None" using find_session_user by blast
  have good: "auth_ok lib d'" "sessions_kept d d'" using steps_good [OF steps ok] by (auto simp: good_step_def)
  then obtain s' where s': "s' \<in> set (au_sessions d')" "ss_token s' = ss_token s" "ss_revoked s' \<noteq> None"
    using s unfolding sessions_kept_def by blast
  have "distinct (map ss_token (au_sessions d'))" using good(1) by (simp add: auth_ok_def)
  then have "q = s'" using q s' unfolding distinct_map by (metis inj_onD)
  then show False using q s' by simp
qed

lemma change_revokes:
  assumes "member_change t f True d d'" "s \<in> set (au_sessions d)" "ss_user s = t"
  shows "\<exists>s' \<in> set (au_sessions d'). ss_token s' = ss_token s \<and> ss_revoked s' \<noteq> None"
proof -
  obtain now where d': "au_sessions d' = update_where (\<lambda>s. ss_user s = t \<and> ss_revoked s = None) (\<lambda>s. s\<lparr>ss_revoked := Some now\<rparr>) (au_sessions d)"
    using assms(1) by (auto simp: member_change_def)
  have "(if ss_revoked s = None then s\<lparr>ss_revoked := Some now\<rparr> else s) \<in> set (au_sessions d')"
    using assms(2,3) unfolding d' by (auto simp: update_where_def)
  then show ?thesis by (rule bexI [rotated]) simp
qed

section \<open>Passwords\<close>

lemma show_nat_no_dollar: "CHR ''$'' \<notin> set (show_nat n)" "show_nat n \<noteq> []" "list_all is_digit (show_nat n)"
  using show_nat_facts [of n] by (auto simp: digits_only_def list_all_iff is_digit_def)

lemma base64_no_dollar: "CHR ''$'' \<notin> set (base64_encode False False s)"
proof
  assume "CHR ''$'' \<in> set (base64_encode False False s)"
  then obtain n where "n < 64" "CHR ''$'' = base64_char False n" using base64_digits_less by (auto simp: base64_encode_digits)
  then have "base64_value False CHR ''$'' = Some n" using base64_value_char [of n False] by simp
  then show False by (simp add: base64_value_def byte_def)
qed

lemma scan_uint_digits:
  assumes "list_all is_digit ds" "ds \<noteq> []" "decimal_value ds < 2 ^ bits" "rest = [] \<or> \<not> is_digit (hd rest)"
  shows "scan_uint bits (ds @ rest) = Some (int (decimal_value ds), rest)"
proof -
  obtain c cs where ds: "ds = c # cs" using assms(2) by (cases ds) auto
  have c: "is_digit c" using assms(1) ds by simp
  then have "\<not> prefix e (ds @ rest)" if "e \<in> set go_spaces" for e
    using that ds by (auto simp: go_spaces_def is_digit_def)
  then have "find (\<lambda>e. e \<noteq> [] \<and> prefix e (ds @ rest)) (filter (\<lambda>e. e \<noteq> [CHR 0x0A]) go_spaces) = None"
    by (auto simp: find_None_iff)
  then have "strip_front (filter (\<lambda>e. e \<noteq> [CHR 0x0A]) go_spaces) (ds @ rest) = ds @ rest"
    by (subst strip_front.simps) simp
  moreover have "takeWhile is_digit (ds @ rest) = ds" "dropWhile is_digit (ds @ rest) = rest"
    using assms(1,4) by (cases rest; simp add: list_all_iff takeWhile_append dropWhile_append)+
  moreover have "\<not> prefix [CHR 0x0A] (ds @ rest)" using c ds by (auto simp: is_digit_def)
  ultimately show ?thesis using assms(2,3) by (simp add: scan_uint_def Let_def)
qed

lemma scan_argon_hash:
  "scan_argon (''m='' @ show_nat (nat argonMemory) @ '',t='' @ show_nat (nat argonIterations) @ '',p='' @ show_nat (nat argonParallelism)) = Some (argonMemory, argonIterations, argonParallelism)"
proof -
  have n: "scan_uint bits (show_nat (nat n) @ rest) = Some (n, rest)" if "0 \<le> n" "nat n < 2 ^ bits" "rest = [] \<or> \<not> is_digit (hd rest)" for n bits rest
    using scan_uint_digits [of "show_nat (nat n)" bits rest] show_nat_no_dollar [of "nat n"] show_nat_facts [of "nat n"] that by simp
  have m: "scan_uint 32 (show_nat (nat argonMemory) @ '',t='' @ rest) = Some (argonMemory, '',t='' @ rest)"
    "scan_uint 32 (show_nat (nat argonIterations) @ '',p='' @ rest) = Some (argonIterations, '',p='' @ rest)"
    for rest by (subst n; simp add: argon_defs is_digit_def)+
  have "scan_uint 8 (show_nat (nat argonParallelism) @ []) = Some (argonParallelism, [])" by (rule n) (simp_all add: argon_defs)
  then have p: "scan_uint 8 (show_nat (nat argonParallelism)) = Some (argonParallelism, [])" by simp
  show ?thesis unfolding scan_argon_def scan_literal_def using m p by simp
qed

lemma split_hash:
  assumes "HashPassword lib (Some salt) password = Inr hash"
  shows "split_on CHR ''$'' hash = [[], ''argon2id'', ''v=19'',
    ''m='' @ show_nat (nat argonMemory) @ '',t='' @ show_nat (nat argonIterations) @ '',p='' @ show_nat (nat argonParallelism),
    base64_encode False False salt, base64_encode False False (li_argon lib password salt argonIterations argonMemory argonParallelism argonKeyLength)]"
proof -
  define mp where "mp = ''m='' @ show_nat (nat argonMemory) @ '',t='' @ show_nat (nat argonIterations) @ '',p='' @ show_nat (nat argonParallelism)"
  define b h where "b = base64_encode False False salt"
    and "h = base64_encode False False (li_argon lib password salt argonIterations argonMemory argonParallelism argonKeyLength)"
  have plain: "CHR ''$'' \<notin> set mp" "CHR ''$'' \<notin> set b" "CHR ''$'' \<notin> set h"
    using show_nat_no_dollar(1) base64_no_dollar by (simp_all add: mp_def b_def h_def)
  have "hash = ''$argon2id$v=19$'' @ mp @ CHR ''$'' # b @ CHR ''$'' # h"
    using assms by (simp add: HashPassword_def Let_def mp_def b_def h_def)
  then have "split_on CHR ''$'' hash = [[], ''argon2id'', ''v=19'', mp, b, h]"
    using plain by (simp add: split_on_append split_on_plain)
  then show ?thesis unfolding mp_def b_def h_def .
qed

lemma hash_verifies:
  fixes lib :: auth_lib and salt password :: string
  defines "key \<equiv> \<lambda>p. li_argon lib p salt argonIterations argonMemory argonParallelism argonKeyLength"
  assumes "HashPassword lib (Some salt) password = Inr hash" "salt \<noteq> []" "length (key password) = argonKeyLength"
  shows "VerifyPassword lib hash p = Inr (key password = key p)"
proof -
  define mp b h where "mp = ''m='' @ show_nat (nat argonMemory) @ '',t='' @ show_nat (nat argonIterations) @ '',p='' @ show_nat (nat argonParallelism)"
    and "b = base64_encode False False salt" and "h = base64_encode False False (key password)"
  have parts: "split_on CHR ''$'' hash = [[], ''argon2id'', ''v=19'', mp, b, h]"
    using split_hash [OF assms(2)] by (simp only: mp_def b_def h_def key_def)
  have nth: "[x0, x1, x2, x3, x4, x5 :: string] ! 1 = x1" "[x0, x1, x2, x3, x4, x5] ! 2 = x2" "[x0, x1, x2, x3, x4, x5] ! 3 = x3"
    "[x0, x1, x2, x3, x4, x5] ! 4 = x4" "[x0, x1, x2, x3, x4, x5] ! 5 = x5" for x0 x1 x2 x3 x4 x5
    by (simp_all add: nth_Cons')
  have dec: "scan_argon mp = Some (argonMemory, argonIterations, argonParallelism)" "base64_decode False b = Some salt" "base64_decode False h = Some (key password)"
    unfolding mp_def b_def h_def by (rule scan_argon_hash base64_roundtrip)+
  have pos: "argonMemory \<noteq> 0" "argonIterations \<noteq> 0" "argonParallelism \<noteq> 0" by (simp_all add: argon_defs)
  have "key password \<noteq> []" using assms(4) by (auto simp: argon_defs)
  then show ?thesis
    unfolding VerifyPassword_def parts Let_def nth using dec pos assms(3,4) by (simp add: key_def)
qed

section \<open>A sample team\<close>

lemma HashPassword_code [code]:
  "HashPassword lib random password =
     (case random of
        None \<Rightarrow> Inl ErrAuthRandom
      | Some salt \<Rightarrow>
          Inr (''$argon2id$v=19$m=65536,t=3,p=2$'' @ base64_encode False False salt @ ''$'' @
            base64_encode False False (li_argon lib password salt argonIterations argonMemory argonParallelism argonKeyLength)))"
proof -
  have "show_nat 65536 = map digit_char [6, 5, 5, 3, 6]" "show_nat 3 = [digit_char 3]" "show_nat 2 = [digit_char 2]"
    by (simp_all add: show_nat.simps)
  moreover have "map digit_char [6, 5, 5, 3, 6, 3, 2] = ''6553632''" by code_simp
  ultimately show ?thesis by (auto simp: HashPassword_def argonMemory_def argonIterations_def argonParallelism_def Let_def split: option.split)
qed

definition sample_lib :: auth_lib where
  "sample_lib = \<lparr>li_lower = id, li_sql_lower = id, li_uuid = Some, li_mail = Some, li_inet = (\<lambda>_. True), li_text_less = (<), li_sha = id,
     li_argon = (\<lambda>p s t m q n. replicate 32 CHR 0x00)\<rparr>"

definition sample_auth_env :: "ident \<Rightarrow> auth_env" where
  "sample_auth_env i = \<lparr>an_flt = no_faults, an_now = 5, an_id = i, an_role_id = id\<rparr>"

definition sample_admin_db :: auth_db where
  "sample_admin_db = snd (bootstrap sample_lib (sample_auth_env ''A'') (Some [CHR 0x00]) ''a@x'' ''Ann'' ''secret''
     \<lparr>au_users = [], au_roles = [], au_user_roles = [], au_sessions = [], au_limits = [], au_audit = []\<rparr>)"

definition sample_team :: auth_db where
  "sample_team = snd (CreateMember sample_lib (sample_auth_env ''B'') ''A''
     \<lparr>mr_email = ''b@x'', mr_name = ''Bob'', mr_hash = ''h'', mr_roles = [RoleAdmin]\<rparr> sample_admin_db)"

definition sample_signed_in :: auth_db where
  "sample_signed_in = snd (create_session no_faults \<lparr>st_id = ''s'', st_user = ''B'', st_token = ''t'', st_expected = ''h'', st_expires = 99,
     st_created = 5\<rparr> sample_team)"

definition sample_removed :: "(auth_error + member) \<times> auth_db" where
  "sample_removed = RemoveMember sample_lib (sample_auth_env []) ''A'' ''B'' sample_signed_in"

lemma sample_auth_reachable: "auth_reachable sample_lib sample_admin_db" "auth_reachable sample_lib sample_team" "auth_reachable sample_lib sample_signed_in"
proof -
  show a: "auth_reachable sample_lib sample_admin_db" unfolding sample_admin_db_def
    by (rule auth_further [OF no_accounts bootstrap_admin]) simp_all
  show b: "auth_reachable sample_lib sample_team" unfolding sample_team_def by (rule auth_further [OF a create_member])
  show "auth_reachable sample_lib sample_signed_in" unfolding sample_signed_in_def by (rule auth_further [OF b new_session])
qed

lemma sample_team_facts:
  "active_admins sample_signed_in = [''A'', ''B'']" "\<not> isl (fst sample_removed)" "mb_id (projr (fst sample_removed)) = ''B''"
  "map ss_token (filter (\<lambda>s. ss_user s = ''B'') (au_sessions sample_signed_in)) = [''t'']"
  by code_simp+

section \<open>Properties\<close>



text \<open>C38. The team never loses its last administrator: once there is an active member with the administrator role,
  there is one after every sequence of changes of members, roles, passwords and sessions.\<close>

theorem an_admin_remains:
  assumes "auth_reachable lib d" "active_admins d \<noteq> []" "(auth_step lib)\<^sup>*\<^sup>* d d'"
  shows "active_admins d' \<noteq> []"
  using steps_good [OF assms(3) reachable_ok [OF assms(1)]] assms(2) by (simp add: active_admins_some good_step_def)

theorem an_admin_remains_witness: "\<not> isl (fst sample_removed) \<and> active_admins (snd sample_removed) \<noteq> []"
proof -
  have "auth_step sample_lib sample_signed_in (snd sample_removed)" unfolding sample_removed_def by (rule remove_member)
  then show ?thesis
    using an_admin_remains [OF sample_auth_reachable(3) _ r_into_rtranclp] sample_team_facts(1,2) by simp
qed

text \<open>C39. Disabling a member, removing a member and resetting a password end every session of that member for ever:
  whatever happens later, no session that existed before the change authenticates anybody again.\<close>

theorem ended_sessions_stay_ended:
  assumes "auth_reachable lib d"
    and "SetMemberEnabled lib x actor target False d = (Inr m, d') \<or> RemoveMember lib x actor target d = (Inr m, d') \<or>
      ResetMemberPassword lib x actor target hash d = (Inr m, d')"
    and "s \<in> set (au_sessions d)" "ss_user s = mb_id m" "(auth_step lib)\<^sup>*\<^sup>* d' d''"
  shows "FindPrincipal fails now (ss_token s) d'' \<noteq> Inr p"
proof -
  have "\<exists>f. member_change (mb_id m) f True d d'"
    using assms(2) by (elim disjE) (erule set_enabled_Inr remove_Inr reset_Inr, fastforce)+
  then obtain s' where s': "s' \<in> set (au_sessions d')" "ss_token s' = ss_token s" "ss_revoked s' \<noteq> None"
    using change_revokes assms(3,4) by blast
  have "auth_step lib d d'"
    using assms(2) set_enabled [of lib d x actor target False] remove_member [of lib d x actor target] reset_password [of lib d x actor target hash] by auto
  then have "auth_ok lib d'" using reachable_ok auth_further assms(1) by blast
  then show ?thesis using revoked_stays_out [OF _ s'(1,3) assms(5)] s'(2) by metis
qed

theorem ended_sessions_stay_ended_witness:
  "FindPrincipal False 6 ''t'' (snd sample_removed) \<noteq> Inr \<lparr>pr_id = ''B'', pr_email = ''b@x'', pr_name = ''Bob'', pr_roles = [RoleAdmin], pr_must_change = True\<rparr> \<and>
   FindPrincipal False 6 ''t'' sample_signed_in = Inr \<lparr>pr_id = ''B'', pr_email = ''b@x'', pr_name = ''Bob'', pr_roles = [RoleAdmin], pr_must_change = True\<rparr>"
proof -
  let ?m = "projr (fst sample_removed)"
  have m: "sample_removed = (Inr ?m, snd sample_removed)" "mb_id ?m = ''B''"
    using sample_team_facts(2,3) by (simp_all add: prod_eq_iff)
  obtain s where s: "s \<in> set (au_sessions sample_signed_in)" "ss_user s = ''B''" "ss_token s = ''t''"
  proof -
    have "''t'' \<in> set (map ss_token (filter (\<lambda>s. ss_user s = ''B'') (au_sessions sample_signed_in)))" unfolding sample_team_facts(4) by simp
    then show ?thesis using that by auto
  qed
  have "FindPrincipal False 6 (ss_token s) (snd sample_removed) \<noteq> Inr p" for p
    by (rule ended_sessions_stay_ended [OF sample_auth_reachable(3) _ s(1) _ rtranclp.rtrancl_refl, of "sample_auth_env []" "''A''" "''B''" ?m])
      (use m s(2) in \<open>simp_all add: sample_removed_def\<close>)
  moreover have "FindPrincipal False 6 ''t'' sample_signed_in =
      Inr \<lparr>pr_id = ''B'', pr_email = ''b@x'', pr_name = ''Bob'', pr_roles = [RoleAdmin], pr_must_change = True\<rparr>" by code_simp
  ultimately show ?thesis using s(3) by simp
qed

text \<open>C40. A login succeeds only with the password of an enabled member that still has this password when the session
  is stored, and the session it returns authenticates that member, with the roles of the moment of asking, until it
  expires 24 hours later.\<close>

theorem login_authenticates:
  assumes "Login lib flt random now between email password d = (Inr l, d')" "auth_reachable lib (between d)"
    and "random 0 32 = Some v" "v \<noteq> []"
  shows "\<exists>u. user_of (between d) (lo_user l) = Some u \<and> active_user u \<and> VerifyPassword lib (us_hash u) password = Inr True \<and>
    (\<forall>t < now + sessionTTL. \<exists>p. Authenticate lib False t (lo_token l) d' = Inr p \<and> pr_id p = lo_user l \<and> pr_roles p = role_names d' (lo_user l))"
proof -
  let ?e = "between d"
  obtain u :: user_row and i where u: "VerifyPassword lib (us_hash u) password = Inr True"
    and l: "lo_user l = us_id u" "lo_token l = base64_encode True False v"
    and c: "create_session flt \<lparr>st_id = i, st_user = us_id u, st_token = li_sha lib (lo_token l), st_expected = us_hash u,
       st_expires = now + sessionTTL, st_created = now\<rparr> ?e = (Inr (), d')"
    using assms(1,3) by (auto simp: Login_def before_store_def randomToken_def map_prod_def map_sum_def split: sum.splits prod.splits)
  have ok: "auth_ok lib ?e" by (rule reachable_ok [OF assms(2)])
  let ?s = "\<lparr>ss_id = i, ss_user = us_id u, ss_token = li_sha lib (lo_token l), ss_expires = now + sessionTTL, ss_revoked = None, ss_created = now\<rparr>"
  obtain w where w: "w \<in> set (au_users ?e)" "us_id w = us_id u" "us_hash w = us_hash u" "active_user w"
    and d': "d' = ?e\<lparr>au_sessions := au_sessions ?e @ [?s]\<rparr>" and fresh: "\<forall>r \<in> set (au_sessions ?e). ss_token r \<noteq> li_sha lib (lo_token l)"
    using c by (auto simp: create_session_def list_ex_iff active_user_def split: if_splits)
  have uw: "user_of ?e (us_id u) = Some w" using ok w(1,2) row_by_distinct [of us_id "au_users ?e" w] by (simp add: user_of_def auth_ok_def)
  then have uw': "user_of d' (us_id u) = Some w" by (simp add: d' user_of_def)
  have "lo_token l \<noteq> []" using assms(4) l(2) by (cases v rule: base64_digits.cases) auto
  moreover have "\<exists>p. FindPrincipal False t (li_sha lib (lo_token l)) d' = Inr p \<and> pr_id p = us_id u \<and> pr_roles p = role_names d' (us_id u)"
    if soon: "t < now + sessionTTL" for t
  proof -
    let ?P = "\<lambda>s. ss_token s = li_sha lib (lo_token l) \<and> ss_revoked s = None \<and> ss_expires s > t \<and>
                  (case user_of d' (ss_user s) of None \<Rightarrow> False | Some u \<Rightarrow> active_user u)"
    have "find ?P (au_sessions ?e) = None" using fresh by (auto simp: find_None_iff)
    then have "find ?P (au_sessions d') = Some ?s" using soon uw' w(4) by (simp add: d' find_append)
    then show ?thesis using uw' w(2) by (simp add: FindPrincipal_def)
  qed
  ultimately have "\<exists>p. Authenticate lib False t (lo_token l) d' = Inr p \<and> pr_id p = us_id u \<and> pr_roles p = role_names d' (us_id u)"
    if "t < now + sessionTTL" for t
    using that by (fastforce simp: Authenticate_def)
  then show ?thesis using uw w u l(1) by auto
qed

theorem login_authenticates_witness:
  "\<exists>l d'. Login sample_lib no_faults (\<lambda>k n. Some (replicate n CHR ''r'')) 50 id ''a@x'' ''secret'' sample_admin_db = (Inr l, d') \<and>
     (\<exists>p. Authenticate sample_lib False 60 (lo_token l) d' = Inr p \<and> pr_id p = ''A'')"
proof -
  let ?h = "projr (HashPassword sample_lib (Some [CHR 0x00]) ''secret'')"
  obtain u where u: "FindByEmail sample_lib False ''a@x'' sample_admin_db = Inr u" "us_hash u = ?h" "us_enabled u" "us_id u = ''A''"
  proof -
    have "(case FindByEmail sample_lib False ''a@x'' sample_admin_db of Inl e \<Rightarrow> False
        | Inr u \<Rightarrow> us_hash u = ?h \<and> us_enabled u \<and> us_id u = ''A'')" by code_simp
    then show ?thesis using that by (cases "FindByEmail sample_lib False ''a@x'' sample_admin_db") auto
  qed
  have ver: "VerifyPassword sample_lib ?h ''secret'' = Inr True"
    by (subst hash_verifies [where salt = "[CHR 0x00]" and password = "''secret''"])
      (simp_all add: HashPassword_def Let_def sample_lib_def argonKeyLength_def)
  let ?r = "\<lambda>k n. Some (replicate n CHR ''r'')" and ?t = "base64_encode True False (replicate 32 CHR ''r'')"
  obtain i where i: "randomUUID ?r (Suc 0) = Inr i" by (simp add: randomUUID_def Let_def)
  let ?s = "\<lparr>st_id = i, st_user = ''A'', st_token = ?t, st_expected = ?h, st_expires = 50 + sessionTTL, st_created = 50\<rparr>"
  have lib: "trim_space ''a@x'' = ''a@x''" "li_lower sample_lib = id" "li_sha sample_lib = id" by code_simp (simp_all add: sample_lib_def)
  have up: "\<not> no_faults 0" by (simp add: no_faults_def)
  have "list_ex (\<lambda>u. us_id u = ''A'' \<and> us_hash u = ?h \<and> us_enabled u \<and> us_removed u = None) (au_users sample_admin_db)"
    "au_sessions sample_admin_db = []" "?h \<noteq> []" by code_simp+
  then obtain d' where c: "create_session no_faults ?s sample_admin_db = (Inr (), d')"
    by (simp add: create_session_def tx_def check_def)
  define l where "l = \<lparr>lo_id = i, lo_user = ''A'', lo_token = ?t, lo_roles = role_names sample_admin_db ''A'',
    lo_must_change = us_must_change u, lo_expires = 50 + sessionTTL, lo_created = 50\<rparr>"
  have login: "Login sample_lib no_faults ?r 50 id ''a@x'' ''secret'' sample_admin_db = (Inr l, d')"
    using u(2-4) ver c i by (simp add: Login_def lib up u(1) before_store_def randomToken_def l_def check_def)
  have "(60 :: time) < 50 + sessionTTL" by (simp add: sessionTTL_def hour_def minute_def second_def)
  then have "\<exists>p. Authenticate sample_lib False 60 (lo_token l) d' = Inr p \<and> pr_id p = lo_user l"
    using login_authenticates [OF login _ refl] sample_auth_reachable(1) unfolding id_apply by (metis (no_types, lifting) replicate_empty zero_neq_numeral)
  then show ?thesis using login by (auto simp: l_def)
qed

text \<open>A password verifies against its own hash: what \<^verbatim>\<open>HashPassword\<close> writes is parsed back by
  \<^verbatim>\<open>VerifyPassword\<close> to the same salt, cost and key length, so that a password is accepted exactly if it derives the key of
  the hashed one, which the hashed one does.\<close>

lemma password_verifies:
  assumes "HashPassword lib (Some salt) password = Inr hash" "salt \<noteq> []"
    and "length (li_argon lib password salt argonIterations argonMemory argonParallelism argonKeyLength) = argonKeyLength"
  shows "VerifyPassword lib hash password = Inr True \<and>
    (\<forall>p. VerifyPassword lib hash p = Inr (li_argon lib password salt argonIterations argonMemory argonParallelism argonKeyLength =
       li_argon lib p salt argonIterations argonMemory argonParallelism argonKeyLength))"
  using hash_verifies [OF assms] by simp

lemma password_verifies_witness:
  "VerifyPassword sample_lib (projr (HashPassword sample_lib (Some [CHR 0x00]) ''pw'')) ''pw'' = Inr True"
proof -
  have "HashPassword sample_lib (Some [CHR 0x00]) ''pw'' = Inr (projr (HashPassword sample_lib (Some [CHR 0x00]) ''pw''))"
    by (simp add: HashPassword_def Let_def)
  then show ?thesis using password_verifies by (simp add: sample_lib_def argonKeyLength_def)
qed

section \<open>A removed administrator\<close>

text \<open>Bootstrapping an administrator whose account was removed succeeds and enables the account, but leaves it removed, so
  that the administrator still cannot log in.\<close>

lemma bootstrap_leaves_removed:
  "let (res, d) = bootstrap sample_lib (sample_auth_env ''C'') (Some [CHR 0x00]) ''b@x'' ''Bob'' ''secret'' (snd sample_removed)
   in res = Inr () \<and> FindByEmail sample_lib False ''b@x'' d = Inl ErrUserNotFound"
  by code_simp

end
