(* ===== verification/Spec2Isabelle.thy ===== *)
theory Spec2Isabelle
  imports Sched_Service Dispatch_Theorems Upgrade_Theorems Log_Theorems Auth_Theorems
begin

text \<open>
  \<^bold>\<open>The program.\<close> Yunling is a scheduling centre for scripts on many servers. Operators define tasks;
  a trigger or a cron schedule makes a run of a task and puts it into a central queue
  (\<^verbatim>\<open>internal/task\<close>). The scheduler (\<^verbatim>\<open>internal/scheduler\<close>) filters and ranks the servers, reserves
  resources in Redis (\<^verbatim>\<open>internal/store/redis\<close>) and assigns the run in PostgreSQL. The dispatcher
  (\<^verbatim>\<open>internal/dispatch\<close>) claims assigned runs and sends them to the agent of their server. The agents
  report events, usage samples and lists of running processes, which the run event store and the
  reconciler turn into state changes; failed runs are retried. Independently of runs the agents
  themselves are upgraded in batches by a coordinator (\<^verbatim>\<open>internal/agentupgrade\<close>). The output of a run
  is spooled on the agent and delivered to the centre (\<^verbatim>\<open>internal/logstream\<close>), which masks the
  secrets of the run (\<^verbatim>\<open>internal/secret\<close>). Operators have accounts with roles and sessions
  (\<^verbatim>\<open>internal/auth\<close>).

  \<^bold>\<open>How it is modelled.\<close> Times are integers (nanoseconds since Go's zero time), identifiers and
  texts are byte strings, Go maps are association lists, PostgreSQL tables are lists of rows, and
  64-bit integer arithmetic wraps where the code computes with it. A transaction is a function from the database to an error
  or a result with the new database (\<^verbatim>\<open>tx\<close>, \<^verbatim>\<open>stmt\<close>): a statement fails when the argument
  \<^verbatim>\<open>faults\<close> says so, and a failed transaction leaves the database as it was. Fresh identifiers, the
  clock, the time zone database, the secret resolver, the command channel and what other
  processes do between two statements are arguments. A Redis call may be refused or its answer
  lost. Loops are structural recursions; the minute search of cron schedules has a measure (five years of
  minutes), and nothing uses fuel.

  \<^bold>\<open>Theories.\<close>

  \<^item> \<^verbatim>\<open>Go_Prelude\<close>: Go's integers, strings and slices, tables, faults and transactions, lemma
    collections. \<^verbatim>\<open>Utf8\<close>: runes of a byte string. \<^verbatim>\<open>Go_Path\<close>: \<^verbatim>\<open>path.Clean\<close>, \<^verbatim>\<open>path.Join\<close> and
    containment. \<^verbatim>\<open>Go_Encoding\<close>: URL and base64 encodings,
    replacing and number parsing. \<^verbatim>\<open>Task_Model\<close>: the records and rows of \<^verbatim>\<open>task/model.go\<close>, \<^verbatim>\<open>agentprotocol\<close>,
    \<^verbatim>\<open>scheduler/types.go\<close> and the migrations.
  \<^item> \<^verbatim>\<open>Sched_Policy\<close> (\<^verbatim>\<open>scheduler/filter.go\<close>, \<^verbatim>\<open>score.go\<close>): which servers may take a run, that scores
    stay in their range although the arithmetic wraps, that the ranking is the sorted permutation.
  \<^item> \<^verbatim>\<open>Sched_Queue\<close> (\<^verbatim>\<open>scheduler/queue.go\<close>): the queue behind a Go map; what is popped does not depend
    on the iteration order of the map.
  \<^item> \<^verbatim>\<open>Redis_Lease\<close> (\<^verbatim>\<open>store/redis/lease.go\<close>): the three Lua scripts on their four keys; totals are the
    sums of the held amounts in every reachable store, no reservation oversubscribes a server,
    restoring is idempotent.
  \<^item> \<^verbatim>\<open>Run_Store\<close> (\<^verbatim>\<open>scheduler/postgres.go\<close>), \<^verbatim>\<open>Run_Events\<close> (\<^verbatim>\<open>task/event_service.go\<close>, \<^verbatim>\<open>usage.go\<close>,
    \<^verbatim>\<open>reconcile.go\<close>, \<^verbatim>\<open>run_service.go\<close>), \<^verbatim>\<open>Task_Service\<close> (\<^verbatim>\<open>task/service.go\<close>, \<^verbatim>\<open>schedule.go\<close>,
    \<^verbatim>\<open>parameter_validation.go\<close>), \<^verbatim>\<open>Dispatch\<close> (\<^verbatim>\<open>dispatch\<close>): one definition per transaction on the run
    tables.
  \<^item> \<^verbatim>\<open>Run_Machine\<close>, \<^verbatim>\<open>Run_System\<close>: the abstract life cycle of runs, the invariants of the run tables, and
    that every transaction keeps the invariants and refines the life cycle; \<^verbatim>\<open>run_step\<close> is the step
    relation of all services together. \<^verbatim>\<open>Run_Theorems\<close>, \<^verbatim>\<open>Dispatch_Theorems\<close>: the properties of runs,
    events, leases, retries, schedules and dispatching, for every interleaving of the services.
  \<^item> \<^verbatim>\<open>Sched_Service\<close> (\<^verbatim>\<open>scheduler/service.go\<close>): placing runs, events and scans over the queue, the lease
    store and the run store together.
  \<^item> \<^verbatim>\<open>Cron\<close> (\<^verbatim>\<open>task/schedule.go\<close>): parsing of cron rules and the search for the next time.
  \<^item> \<^verbatim>\<open>Artifact_Policy\<close> (\<^verbatim>\<open>agentprotocol/artifact.go\<close>): which files a run may publish.
  \<^item> \<^verbatim>\<open>Agent_Upgrade\<close>, \<^verbatim>\<open>Upgrade_Theorems\<close> (\<^verbatim>\<open>agentupgrade\<close>): versions, the plan repository, the service
    and the coordinator; versions are ordered as numbers, plans start with a canary, concurrent
    saves are refused, install commands go only to idle servers of the current batch, failed
    batches are rolled back; and situations in which a plan gets stuck.
  \<^item> \<^verbatim>\<open>Secret_Store\<close> (\<^verbatim>\<open>secret\<close>): creating, encrypting, resolving and masking secrets; the cipher is an
    argument. A created secret resolves to itself, and masking leaves no value or encoding of one.
  \<^item> \<^verbatim>\<open>Log_Stream\<close>, \<^verbatim>\<open>Log_Delivery\<close>, \<^verbatim>\<open>Log_Theorems\<close> (\<^verbatim>\<open>logstream/service.go\<close>, \<^verbatim>\<open>spool.go\<close>,
    \<^verbatim>\<open>agent/log_client.go\<close>): the spool of the agent, the acceptance of chunks and the client between
    them; logs are cut without loss, delivered in order and completely, and the situations in which
    they are damaged or stuck.
  \<^item> \<^verbatim>\<open>Go_Result\<close>, \<^verbatim>\<open>Auth\<close>, \<^verbatim>\<open>Auth_Theorems\<close> (\<^verbatim>\<open>auth\<close>, \<^verbatim>\<open>cmd/bootstrap\<close>): roles, password hashes, sessions, team
    members, the change of a password and the first administrator; the tables stay well formed, an
    administrator remains, ended sessions never come back, and a login authenticates its member.

  \<^bold>\<open>Not modelled.\<close> HTTP handlers, request decoding, ticker loops and process wiring, which only
  call the operations above; key derivation, encryption, hashing and signatures, which are
  library code; calls to systemd, Docker, restic, \<^verbatim>\<open>pg_dump\<close> and the object store; the web console; the
  JSON encoding of messages; mutexes of the in-memory structures, whose operations are atomic
  under them; the read-only run views and their paging queries. Not covered yet are the services of
  scripts and their synchronisation, the server registry and enrollment, alerts and notifications,
  log archives, agent releases, and the policies of the release and backup tools; the rows of their
  tables that the modelled parts read are tables or arguments of the model.
\<close>

end
